(* ===== verification/Go_Prelude.thy ===== *)
theory Go_Prelude
  imports Main "HOL-Library.Word"
begin

text \<open>
  The vocabulary every component shares: bytes and Go strings, the byte orders of
  \<^verbatim>\<open>encoding/binary\<close>, Go errors with the wrapping that \<^verbatim>\<open>errors.Is\<close> looks through,
  results, buffered channels, and the outcome of a piece of Go code (it returns, it waits on a
  channel, it panics). The named collections \<open>go_defs\<close>, \<open>codec_simps\<close> and \<open>chan_simps\<close> gather the
  facts the component proofs run on.
\<close>

unbundle bit_operations_syntax

named_theorems go_defs \<open>definitions unfolded to run a piece of Go code\<close>
named_theorems codec_simps \<open>what a reader returns on what a writer produced\<close>
named_theorems chan_simps \<open>effect of the channel operations\<close>

type_synonym byte = "8 word"

section \<open>Go strings and byte slices\<close>

text \<open>A Go string is an immutable sequence of bytes, as an Isabelle \<^typ>\<open>string\<close> is.
  \<^verbatim>\<open>[]byte(s)\<close> and \<^verbatim>\<open>string(b)\<close> copy the bytes.\<close>

definition bytes_of_string :: "string \<Rightarrow> byte list" where
  "bytes_of_string s = map (\<lambda>c. word_of_nat (of_char c)) s"

definition string_of_bytes :: "byte list \<Rightarrow> string" where
  "string_of_bytes bs = map (\<lambda>b. char_of (unat b)) bs"

lemma length_bytes_of_string [simp]: "length (bytes_of_string s) = length s"
  by (simp add: bytes_of_string_def)

lemma length_string_of_bytes [simp]: "length (string_of_bytes bs) = length bs"
  by (simp add: string_of_bytes_def)

lemma unat_of_char [simp]: "unat (word_of_nat (of_char c) :: byte) = of_char c"
proof -
  have "(of_char c :: nat) < 256" by simp
  then show ?thesis by (simp add: unat_of_nat take_bit_nat_eq_self_iff)
qed

lemma string_of_bytes_of_string [simp]: "string_of_bytes (bytes_of_string s) = s"
  by (simp add: string_of_bytes_def bytes_of_string_def comp_def)

lemma byte_of_char_of [simp]: "word_of_nat (of_char (char_of (unat (b :: byte)))) = b"
proof -
  have "unat b < 2 ^ LENGTH(8)" by (rule unsigned_less)
  then show ?thesis by simp
qed

lemma bytes_of_string_of_bytes [simp]: "bytes_of_string (string_of_bytes bs) = bs"
  unfolding string_of_bytes_def bytes_of_string_def
  by (simp add: comp_def byte_of_char_of del: of_char_of)

lemma bytes_of_string_eq_Nil [simp]: "bytes_of_string s = [] \<longleftrightarrow> s = []"
  by (simp add: bytes_of_string_def)

lemma bytes_of_string_inject [simp]: "bytes_of_string s = bytes_of_string t \<longleftrightarrow> s = t"
  by (metis string_of_bytes_of_string)

section \<open>Byte orders\<close>

text \<open>\<^verbatim>\<open>binary.LittleEndian.PutUintN\<close>: the low byte first, then the value shifted right by 8;
  \<^verbatim>\<open>binary.LittleEndian.UintN\<close> is \<^verbatim>\<open>b[0] | b[1]<<8 | ...\<close>. The big-endian order is the reverse.\<close>

fun le_put :: "nat \<Rightarrow> 'a::len word \<Rightarrow> byte list" where
  "le_put 0 v = []"
| "le_put (Suc k) v = ucast v # le_put k (drop_bit 8 v)"

fun le_get :: "byte list \<Rightarrow> 'a::len word" where
  "le_get [] = 0"
| "le_get (b # bs) = ucast b OR push_bit 8 (le_get bs)"

definition be_put :: "nat \<Rightarrow> 'a::len word \<Rightarrow> byte list" where
  "be_put k v = rev (le_put k v)"

definition be_get :: "byte list \<Rightarrow> 'a::len word" where
  "be_get bs = le_get (rev bs)"

lemma le_put_numeral: "le_put (numeral k) v = ucast v # le_put (pred_numeral k) (drop_bit 8 v)"
  by (simp add: numeral_eq_Suc)

lemma length_le_put [simp]: "length (le_put k v) = k"
  by (induction k arbitrary: v) auto

lemma length_be_put [simp]: "length (be_put k v) = k"
  by (simp add: be_put_def)

lemma le_get_le_put_take_bit: "le_get (le_put k v) = take_bit (8 * k) (v :: 'a::len word)"
proof (induction k arbitrary: v)
  case 0
  then show ?case by simp
next
  case (Suc k)
  show ?case
    by (rule bit_word_eqI) (auto simp: Suc.IH bit_simps)
qed

lemma le_get_le_put [codec_simps]:
  "LENGTH('a) \<le> 8 * k \<Longrightarrow> le_get (le_put k v) = (v :: 'a::len word)"
  by (simp add: le_get_le_put_take_bit take_bit_word_eq_self)

lemma be_get_be_put [codec_simps]:
  "LENGTH('a) \<le> 8 * k \<Longrightarrow> be_get (be_put k v) = (v :: 'a::len word)"
  by (simp add: be_get_def be_put_def le_get_le_put)

text \<open>The other direction: every byte string of the right width is the encoding of one value.\<close>

lemma le_put_le_get:
  "8 * length bs \<le> LENGTH('a) \<Longrightarrow> le_put (length bs) (le_get bs :: 'a::len word) = bs"
proof (induction bs)
  case Nil
  then show ?case by simp
next
  case (Cons b bs)
  let ?w = "le_get bs :: 'a word"
  have 1: "ucast (ucast b OR push_bit 8 ?w) = b"
    using Cons.prems by (intro bit_word_eqI) (auto simp: bit_simps)
  have bnd: "\<not> bit ?w n" if "8 * length bs \<le> n" for n
    using that
  proof (induction bs arbitrary: n)
    case (Cons c cs)
    then show ?case by (auto simp: bit_simps dest: bit_imp_le_length)
  qed simp
  have 2: "drop_bit 8 (ucast b OR push_bit 8 ?w) = ?w"
    using Cons.prems bnd
    by (intro bit_word_eqI) (auto simp: bit_simps dest: bit_imp_le_length)
  have "le_put (Suc (length bs)) (ucast b OR push_bit 8 ?w) = b # le_put (length bs) ?w"
    by (simp only: le_put.simps 1 2)
  with Cons show ?case by simp
qed

lemma le_put_inject:
  "LENGTH('a) \<le> 8 * k \<Longrightarrow> le_put k v = le_put k w \<longleftrightarrow> v = (w :: 'a::len word)"
  by (metis le_get_le_put)

lemma word_of_nat_inject:
  "m < 2 ^ LENGTH('a) \<Longrightarrow> n < 2 ^ LENGTH('a) \<Longrightarrow>
   (word_of_nat m :: 'a::len word) = word_of_nat n \<longleftrightarrow> m = n"
  by (simp add: word_of_nat_eq_iff take_bit_nat_eq_self)

lemma unat_word_of_nat_small: "n < 2 ^ LENGTH('a) \<Longrightarrow> unat (word_of_nat n :: 'a::len word) = n"
  by (simp add: unat_of_nat take_bit_nat_eq_self)

text \<open>A counter that does not wrap grows.\<close>

lemma word_less_inc: "n \<noteq> - 1 \<Longrightarrow> i \<le> n \<Longrightarrow> i < n + 1" for n :: "'a::len word"
  by (meson inc_less_eq_self_iff_eq leD le_less_trans linorder_not_less)

lemma unat_word_inc: "n \<noteq> - 1 \<Longrightarrow> unat (n + 1) = Suc (unat n)" for n :: "'a::len word"
  by (metis add.commute add_eq_0_iff unatSuc)

section \<open>Errors\<close>

text \<open>\<^verbatim>\<open>errors.New\<close> makes a sentinel, identified by its variable; \<^verbatim>\<open>fmt.Errorf\<close> makes a fresh
  error that wraps the arguments of its \<^verbatim>\<open>%w\<close> verbs. \<^verbatim>\<open>errors.Is\<close> searches the tree.\<close>

datatype go_error = Sentinel string | Errorf string "go_error list"

fun errors_Is :: "go_error \<Rightarrow> go_error \<Rightarrow> bool" where
  "errors_Is (Sentinel s) t = (t = Sentinel s)"
| "errors_Is (Errorf m es) t = list_ex (\<lambda>e. errors_Is e t) es"

abbreviation io_EOF :: go_error where "io_EOF \<equiv> Sentinel ''EOF''"
abbreviation io_ErrUnexpectedEOF :: go_error where
  "io_ErrUnexpectedEOF \<equiv> Sentinel ''unexpected EOF''"

type_synonym 'a result = "go_error + 'a"

section \<open>Channels\<close>

text \<open>A buffered channel: its capacity and the values sent and not yet received. A sender that
  finds the buffer full waits; \<open>chan_put\<close> is the channel once the value is in.\<close>

record 'a chan =
  chan_cap :: nat
  chan_buf :: "'a list"

definition make_chan :: "nat \<Rightarrow> 'a chan" where
  "make_chan n = \<lparr>chan_cap = n, chan_buf = []\<rparr>"

definition chan_full :: "'a chan \<Rightarrow> bool" where
  "chan_full c \<longleftrightarrow> chan_cap c \<le> length (chan_buf c)"

definition chan_put :: "'a \<Rightarrow> 'a chan \<Rightarrow> 'a chan" where
  "chan_put x c = c\<lparr>chan_buf := chan_buf c @ [x]\<rparr>"

lemma chan_buf_put [chan_simps, simp]: "chan_buf (chan_put x c) = chan_buf c @ [x]"
  by (simp add: chan_put_def)

lemma chan_cap_put [chan_simps, simp]: "chan_cap (chan_put x c) = chan_cap c"
  by (simp add: chan_put_def)

lemma make_chan_sel [chan_simps, simp]: "chan_cap (make_chan n) = n" "chan_buf (make_chan n) = []"
  by (simp_all add: make_chan_def)

text \<open>\<^verbatim>\<open>select { case ch <- x: case <-ctx.Done(): }\<close>. While the context is live only the send can
  be taken, and it waits for room. Once the context is done the other branch is ready too; which of
  two ready branches runs is the scheduler's choice, the argument \<open>prefer_done\<close>.\<close>

datatype 'a select_result = Sent "'a chan" | CtxDone | Waits

definition select_send :: "bool \<Rightarrow> bool \<Rightarrow> 'a \<Rightarrow> 'a chan \<Rightarrow> 'a select_result" where
  "select_send ctx_done prefer_done x c =
     (if ctx_done \<and> (prefer_done \<or> chan_full c) then CtxDone
      else if chan_full c then Waits
      else Sent (chan_put x c))"

lemma select_send_live [chan_simps, simp]:
  "select_send False p x c = (if chan_full c then Waits else Sent (chan_put x c))"
  by (simp add: select_send_def)

lemma select_send_never_waits_when_done: "select_send True p x c \<noteq> Waits"
  by (simp add: select_send_def)

lemma select_send_Sent:
  "select_send d p x c = Sent c' \<Longrightarrow> c' = chan_put x c \<and> \<not> chan_full c"
  by (auto simp: select_send_def split: if_splits)

section \<open>Outcomes\<close>

text \<open>What a piece of Go code does to a state: it returns a value, it waits in the state reached so
  far for another goroutine to make room, or it panics there.\<close>

datatype ('a, 's) outcome = Return 'a 's | Block 's | Panic string 's

primrec outcome_state :: "('a, 's) outcome \<Rightarrow> 's" where
  "outcome_state (Return a s) = s"
| "outcome_state (Block s) = s"
| "outcome_state (Panic m s) = s"

primrec and_then :: "('a, 's) outcome \<Rightarrow> ('a \<Rightarrow> 's \<Rightarrow> ('b, 's) outcome) \<Rightarrow> ('b, 's) outcome" where
  "and_then (Return a s) k = k a s"
| "and_then (Block s) k = Block s"
| "and_then (Panic m s) k = Panic m s"

lemma and_then_Return_iff:
  "and_then r k = Return b t \<longleftrightarrow> (\<exists>a s. r = Return a s \<and> k a s = Return b t)"
  by (cases r) auto

lemma and_then_Return [simp]: "and_then x Return = x"
  by (cases x) simp_all

lemma and_then_assoc: "and_then (and_then r k) l = and_then r (\<lambda>a s. and_then (k a s) l)"
  by (cases r) auto

section \<open>Maps and lists\<close>

text \<open>\<^verbatim>\<open>delete(m, k)\<close> on a Go map.\<close>

definition map_delete :: "'k \<Rightarrow> ('k \<rightharpoonup> 'v) \<Rightarrow> ('k \<rightharpoonup> 'v)" where
  "map_delete k m = m(k := None)"

lemma map_delete_apply [simp]: "map_delete k m j = (if j = k then None else m j)"
  by (simp add: map_delete_def)

lemma dom_map_delete [simp]: "dom (map_delete k m) = dom m - {k}"
  by (auto simp: map_delete_def)

lemma map_delete_idem [simp]: "m k = None \<Longrightarrow> map_delete k m = m"
  by (auto simp: map_delete_def)

lemma append_eq_append_lengthD: "xs @ us = ys @ vs \<Longrightarrow> length xs = length ys \<Longrightarrow> xs = ys \<and> us = vs"
  by simp

lemma take_append_exact [simp]: "length xs = n \<Longrightarrow> take n (xs @ ys) = xs"
  by auto

lemma drop_append_exact [simp]: "length xs = n \<Longrightarrow> drop n (xs @ ys) = ys"
  by auto

end
