(* ===== verification/Wire.thy ===== *)
theory Wire
  imports Go_Prelude
begin

text \<open>
  \<^verbatim>\<open>pkg/wire/wire.go\<close>: little-endian integers and length-prefixed byte slices over an
  \<^verbatim>\<open>io.Writer\<close> and an \<^verbatim>\<open>io.Reader\<close>. A writer is its \<^verbatim>\<open>Write\<close> method; a reader is
  \<^verbatim>\<open>io.ReadFull\<close> on it, the only way the package reads. The locales \<open>byte_sink\<close> and
  \<open>byte_source\<close> state what a conforming writer and reader promise, \<open>byte_pipe\<close> puts them
  together and proves the round trips once; \<^verbatim>\<open>bytes.Buffer\<close>, the stream every caller in the
  repository uses, interprets them.
\<close>

type_synonym 'w writer = "byte list \<Rightarrow> 'w \<Rightarrow> go_error option \<times> 'w"
type_synonym 'r reader = "nat \<Rightarrow> 'r \<Rightarrow> byte list result \<times> 'r"

section \<open>Operations\<close>

definition WriteUint16 :: "'w writer \<Rightarrow> 16 word \<Rightarrow> 'w \<Rightarrow> go_error option \<times> 'w" where
  "WriteUint16 wr v w = wr (le_put 2 v) w"

definition WriteUint32 :: "'w writer \<Rightarrow> 32 word \<Rightarrow> 'w \<Rightarrow> go_error option \<times> 'w" where
  "WriteUint32 wr v w = wr (le_put 4 v) w"

definition WriteUint64 :: "'w writer \<Rightarrow> 64 word \<Rightarrow> 'w \<Rightarrow> go_error option \<times> 'w" where
  "WriteUint64 wr v w = wr (le_put 8 v) w"

definition ReadUint16 :: "'r reader \<Rightarrow> 'r \<Rightarrow> 16 word result \<times> 'r" where
  "ReadUint16 rd r =
     (case rd 2 r of (Inl e, r') \<Rightarrow> (Inl e, r') | (Inr bs, r') \<Rightarrow> (Inr (le_get bs), r'))"

definition ReadUint32 :: "'r reader \<Rightarrow> 'r \<Rightarrow> 32 word result \<times> 'r" where
  "ReadUint32 rd r =
     (case rd 4 r of (Inl e, r') \<Rightarrow> (Inl e, r') | (Inr bs, r') \<Rightarrow> (Inr (le_get bs), r'))"

definition ReadUint64 :: "'r reader \<Rightarrow> 'r \<Rightarrow> 64 word result \<times> 'r" where
  "ReadUint64 rd r =
     (case rd 8 r of (Inl e, r') \<Rightarrow> (Inl e, r') | (Inr bs, r') \<Rightarrow> (Inr (le_get bs), r'))"

definition WriteBytes :: "'w writer \<Rightarrow> byte list \<Rightarrow> 'w \<Rightarrow> go_error option \<times> 'w" where
  "WriteBytes wr b w =
     (case WriteUint32 wr (word_of_nat (length b)) w of
        (Some e, w') \<Rightarrow> (Some e, w')
      | (None, w') \<Rightarrow> if length b = 0 then (None, w') else wr b w')"

definition ReadBytes :: "'r reader \<Rightarrow> 'r \<Rightarrow> byte list result \<times> 'r" where
  "ReadBytes rd r =
     (case ReadUint32 rd r of
        (Inl e, r') \<Rightarrow> (Inl e, r')
      | (Inr n, r') \<Rightarrow>
          if n = 0 then (Inr [], r')
          else (case rd (unat n) r' of
                  (Inl e, r'') \<Rightarrow> (Inl (Errorf ''ReadBytes: %w'' [e]), r'')
                | (Inr buf, r'') \<Rightarrow> (Inr buf, r'')))"

definition WriteString :: "'w writer \<Rightarrow> string \<Rightarrow> 'w \<Rightarrow> go_error option \<times> 'w" where
  "WriteString wr s w = WriteBytes wr (bytes_of_string s) w"

definition ReadString :: "'r reader \<Rightarrow> 'r \<Rightarrow> string result \<times> 'r" where
  "ReadString rd r =
     (case ReadBytes rd r of (Inl e, r') \<Rightarrow> (Inl e, r') | (Inr b, r') \<Rightarrow> (Inr (string_of_bytes b), r'))"

lemmas wire_defs [go_defs] =
  WriteUint16_def WriteUint32_def WriteUint64_def ReadUint16_def ReadUint32_def ReadUint64_def
  WriteBytes_def ReadBytes_def WriteString_def ReadString_def

text \<open>The in-memory stream, \<^verbatim>\<open>bytes.Buffer\<close>: \<^verbatim>\<open>Write\<close> appends and never fails;
  \<^verbatim>\<open>io.ReadFull\<close> takes exactly \<open>n\<close> bytes from the front, or drains what is left and reports
  \<^verbatim>\<open>io.EOF\<close> when nothing was left and \<^verbatim>\<open>io.ErrUnexpectedEOF\<close> otherwise.\<close>

definition Buffer_Write :: "(byte list) writer" where
  "Buffer_Write b buf = (None, buf @ b)"

definition Buffer_ReadFull :: "(byte list) reader" where
  "Buffer_ReadFull n buf =
     (if n \<le> length buf then (Inr (take n buf), drop n buf)
      else (Inl (if buf = [] then io_EOF else io_ErrUnexpectedEOF), []))"

lemmas buffer_defs [go_defs] = Buffer_Write_def Buffer_ReadFull_def

section \<open>The stream interfaces\<close>

locale byte_sink =
  fixes wr :: "'w writer" and contents :: "'w \<Rightarrow> byte list"
  assumes write_ok: "wr b w = (None, w') \<Longrightarrow> contents w' = contents w @ b"
begin

lemma WriteUint32_ok: "WriteUint32 wr v w = (None, w') \<Longrightarrow> contents w' = contents w @ le_put 4 v"
  by (simp add: WriteUint32_def write_ok)

lemma WriteBytes_ok:
  assumes "WriteBytes wr b w = (None, w')"
  shows "contents w' = contents w @ le_put 4 (word_of_nat (length b) :: 32 word) @ b"
  using assms
  by (auto simp: WriteBytes_def dest!: WriteUint32_ok write_ok
      split: prod.splits option.splits if_splits)

end

locale byte_source =
  fixes rd :: "'r reader" and remaining :: "'r \<Rightarrow> byte list"
  assumes readfull_ok: "n \<le> length (remaining r) \<Longrightarrow>
      \<exists>r'. rd n r = (Inr (take n (remaining r)), r') \<and> remaining r' = drop n (remaining r)"
    and readfull_short: "length (remaining r) < n \<Longrightarrow> \<exists>e r'. rd n r = (Inl e, r')"
begin

lemma readfull_prefix:
  assumes "remaining r = bs @ rest" and "length bs = n"
  shows "\<exists>r'. rd n r = (Inr bs, r') \<and> remaining r' = rest"
  using readfull_ok [of n r] assms by auto

lemma ReadUint16_ok:
  "remaining r = le_put 2 v @ rest \<Longrightarrow> \<exists>r'. ReadUint16 rd r = (Inr v, r') \<and> remaining r' = rest"
  using readfull_prefix [of r "le_put 2 v" rest 2]
  by (auto simp: ReadUint16_def codec_simps)

lemma ReadUint32_ok:
  "remaining r = le_put 4 v @ rest \<Longrightarrow> \<exists>r'. ReadUint32 rd r = (Inr v, r') \<and> remaining r' = rest"
  using readfull_prefix [of r "le_put 4 v" rest 4]
  by (auto simp: ReadUint32_def codec_simps)

lemma ReadUint64_ok:
  "remaining r = le_put 8 v @ rest \<Longrightarrow> \<exists>r'. ReadUint64 rd r = (Inr v, r') \<and> remaining r' = rest"
  using readfull_prefix [of r "le_put 8 v" rest 8]
  by (auto simp: ReadUint64_def codec_simps)

lemma ReadBytes_ok:
  assumes r: "remaining r = le_put 4 (word_of_nat (length b) :: 32 word) @ b @ rest"
    and len: "length b < 2 ^ 32"
  shows "\<exists>r'. ReadBytes rd r = (Inr b, r') \<and> remaining r' = rest"
proof -
  let ?n = "word_of_nat (length b) :: 32 word"
  have n: "unat ?n = length b" using len by (simp add: unat_of_nat take_bit_nat_eq_self_iff)
  from ReadUint32_ok [OF r] obtain r1
    where r1: "ReadUint32 rd r = (Inr ?n, r1)" "remaining r1 = b @ rest" by blast
  show ?thesis
  proof (cases "b = []")
    case True
    with r1 show ?thesis by (simp add: ReadBytes_def)
  next
    case False
    with n have "?n \<noteq> 0" by (metis length_0_conv unat_0)
    moreover from readfull_prefix [OF r1(2), of "unat ?n"] n obtain r2
      where "rd (unat ?n) r1 = (Inr b, r2)" "remaining r2 = rest" by auto
    ultimately show ?thesis using r1 by (simp add: ReadBytes_def)
  qed
qed

end

locale byte_pipe = byte_sink wr contents + byte_source rd remaining
  for wr :: "'w writer" and contents and rd :: "'r reader" and remaining
begin

lemma WriteBytes_ReadBytes:
  assumes "WriteBytes wr b w = (None, w')" and "contents w = []" and "length b < 2 ^ 32"
    and "remaining r = contents w' @ rest"
  shows "\<exists>r'. ReadBytes rd r = (Inr b, r') \<and> remaining r' = rest"
  using WriteBytes_ok [OF assms(1)] assms(2-) by (intro ReadBytes_ok) simp_all

lemma WriteString_ReadString:
  assumes "WriteString wr s w = (None, w')" and "contents w = []" and "length s < 2 ^ 32"
    and "remaining r = contents w' @ rest"
  shows "\<exists>r'. ReadString rd r = (Inr s, r') \<and> remaining r' = rest"
  using WriteBytes_ReadBytes [OF _ assms(2), of "bytes_of_string s" w' r rest] assms
  by (auto simp: WriteString_def ReadString_def)

end

interpretation buf: byte_pipe Buffer_Write "\<lambda>b. b" Buffer_ReadFull "\<lambda>b. b"
  by unfold_locales (auto simp: buffer_defs)

section \<open>Buffers\<close>

lemma WriteUint16_buffer [simp]: "WriteUint16 Buffer_Write v w = (None, w @ le_put 2 v)"
  by (simp add: WriteUint16_def Buffer_Write_def)

lemma WriteUint64_buffer [simp]: "WriteUint64 Buffer_Write v w = (None, w @ le_put 8 v)"
  by (simp add: WriteUint64_def Buffer_Write_def)

lemma WriteBytes_buffer [simp]:
  "WriteBytes Buffer_Write b w = (None, w @ le_put 4 (word_of_nat (length b) :: 32 word) @ b)"
  by (simp add: wire_defs Buffer_Write_def)

lemma ReadUint16_buffer [codec_simps]: "ReadUint16 Buffer_ReadFull (le_put 2 v @ rest) = (Inr v, rest)"
  using buf.ReadUint16_ok [of "le_put 2 v @ rest" v rest] by auto

lemma ReadUint64_buffer [codec_simps]: "ReadUint64 Buffer_ReadFull (le_put 8 v @ rest) = (Inr v, rest)"
  using buf.ReadUint64_ok [of "le_put 8 v @ rest" v rest] by auto

lemma ReadBytes_buffer [codec_simps]:
  "length b < 2 ^ 32 \<Longrightarrow>
   ReadBytes Buffer_ReadFull (le_put 4 (word_of_nat (length b) :: 32 word) @ b @ rest) = (Inr b, rest)"
  using buf.ReadBytes_ok [of _ b rest] by auto

lemma ReadUint16_short: "length buf < 2 \<Longrightarrow> \<exists>e. ReadUint16 Buffer_ReadFull buf = (Inl e, [])"
  by (auto simp: ReadUint16_def Buffer_ReadFull_def)

lemma ReadUint64_short: "length buf < 8 \<Longrightarrow> \<exists>e. ReadUint64 Buffer_ReadFull buf = (Inl e, [])"
  by (auto simp: ReadUint64_def Buffer_ReadFull_def)

text \<open>What \<open>ReadBytes\<close> accepts is exactly a header followed by at least as many bytes.\<close>

lemma ReadBytes_buffer_iff:
  "ReadBytes Buffer_ReadFull buf = (Inr b, rest) \<longleftrightarrow>
   length b < 2 ^ 32 \<and> buf = le_put 4 (word_of_nat (length b) :: 32 word) @ b @ rest"
proof
  assume rd: "ReadBytes Buffer_ReadFull buf = (Inr b, rest)"
  let ?n = "le_get (take 4 buf) :: 32 word"
  from rd have len: "4 \<le> length buf"
    by (auto simp: ReadBytes_def ReadUint32_def Buffer_ReadFull_def split: if_splits)
  have hdr: "take 4 buf = le_put 4 ?n"
    using le_put_le_get [of "take 4 buf", where 'a = 32] len by simp
  from rd len have b: "b = take (unat ?n) (drop 4 buf)" "rest = drop (unat ?n) (drop 4 buf)"
    and enough: "unat ?n \<le> length (drop 4 buf)"
    by (auto simp: ReadBytes_def ReadUint32_def Buffer_ReadFull_def split: if_splits)
  then have lb: "length b = unat ?n" by simp
  then have "word_of_nat (length b) = ?n" by simp
  moreover have "length b < 2 ^ 32" using lb unsigned_less [of ?n, where 'a = nat] by simp
  moreover have "buf = take 4 buf @ b @ rest" using b by (metis append_take_drop_id)
  ultimately show "length b < 2 ^ 32 \<and> buf = le_put 4 (word_of_nat (length b) :: 32 word) @ b @ rest"
    using hdr by simp
qed (auto simp: codec_simps)

section \<open>Properties\<close>

text \<open>A byte slice of fewer than \<open>2^32\<close> bytes written with \<open>WriteBytes\<close> at the end of a buffer is
  what \<open>ReadBytes\<close> returns from there, and the reader is left exactly at what follows it.\<close>

theorem WriteBytes_ReadBytes_roundtrip:
  assumes "length b < 2 ^ 32"
  shows "ReadBytes Buffer_ReadFull (snd (WriteBytes Buffer_Write b []) @ rest) = (Inr b, rest)"
  using buf.WriteBytes_ReadBytes [of b "[]" "snd (WriteBytes Buffer_Write b [])" _ rest] assms
  by auto

theorem WriteBytes_ReadBytes_roundtrip_witness:
  "ReadBytes Buffer_ReadFull (snd (WriteBytes Buffer_Write [1, 2, 3] []) @ [9]) = (Inr [1, 2, 3], [9])"
  using WriteBytes_ReadBytes_roundtrip [of "[1, 2, 3]" "[9]"] by simp

text \<open>No byte string that stops short of a whole encoding is accepted: cut a written slice
  anywhere before its end and \<open>ReadBytes\<close> reports an error.\<close>

theorem ReadBytes_truncated:
  assumes "length b < 2 ^ 32" and "k < 4 + length b"
  shows "\<exists>e. fst (ReadBytes Buffer_ReadFull (take k (snd (WriteBytes Buffer_Write b [])))) = Inl e"
proof (rule ccontr)
  let ?enc = "le_put 4 (word_of_nat (length b) :: 32 word) @ b"
  assume "\<not> ?thesis"
  then obtain c rest where "ReadBytes Buffer_ReadFull (take k ?enc) = (Inr c, rest)"
    by (cases "ReadBytes Buffer_ReadFull (take k ?enc)") (auto, metis sum.exhaust)
  then have c: "length c < 2 ^ 32" "take k ?enc = le_put 4 (word_of_nat (length c) :: 32 word) @ c @ rest"
    by (simp_all add: ReadBytes_buffer_iff)
  define tl where "tl = drop k ?enc"
  have "?enc = take k ?enc @ tl" by (simp only: tl_def append_take_drop_id)
  also have "\<dots> = le_put 4 (word_of_nat (length c) :: 32 word) @ (c @ rest @ tl)"
    by (simp only: c(2) append_assoc)
  finally have "le_put 4 (word_of_nat (length b) :: 32 word) = le_put 4 (word_of_nat (length c) :: 32 word)
      \<and> b = c @ rest @ tl" (is "?hdr \<and> ?body")
    by (rule append_eq_append_lengthD) (simp only: length_le_put)
  then have hdr: ?hdr and body: ?body by (rule conjunct1, rule conjunct2)
  from hdr have "word_of_nat (length b) = (word_of_nat (length c) :: 32 word)"
    by (simp add: le_put_inject)
  then have "length c = length b"
    using c(1) assms(1) by (simp add: word_of_nat_inject)
  with body have "tl = []" by simp
  then have "4 + length b \<le> k" by (auto simp: tl_def)
  with assms(2) show False by simp
qed

theorem ReadBytes_truncated_witness:
  "\<exists>e. fst (ReadBytes Buffer_ReadFull (take 6 (snd (WriteBytes Buffer_Write [7, 8, 9] [])))) = Inl e"
  using ReadBytes_truncated [of "[7, 8, 9]" 6] by simp

end
