(* ===== verification/Address.thy ===== *)
theory Address
  imports Wire
begin

text \<open>
  \<^verbatim>\<open>pkg/transport/host.go\<close>, \<^verbatim>\<open>address.go\<close> and \<^verbatim>\<open>layer.go\<close>: the \<^verbatim>\<open>Host\<close> identity,
  its wire form, its printed form and its equality with an \<^verbatim>\<open>Address\<close>, and the messages and
  events a transport layer hands to the session layer. A Go \<^verbatim>\<open>int\<close> is an \<^typ>\<open>int\<close>; the
  conversion to \<^verbatim>\<open>uint16\<close> keeps the low sixteen bits.
\<close>

record Host =
  Port :: int
  IP :: string

definition NewHost :: "int \<Rightarrow> string \<Rightarrow> Host" where
  "NewHost port ip = \<lparr>Port = port, IP = ip\<rparr>"

text \<open>The zero value \<^verbatim>\<open>Host{}\<close>.\<close>

definition zeroHost :: Host where
  "zeroHost = \<lparr>Port = 0, IP = ''''\<rparr>"

lemma Port_NewHost [simp]: "Port (NewHost p i) = p"
  and IP_NewHost [simp]: "IP (NewHost p i) = i"
  and Port_zeroHost [simp]: "Port zeroHost = 0"
  by (simp_all add: NewHost_def zeroHost_def)

lemma NewHost_inject [simp]: "NewHost p i = NewHost q j \<longleftrightarrow> p = q \<and> i = j"
  by (metis IP_NewHost Port_NewHost)

section \<open>Printing\<close>

text \<open>\<^verbatim>\<open>%d\<close>: the decimal digits, with a leading minus sign for a negative number.\<close>

fun digits :: "nat \<Rightarrow> string" where
  "digits n = (if n < 10 then [char_of (48 + n)] else digits (n div 10) @ [char_of (48 + n mod 10)])"

declare digits.simps [simp del]

definition format_d :: "int \<Rightarrow> string" where
  "format_d i = (if i < 0 then CHR ''-'' # digits (nat (- i)) else digits (nat i))"

definition Host_String :: "Host \<Rightarrow> string" where
  "Host_String h = IP h @ '':'' @ format_d (Port h)"

fun digits_val :: "string \<Rightarrow> nat" where
  "digits_val ds = fold (\<lambda>c acc. 10 * acc + (of_char c - 48)) ds 0"

lemma of_char_digit: "d < 10 \<Longrightarrow> (of_char (char_of (48 + d)) :: nat) = 48 + d"
  by simp

lemma digits_val_digits [simp]: "digits_val (digits n) = n"
proof (induction n rule: digits.induct)
  case (1 n)
  then show ?case by (cases "n < 10") (simp_all add: digits.simps [of n])
qed

lemma set_digits: "c \<in> set (digits n) \<Longrightarrow> \<exists>d<(10 :: nat). c = char_of (48 + d)"
proof (induction n rule: digits.induct)
  case (1 n)
  then show ?case
    by (cases "n < 10") (auto simp: digits.simps [of n] intro: exI [of _ "n mod 10"])
qed

lemma digit_not_sep:
  assumes "d < (10 :: nat)"
  shows "char_of (48 + d) \<noteq> CHR '':''" and "char_of (48 + d) \<noteq> CHR ''-''"
proof -
  have "of_char (char_of (48 + d)) \<noteq> (of_char CHR '':'' :: nat)"
    and "of_char (char_of (48 + d)) \<noteq> (of_char CHR ''-'' :: nat)"
    using assms by simp_all
  then show "char_of (48 + d) \<noteq> CHR '':''" and "char_of (48 + d) \<noteq> CHR ''-''"
    by metis+
qed

lemma digits_no_colon [simp]: "CHR '':'' \<notin> set (digits n)"
  and digits_no_minus [simp]: "CHR ''-'' \<notin> set (digits n)"
  using set_digits digit_not_sep by metis+

lemma digits_inject [simp]: "digits m = digits n \<longleftrightarrow> m = n"
  by (metis digits_val_digits)

lemma minus_Cons_neq_digits [simp]: "CHR ''-'' # s \<noteq> digits n" "digits n \<noteq> CHR ''-'' # s"
  using digits_no_minus [of n] by (metis list.set_intros(1))+

lemma format_d_inject [simp]: "format_d i = format_d j \<longleftrightarrow> i = j"
  by (auto simp: format_d_def)

lemma format_d_no_colon [simp]: "CHR '':'' \<notin> set (format_d i)"
  by (simp add: format_d_def)

text \<open>The text after the last separator is determined when the separator does not occur in it.\<close>

lemma append_sep_eq_iff:
  assumes "c \<notin> set x" and "c \<notin> set y"
  shows "a @ c # x = b @ c # y \<longleftrightarrow> a = b \<and> x = y"
proof
  assume eq: "a @ c # x = b @ c # y"
  have last: "takeWhile (\<lambda>d. d \<noteq> c) (rev (s @ c # z)) = rev z" if "c \<notin> set z" for s z
    using that by (subst rev_append, simp, subst takeWhile_append2) auto
  from arg_cong [OF eq, of "\<lambda>s. takeWhile (\<lambda>d. d \<noteq> c) (rev s)"]
  have "x = y" by (simp only: last [OF assms(1)] last [OF assms(2)] rev_is_rev_conv)
  with eq show "a = b \<and> x = y" by simp
qed simp

section \<open>Reading numbers\<close>

text \<open>\<^verbatim>\<open>strconv.Atoi\<close>: an optional sign and at least one decimal digit, within 64 bits.\<close>

definition ErrSyntax :: go_error where
  "ErrSyntax = Sentinel ''invalid syntax''"

definition ErrRange :: go_error where
  "ErrRange = Sentinel ''value out of range''"

definition is_digit :: "char \<Rightarrow> bool" where
  "is_digit c \<longleftrightarrow> 48 \<le> (of_char c :: nat) \<and> (of_char c :: nat) \<le> 57"

definition split_sign :: "string \<Rightarrow> bool \<times> string" where
  "split_sign s =
     (case s of
        [] \<Rightarrow> (False, [])
      | c # cs \<Rightarrow> if c = CHR ''-'' then (True, cs) else if c = CHR ''+'' then (False, cs) else (False, s))"

definition Atoi :: "string \<Rightarrow> int result" where
  "Atoi s =
     (case split_sign s of
        (neg, ds) \<Rightarrow>
          if ds = [] \<or> \<not> list_all is_digit ds then Inl (Errorf ''strconv.Atoi: parsing: %w'' [ErrSyntax])
          else let n = int (digits_val ds); v = (if neg then - n else n)
               in if - (2 ^ 63) \<le> v \<and> v < 2 ^ 63 then Inr v
                  else Inl (Errorf ''strconv.Atoi: parsing: %w'' [ErrRange]))"

lemma digits_not_Nil [simp]: "digits n \<noteq> []"
  by (subst digits.simps) simp

lemma digits_are_digits: "list_all is_digit (digits n)"
  by (auto simp: list_all_iff is_digit_def dest!: set_digits)

lemma digits_unsigned: "split_sign (digits n) = (False, digits n)"
proof (cases "digits n")
  case (Cons c cs)
  then have "c \<in> set (digits n)" by simp
  then have "is_digit c" using digits_are_digits [of n] by (simp add: list_all_iff)
  then have "c \<noteq> CHR ''-''" "c \<noteq> CHR ''+''" by (auto simp: is_digit_def)
  then show ?thesis by (simp add: Cons split_sign_def)
qed simp

lemma Atoi_format_d: "- (2 ^ 63) \<le> i \<Longrightarrow> i < 2 ^ 63 \<Longrightarrow> Atoi (format_d i) = Inr i"
  by (simp add: Atoi_def format_d_def digits_unsigned digits_are_digits Let_def del: digits_val.simps)
     (simp add: split_sign_def digits_are_digits del: digits_val.simps)

section \<open>Wire form\<close>

definition WriteHost :: "'w writer \<Rightarrow> Host \<Rightarrow> 'w \<Rightarrow> go_error option \<times> 'w" where
  "WriteHost wr h w =
     (if length (IP h) > 0xFFFF then (Some (Errorf ''WriteHost: host string too long: %d bytes'' []), w)
      else case WriteUint16 wr (word_of_nat (length (IP h))) w of
        (Some e, w1) \<Rightarrow> (Some e, w1)
      | (None, w1) \<Rightarrow>
          (case wr (bytes_of_string (IP h)) w1 of
             (Some e, w2) \<Rightarrow> (Some e, w2)
           | (None, w2) \<Rightarrow> WriteUint16 wr (word_of_int (Port h)) w2))"

definition ReadHost :: "'r reader \<Rightarrow> 'r \<Rightarrow> Host result \<times> 'r" where
  "ReadHost rd r =
     (case ReadUint16 rd r of
        (Inl e, r1) \<Rightarrow> (Inl e, r1)
      | (Inr hostLen, r1) \<Rightarrow>
          (case (if hostLen > 0 then
                   (case rd (unat hostLen) r1 of
                      (Inl e, r2) \<Rightarrow> (Inl (Errorf ''ReadHost: %w'' [e]), r2)
                    | (Inr buf, r2) \<Rightarrow> (Inr (string_of_bytes buf), r2))
                 else (Inr '''', r1)) of
             (Inl e, r2) \<Rightarrow> (Inl e, r2)
           | (Inr ip, r2) \<Rightarrow>
               (case ReadUint16 rd r2 of
                  (Inl e, r3) \<Rightarrow> (Inl e, r3)
                | (Inr port, r3) \<Rightarrow> (Inr (NewHost (int (unat port)) ip), r3))))"

lemma WriteHost_buffer:
  "length (IP h) \<le> 0xFFFF \<Longrightarrow>
   WriteHost Buffer_Write h w =
     (None, w @ le_put 2 (word_of_nat (length (IP h)) :: 16 word) @ bytes_of_string (IP h)
              @ le_put 2 (word_of_int (Port h) :: 16 word))"
  by (simp add: WriteHost_def Buffer_Write_def)

context byte_source
begin

lemma ReadHost_ok:
  assumes "length (IP h) \<le> 0xFFFF"
    and r: "remaining r = le_put 2 (word_of_nat (length (IP h)) :: 16 word) @ bytes_of_string (IP h)
              @ le_put 2 (p :: 16 word) @ rest"
  shows "\<exists>r'. ReadHost rd r = (Inr (NewHost (int (unat p)) (IP h)), r') \<and> remaining r' = rest"
proof -
  let ?n = "word_of_nat (length (IP h)) :: 16 word"
  have n: "unat ?n = length (IP h)"
    using assms(1) by (simp add: unat_of_nat take_bit_nat_eq_self_iff)
  from ReadUint16_ok [OF r] obtain r1 where r1: "ReadUint16 rd r = (Inr ?n, r1)"
    "remaining r1 = bytes_of_string (IP h) @ le_put 2 p @ rest" by blast
  show ?thesis
  proof (cases "IP h = ''''")
    case True
    with r1(2) ReadUint16_ok [of r1 p rest] r1(1) show ?thesis by (auto simp: ReadHost_def)
  next
    case False
    with n have "?n > 0" by (metis length_0_conv unat_0 word_gt_0)
    moreover from readfull_prefix [OF r1(2), of "unat ?n"] n obtain r2
      where "rd (unat ?n) r1 = (Inr (bytes_of_string (IP h)), r2)" "remaining r2 = le_put 2 p @ rest"
      by auto
    moreover from this(2) obtain r3 where "ReadUint16 rd r2 = (Inr p, r3)" "remaining r3 = rest"
      using ReadUint16_ok by blast
    ultimately show ?thesis using r1(1) by (simp add: ReadHost_def)
  qed
qed

end

lemma ReadHost_buffer [codec_simps]:
  "length (IP h) \<le> 0xFFFF \<Longrightarrow>
   ReadHost Buffer_ReadFull (le_put 2 (word_of_nat (length (IP h)) :: 16 word) @ bytes_of_string (IP h)
       @ le_put 2 (word_of_int (Port h) :: 16 word) @ rest)
     = (Inr (NewHost (Port h mod 2 ^ 16) (IP h)), rest)"
  using buf.ReadHost_ok [of h _ "word_of_int (Port h)" rest]
  by (auto simp: uint_word_of_int simp flip: uint_nat)

section \<open>Addresses\<close>

text \<open>An \<^verbatim>\<open>Address\<close> interface value: nil, a \<^verbatim>\<open>Host\<close>, a possibly nil \<^verbatim>\<open>*Host\<close>, or a value of
  another implementation.\<close>

datatype Address = NilAddress | HostValue Host | HostPointer "Host option" | OtherAddress string

definition Host_Equal :: "Host \<Rightarrow> Address \<Rightarrow> bool" where
  "Host_Equal h other =
     (case other of
        NilAddress \<Rightarrow> False
      | HostValue o' \<Rightarrow> h = o'
      | HostPointer hp \<Rightarrow> (case hp of None \<Rightarrow> False | Some o' \<Rightarrow> h = o')
      | OtherAddress _ \<Rightarrow> False)"

section \<open>Transport messages and events\<close>

record TMessage =
  tm_Host :: Host
  tm_Msg :: "byte list"

definition NewMessage :: "byte list \<Rightarrow> Host \<Rightarrow> TMessage" where
  "NewMessage msg host = \<lparr>tm_Host = host, tm_Msg = msg\<rparr>"

datatype Event = Connected Host | Disconnected Host | Failed Host

primrec Event_Host :: "Event \<Rightarrow> Host" where
  "Event_Host (Connected h) = h"
| "Event_Host (Disconnected h) = h"
| "Event_Host (Failed h) = h"

section \<open>Properties\<close>

text \<open>\<open>ReadHost\<close> inverts \<open>WriteHost\<close> for every host whose name has at most 65535 bytes, up to the
  truncation of the port to sixteen bits, and leaves the reader behind the host.\<close>

theorem WriteHost_ReadHost_roundtrip:
  assumes "length (IP h) \<le> 0xFFFF"
  shows "fst (WriteHost Buffer_Write h []) = None \<and>
         ReadHost Buffer_ReadFull (snd (WriteHost Buffer_Write h []) @ rest)
           = (Inr \<lparr>Port = Port h mod 2 ^ 16, IP = IP h\<rparr>, rest)"
  using assms by (simp add: WriteHost_buffer codec_simps NewHost_def)

theorem WriteHost_ReadHost_roundtrip_witness:
  "ReadHost Buffer_ReadFull (snd (WriteHost Buffer_Write (NewHost 5001 ''10.0.0.1'') []) @ [4])
     = (Inr (NewHost 5001 ''10.0.0.1''), [4])"
  using WriteHost_ReadHost_roundtrip [of "NewHost 5001 ''10.0.0.1''" "[4]"] by (simp add: NewHost_def)

text \<open>Two hosts print alike only when they are the same host, so the printed form can serve as a
  map key, as the \<open>Address\<close> interface asks.\<close>

theorem Host_String_injective: "Host_String g = Host_String h \<longleftrightarrow> g = h"
  by (auto simp: Host_String_def append_sep_eq_iff intro: Host.equality)

text \<open>\<open>Equal\<close> on hosts is an equivalence: it compares the host with the host the address denotes,
  by value or by pointer, and is false on nil and on foreign addresses.\<close>

theorem Host_Equal_equivalence:
  "Host_Equal g (HostValue g) \<and>
   (Host_Equal g (HostValue h) \<longleftrightarrow> Host_Equal h (HostValue g)) \<and>
   (Host_Equal f (HostValue g) \<and> Host_Equal g (HostValue h) \<longrightarrow> Host_Equal f (HostValue h)) \<and>
   (Host_Equal g (HostPointer (Some h)) \<longleftrightarrow> Host_Equal g (HostValue h)) \<and>
   \<not> Host_Equal g NilAddress \<and> \<not> Host_Equal g (HostPointer None) \<and> \<not> Host_Equal g (OtherAddress k)"
  by (auto simp: Host_Equal_def)

theorem Host_Equal_equivalence_witness:
  "Host_Equal (NewHost 1 ''a'') (HostValue (NewHost 1 ''a''))
   \<and> \<not> Host_Equal (NewHost 1 ''a'') (HostValue (NewHost 2 ''a''))"
  using Host_Equal_equivalence [of "NewHost 1 ''a''" "NewHost 2 ''a''" "NewHost 1 ''a''" "''x''"]
  by (simp add: Host_Equal_def)

end
