(* ===== verification/Handshake.thy ===== *)
theory Handshake
  imports Address
begin

text \<open>
  The wire side of \<^verbatim>\<open>pkg/transport/session.go\<close>: the layer byte that separates handshake from
  application traffic, and the Hello / Ack payloads with their version byte.
\<close>

section \<open>Session messages\<close>

text \<open>A \<^verbatim>\<open>LayerIdentifier\<close> read off the wire is any byte; 0 and 1 have names.\<close>

datatype LayerIdentifier = Application | Session | UnknownLayer byte

definition LayerIdentifier_of_byte :: "byte \<Rightarrow> LayerIdentifier" where
  "LayerIdentifier_of_byte b = (if b = 0 then Application else if b = 1 then Session else UnknownLayer b)"

primrec byte_of_LayerIdentifier :: "LayerIdentifier \<Rightarrow> byte" where
  "byte_of_LayerIdentifier Application = 0"
| "byte_of_LayerIdentifier Session = 1"
| "byte_of_LayerIdentifier (UnknownLayer b) = b"

record SessionMessage =
  sm_host :: Host
  sm_layer :: LayerIdentifier
  sm_Msg :: "byte list"

definition deserializeMessage :: "TMessage \<Rightarrow> SessionMessage" where
  "deserializeMessage msg =
     (case tm_Msg msg of
        [] \<Rightarrow> \<lparr>sm_host = tm_Host msg, sm_layer = Application, sm_Msg = []\<rparr>
      | header # buffer \<Rightarrow>
          \<lparr>sm_host = tm_Host msg, sm_layer = LayerIdentifier_of_byte header, sm_Msg = buffer\<rparr>)"

definition serializeMessage :: "SessionMessage \<Rightarrow> TMessage" where
  "serializeMessage msg =
     NewMessage ([byte_of_LayerIdentifier (sm_layer msg)] @ sm_Msg msg) (sm_host msg)"

section \<open>Handshake payloads\<close>

datatype HandshakeType = HandshakeHello | HandshakeAck

primrec byte_of_HandshakeType :: "HandshakeType \<Rightarrow> byte" where
  "byte_of_HandshakeType HandshakeHello = 1"
| "byte_of_HandshakeType HandshakeAck = 2"

definition ProtocolVersion :: byte where
  "ProtocolVersion = 1"

definition ErrVersionMismatch :: go_error where
  "ErrVersionMismatch = Sentinel ''session handshake: protocol version mismatch''"

definition encodeHello :: "Host \<Rightarrow> byte list result" where
  "encodeHello h =
     (case WriteHost Buffer_Write h [byte_of_HandshakeType HandshakeHello, ProtocolVersion] of
        (Some e, _) \<Rightarrow> Inl (Errorf ''encodeHello: %w'' [e])
      | (None, buf) \<Rightarrow> Inr buf)"

definition encodeAck :: "byte list" where
  "encodeAck = [byte_of_HandshakeType HandshakeAck]"

definition parseHandshakePayload :: "byte list \<Rightarrow> (HandshakeType \<times> Host) result" where
  "parseHandshakePayload buf =
     (case buf of
        [] \<Rightarrow> Inl (Errorf ''handshake payload empty'' [])
      | msgType # buf1 \<Rightarrow>
          if msgType = byte_of_HandshakeType HandshakeHello then
            (case buf1 of
               [] \<Rightarrow> Inl (Errorf ''HandshakeHello: read version: %w'' [io_EOF])
             | version # buf2 \<Rightarrow>
                 if version \<noteq> ProtocolVersion
                 then Inl (Errorf ''%w: got=%d expected=%d'' [ErrVersionMismatch])
                 else (case ReadHost Buffer_ReadFull buf2 of
                         (Inl e, _) \<Rightarrow> Inl (Errorf ''HandshakeHello: %w'' [e])
                       | (Inr host, _) \<Rightarrow> Inr (HandshakeHello, host)))
          else if msgType = byte_of_HandshakeType HandshakeAck then Inr (HandshakeAck, zeroHost)
          else Inl (Errorf ''unknown handshake type: %d'' []))"

section \<open>Facts\<close>

lemma LayerIdentifier_of_byte_inverse [simp]:
  "byte_of_LayerIdentifier (LayerIdentifier_of_byte b) = b"
  by (simp add: LayerIdentifier_of_byte_def)

lemma LayerIdentifier_named [simp]:
  "LayerIdentifier_of_byte 0 = Application" "LayerIdentifier_of_byte 1 = Session"
  by (simp_all add: LayerIdentifier_of_byte_def)

lemma deserialize_serialize [simp]:
  "sm_layer m \<in> {Application, Session} \<Longrightarrow> deserializeMessage (serializeMessage m) = m"
  by (cases m) (auto simp: deserializeMessage_def serializeMessage_def NewMessage_def)

text \<open>The host a Hello announces: the port is carried in sixteen bits.\<close>

definition announced :: "Host \<Rightarrow> Host" where
  "announced h = h\<lparr>Port := Port h mod 2 ^ 16\<rparr>"

lemma announced_NewHost: "NewHost (Port h mod 65536) (IP h) = announced h"
  by (cases h) (simp add: announced_def NewHost_def)

lemma announced_id [simp]: "0 \<le> Port h \<Longrightarrow> Port h < 2 ^ 16 \<Longrightarrow> announced h = h"
  by (cases h) (simp add: announced_def)

lemma encodeHello_ok:
  "length (IP h) \<le> 0xFFFF \<Longrightarrow> \<exists>body. encodeHello h = Inr (1 # ProtocolVersion # body)
     \<and> ReadHost Buffer_ReadFull body = (Inr (announced h), [])"
  using ReadHost_buffer [of h "[]"]
  by (simp add: encodeHello_def WriteHost_buffer announced_NewHost)

lemma encodeHello_too_long: "length (IP h) > 0xFFFF \<Longrightarrow> \<exists>e. encodeHello h = Inl e"
  by (simp add: encodeHello_def WriteHost_def)

lemma encodeHello_parse:
  "encodeHello h = Inr buf \<Longrightarrow> parseHandshakePayload buf = Inr (HandshakeHello, announced h)"
  using encodeHello_ok [of h] encodeHello_too_long [of h]
  by (cases "length (IP h) \<le> 0xFFFF") (auto simp: parseHandshakePayload_def)

lemma parse_Ack [simp]: "parseHandshakePayload encodeAck = Inr (HandshakeAck, zeroHost)"
  by (simp add: parseHandshakePayload_def encodeAck_def)

lemma errors_Is_ReadHost:
  "ReadHost Buffer_ReadFull buf = (Inl e, r) \<Longrightarrow> \<not> errors_Is e ErrVersionMismatch"
  by (auto simp: ReadHost_def ReadUint16_def Buffer_ReadFull_def ErrVersionMismatch_def
      split: if_splits)

lemma errors_Is_ErrVersionMismatch [simp]: "errors_Is ErrVersionMismatch ErrVersionMismatch"
  by (simp add: ErrVersionMismatch_def)

text \<open>The mismatch sentinel is reported for a Hello with a foreign version and for nothing else.\<close>

lemma parse_version_mismatch_iff:
  "(\<exists>e. parseHandshakePayload buf = Inl e \<and> errors_Is e ErrVersionMismatch)
   \<longleftrightarrow> (\<exists>v rest. buf = 1 # v # rest \<and> v \<noteq> ProtocolVersion)"
proof (cases buf)
  case Nil
  then show ?thesis by (simp add: parseHandshakePayload_def)
next
  case (Cons t buf1)
  show ?thesis
  proof (cases buf1)
    case Nil
    with Cons show ?thesis by (simp add: parseHandshakePayload_def ErrVersionMismatch_def)
  next
    case (Cons v rest)
    with \<open>buf = t # buf1\<close> show ?thesis
      by (auto simp: parseHandshakePayload_def dest: errors_Is_ReadHost split: prod.splits sum.splits)
  qed
qed

section \<open>Properties\<close>

text \<open>A Hello carries the sender's identity: whatever host can be encoded is what the receiver
  parses, up to the sixteen-bit port, and the encoder fails exactly for names over 65535 bytes.\<close>

theorem hello_roundtrip:
  "(case encodeHello h of
      Inr buf \<Rightarrow> length (IP h) \<le> 0xFFFF \<and>
                 parseHandshakePayload buf = Inr (HandshakeHello, h\<lparr>Port := Port h mod 2 ^ 16\<rparr>)
    | Inl e \<Rightarrow> length (IP h) > 0xFFFF)"
  using encodeHello_ok [of h] encodeHello_too_long [of h] encodeHello_parse [of h]
  by (cases "length (IP h) \<le> 0xFFFF") (auto simp: announced_def)

text \<open>The version gate is exact: a payload is refused with \<open>ErrVersionMismatch\<close> precisely when it
  is a Hello whose version byte differs from this build's.\<close>

theorem version_gate_exact:
  "(\<exists>e. parseHandshakePayload buf = Inl e \<and> errors_Is e ErrVersionMismatch)
   \<longleftrightarrow> (\<exists>v rest. buf = byte_of_HandshakeType HandshakeHello # v # rest \<and> v \<noteq> ProtocolVersion)"
  using parse_version_mismatch_iff [of buf] by simp

end
