(* ===== verification/Session.thy ===== *)
theory Session
  imports Handshake
begin

text \<open>
  The state machine of \<^verbatim>\<open>pkg/transport/session.go\<close>. \<^verbatim>\<open>SessionLayer\<close> is a record; the calls it
  makes on its transport are logged in order in \<open>transport\<close>, its two output channels are channels.
  Every method is a definition; \<open>handle_input\<close> is one turn of the \<^verbatim>\<open>handler\<close> loop, and
  \<open>session_step\<close> interleaves turns with cancellation and with the consumer of the events.
  A handler that waits for room in an output channel touches nothing shared meanwhile, so a turn is one
  atomic step that ends when the value is in.
\<close>

section \<open>State\<close>

datatype SessionState =
    SessionStateIdle | SessionStateHandshakingClient | SessionStateHandshakingServer
  | SessionStateEstablished | SessionStateFailed | SessionStateClosing

record sessionConn =
  logicalHost :: Host
  transportHost :: Host
  state :: SessionState
  lastErr :: "go_error option"

datatype SessionEvent =
    SessionDisconnected Host | SessionFailed Host | SessionConnected Host
  | SessionVersionMismatch Host byte

primrec SessionEvent_Host :: "SessionEvent \<Rightarrow> Host" where
  "SessionEvent_Host (SessionDisconnected h) = h"
| "SessionEvent_Host (SessionFailed h) = h"
| "SessionEvent_Host (SessionConnected h) = h"
| "SessionEvent_Host (SessionVersionMismatch h v) = h"

fun PeerVersion :: "SessionEvent \<Rightarrow> byte option" where
  "PeerVersion (SessionVersionMismatch h v) = Some v"
| "PeerVersion _ = None"

datatype transport_call = TConnect Host | TDisconnect Host | TSend TMessage Host

record SessionLayer =
  self :: Host
  sessions :: "Host \<rightharpoonup> sessionConn"
  transportToLogical :: "Host \<rightharpoonup> Host"
  logicalToTransport :: "Host \<rightharpoonup> Host"
  transport :: "transport_call list"
  outChannelEvents :: "SessionEvent chan"
  outMessages :: "SessionMessage chan"
  ctxDone :: bool
  preferDone :: bool

definition defaultSessionEventsBuffer :: int where "defaultSessionEventsBuffer = 16"
definition defaultSessionMessagesBuffer :: int where "defaultSessionMessagesBuffer = 16"

definition NewSessionLayer :: "Host \<Rightarrow> int \<Rightarrow> int \<Rightarrow> SessionLayer" where
  "NewSessionLayer me eventsBuf msgsBuf =
     (let eb = (if eventsBuf \<le> 0 then defaultSessionEventsBuffer else eventsBuf);
          mb = (if msgsBuf \<le> 0 then defaultSessionMessagesBuffer else msgsBuf)
      in \<lparr>self = me, sessions = Map.empty, transportToLogical = Map.empty,
          logicalToTransport = Map.empty, transport = [],
          outChannelEvents = make_chan (nat eb), outMessages = make_chan (nat mb),
          ctxDone = False, preferDone = False\<rparr>)"

definition session_Cancel :: "SessionLayer \<Rightarrow> SessionLayer" where
  "session_Cancel s = s\<lparr>ctxDone := True\<rparr>"

declare session_Cancel_def [simp]

section \<open>Host mappings and outputs\<close>

definition setServerMapping :: "Host \<Rightarrow> Host \<Rightarrow> SessionLayer \<Rightarrow> SessionLayer" where
  "setServerMapping t logical s =
     s\<lparr>transportToLogical := (transportToLogical s)(t \<mapsto> logical),
       logicalToTransport := (logicalToTransport s)(logical \<mapsto> t)\<rparr>"

definition cleanupServerMapping :: "Host \<Rightarrow> SessionLayer \<Rightarrow> SessionLayer" where
  "cleanupServerMapping h s =
     (case transportToLogical s h of
        Some logical \<Rightarrow>
          s\<lparr>transportToLogical := map_delete h (transportToLogical s),
            logicalToTransport := map_delete logical (logicalToTransport s)\<rparr>
      | None \<Rightarrow> s)"

definition resolveUnderlyingHost :: "SessionLayer \<Rightarrow> Host \<Rightarrow> Host" where
  "resolveUnderlyingHost s sendTo =
     (case logicalToTransport s sendTo of Some tHost \<Rightarrow> tHost | None \<Rightarrow> sendTo)"

definition mapToHost :: "SessionLayer \<Rightarrow> Host \<Rightarrow> Host" where
  "mapToHost s h = (case transportToLogical s h of Some logical \<Rightarrow> logical | None \<Rightarrow> h)"

definition transport_Connect :: "Host \<Rightarrow> SessionLayer \<Rightarrow> SessionLayer" where
  "transport_Connect h s = s\<lparr>transport := transport s @ [TConnect h]\<rparr>"

definition transport_Disconnect :: "Host \<Rightarrow> SessionLayer \<Rightarrow> SessionLayer" where
  "transport_Disconnect h s = s\<lparr>transport := transport s @ [TDisconnect h]\<rparr>"

definition transport_Send :: "TMessage \<Rightarrow> Host \<Rightarrow> SessionLayer \<Rightarrow> SessionLayer" where
  "transport_Send m h s = s\<lparr>transport := transport s @ [TSend m h]\<rparr>"

definition emitEvent :: "SessionEvent \<Rightarrow> SessionLayer \<Rightarrow> SessionLayer" where
  "emitEvent ev s =
     (if ctxDone s \<and> preferDone s then s
      else s\<lparr>outChannelEvents := chan_put ev (outChannelEvents s)\<rparr>)"

section \<open>The per-peer state machine\<close>

definition handleClientConnectRequested ::
    "sessionConn \<Rightarrow> SessionLayer \<Rightarrow> sessionConn \<times> SessionLayer" where
  "handleClientConnectRequested sc s =
     (if state sc \<in> {SessionStateIdle, SessionStateFailed, SessionStateClosing}
      then (sc\<lparr>state := SessionStateHandshakingClient\<rparr>, transport_Connect (transportHost sc) s)
      else (sc, s))"

definition handleConnected :: "sessionConn \<Rightarrow> SessionLayer \<Rightarrow> sessionConn \<times> SessionLayer" where
  "handleConnected sc s =
     (case state sc of
        SessionStateHandshakingClient \<Rightarrow>
          (case encodeHello (self s) of
             Inl err \<Rightarrow> (sc\<lparr>lastErr := Some err, state := SessionStateFailed\<rparr>,
                         emitEvent (SessionFailed (logicalHost sc)) s)
           | Inr helloPayload \<Rightarrow>
               let msg = serializeMessage
                           \<lparr>sm_host = transportHost sc, sm_layer = Session, sm_Msg = helloPayload\<rparr>;
                   s1 = transport_Send msg (transportHost sc) s;
                   s2 = setServerMapping (transportHost sc) (logicalHost sc) s1
               in (sc\<lparr>state := SessionStateEstablished\<rparr>,
                   emitEvent (SessionConnected (logicalHost sc)) s2))
      | _ \<Rightarrow> (sc, s))"

definition handleServerHandshake ::
    "HandshakeType \<Rightarrow> Host \<Rightarrow> sessionConn \<Rightarrow> SessionLayer \<Rightarrow> sessionConn \<times> SessionLayer" where
  "handleServerHandshake ht remote sc s =
     (case ht of
        HandshakeHello \<Rightarrow>
          let sc1 = sc\<lparr>logicalHost := remote\<rparr>;
              msg = serializeMessage
                      \<lparr>sm_host = transportHost sc1, sm_layer = Session, sm_Msg = encodeAck\<rparr>;
              s1 = transport_Send msg (transportHost sc1) s;
              s2 = setServerMapping (transportHost sc1) (logicalHost sc1) s1
          in (sc1\<lparr>state := SessionStateEstablished\<rparr>,
              emitEvent (SessionConnected (logicalHost sc1)) s2)
      | HandshakeAck \<Rightarrow> (sc, s))"

definition handleClientHandshake ::
    "HandshakeType \<Rightarrow> Host \<Rightarrow> sessionConn \<Rightarrow> SessionLayer \<Rightarrow> sessionConn \<times> SessionLayer" where
  "handleClientHandshake ht remote sc s =
     (case ht of HandshakeAck \<Rightarrow> (sc, s) | HandshakeHello \<Rightarrow> (sc, s))"

text \<open>On a version mismatch the event goes to the channel directly, not through \<open>emitEvent\<close>, with
  the zero value in its \<open>peerVersion\<close> field.\<close>

definition handleHandshakeMessage ::
    "SessionMessage \<Rightarrow> sessionConn \<Rightarrow> SessionLayer \<Rightarrow> sessionConn \<times> SessionLayer" where
  "handleHandshakeMessage msg sc s =
     (case parseHandshakePayload (sm_Msg msg) of
        Inl err \<Rightarrow>
          let sc1 = sc\<lparr>lastErr := Some err\<rparr>
          in if errors_Is err ErrVersionMismatch
             then (sc1, transport_Disconnect (transportHost sc1)
                     (s\<lparr>outChannelEvents :=
                        chan_put (SessionVersionMismatch (transportHost sc1) 0) (outChannelEvents s)\<rparr>))
             else (sc1, s)
      | Inr (ht, host) \<Rightarrow>
          (case state sc of
             SessionStateHandshakingServer \<Rightarrow> handleServerHandshake ht host sc s
           | SessionStateHandshakingClient \<Rightarrow> handleClientHandshake ht host sc s
           | _ \<Rightarrow> (sc, s)))"

definition handleDisconnected :: "sessionConn \<Rightarrow> SessionLayer \<Rightarrow> sessionConn \<times> SessionLayer" where
  "handleDisconnected sc s =
     (if state sc \<in> {SessionStateEstablished, SessionStateHandshakingClient, SessionStateHandshakingServer}
      then let logical = mapToHost s (transportHost sc);
               s1 = cleanupServerMapping (transportHost sc) s
           in (sc\<lparr>state := SessionStateClosing\<rparr>, emitEvent (SessionDisconnected logical) s1)
      else (sc\<lparr>state := SessionStateFailed\<rparr>, s))"

definition handleFailed :: "sessionConn \<Rightarrow> SessionLayer \<Rightarrow> sessionConn \<times> SessionLayer" where
  "handleFailed sc s =
     (let logical = mapToHost s (transportHost sc);
          s1 = cleanupServerMapping (transportHost sc) s
      in (sc\<lparr>state := SessionStateFailed\<rparr>, emitEvent (SessionFailed logical) s1))"

section \<open>Dispatch\<close>

text \<open>The function argument works on the \<^verbatim>\<open>*sessionConn\<close> the map holds; the updated value is the
  one the map holds afterwards.\<close>

definition lookup_session :: "Host \<Rightarrow> Host \<Rightarrow> SessionLayer \<Rightarrow> sessionConn" where
  "lookup_session tHost lHost s =
     (case sessions s tHost of
        None \<Rightarrow> \<lparr>logicalHost = lHost, transportHost = tHost, state = SessionStateIdle, lastErr = None\<rparr>
      | Some sc \<Rightarrow> if Port lHost \<noteq> 0 then sc\<lparr>logicalHost := lHost\<rparr> else sc)"

definition withSession :: "Host \<Rightarrow> Host \<Rightarrow> (sessionConn \<Rightarrow> SessionLayer \<Rightarrow> sessionConn \<times> SessionLayer)
    \<Rightarrow> SessionLayer \<Rightarrow> SessionLayer" where
  "withSession tHost lHost fn s =
     (case fn (lookup_session tHost lHost s) s of
        (sc, s') \<Rightarrow> s'\<lparr>sessions := (sessions s')(tHost \<mapsto> sc)\<rparr>)"

definition mark_server :: "sessionConn \<Rightarrow> sessionConn" where
  "mark_server sc =
     (if state sc = SessionStateIdle then sc\<lparr>state := SessionStateHandshakingServer\<rparr> else sc)"

definition dispatchHandshakeMessage :: "Host \<Rightarrow> SessionMessage \<Rightarrow> SessionLayer \<Rightarrow> SessionLayer" where
  "dispatchHandshakeMessage tHost msg =
     withSession tHost zeroHost (\<lambda>sc. handleHandshakeMessage msg (mark_server sc))"

definition dispatchConnected :: "Host \<Rightarrow> SessionLayer \<Rightarrow> SessionLayer" where
  "dispatchConnected tHost = withSession tHost zeroHost (\<lambda>sc. handleConnected (mark_server sc))"

definition dispatchDisconnected :: "Host \<Rightarrow> SessionLayer \<Rightarrow> SessionLayer" where
  "dispatchDisconnected tHost = withSession tHost zeroHost handleDisconnected"

definition dispatchFailed :: "Host \<Rightarrow> SessionLayer \<Rightarrow> SessionLayer" where
  "dispatchFailed tHost = withSession tHost zeroHost handleFailed"

definition connectClient :: "Host \<Rightarrow> SessionLayer \<Rightarrow> SessionLayer" where
  "connectClient h = withSession h h handleClientConnectRequested"

definition session_disconnect :: "Host \<Rightarrow> SessionLayer \<Rightarrow> SessionLayer" where
  "session_disconnect h s = cleanupServerMapping h (transport_Disconnect h s)"

definition session_send :: "byte list \<Rightarrow> Host \<Rightarrow> SessionLayer \<Rightarrow> SessionLayer" where
  "session_send msg sendTo s =
     (let sessionMsg = \<lparr>sm_host = sendTo, sm_layer = Application, sm_Msg = msg\<rparr>;
          underlyingHost = resolveUnderlyingHost s sendTo
      in transport_Send (serializeMessage sessionMsg) underlyingHost s)"

definition transportMessageHandler :: "TMessage \<Rightarrow> SessionLayer \<Rightarrow> SessionLayer" where
  "transportMessageHandler msg s =
     (let sessionMsg = deserializeMessage msg in
      case sm_layer sessionMsg of
        Application \<Rightarrow>
          if ctxDone s \<and> preferDone s then s
          else s\<lparr>outMessages := chan_put sessionMsg (outMessages s)\<rparr>
      | Session \<Rightarrow> dispatchHandshakeMessage (tm_Host msg) sessionMsg s
      | UnknownLayer b \<Rightarrow> s)"

primrec transportEventHandler :: "Event \<Rightarrow> SessionLayer \<Rightarrow> SessionLayer" where
  "transportEventHandler (Connected h) s = dispatchConnected h s"
| "transportEventHandler (Disconnected h) s = dispatchDisconnected h s"
| "transportEventHandler (Failed h) s = dispatchFailed h s"

text \<open>What the \<^verbatim>\<open>select\<close> of the handler loop receives, and one turn of the loop.\<close>

datatype session_input =
    FromTransport TMessage | TransportEvent Event | ConnectReq Host | DisconnectReq Host
  | SendReq "byte list" Host

primrec handle_input :: "session_input \<Rightarrow> SessionLayer \<Rightarrow> SessionLayer" where
  "handle_input (FromTransport msg) s = transportMessageHandler msg s"
| "handle_input (TransportEvent ev) s = transportEventHandler ev s"
| "handle_input (ConnectReq h) s = connectClient h s"
| "handle_input (DisconnectReq h) s = session_disconnect h s"
| "handle_input (SendReq msg h) s = session_send msg h s"

definition handle_inputs :: "session_input list \<Rightarrow> SessionLayer \<Rightarrow> SessionLayer" where
  "handle_inputs is s = fold handle_input is s"

lemmas session_defs [go_defs] =
  handleClientConnectRequested_def handleConnected_def handleServerHandshake_def
  handleClientHandshake_def handleHandshakeMessage_def handleDisconnected_def handleFailed_def
  dispatchHandshakeMessage_def dispatchConnected_def dispatchDisconnected_def dispatchFailed_def
  connectClient_def session_disconnect_def session_send_def transportMessageHandler_def
  transport_Connect_def transport_Disconnect_def transport_Send_def mark_server_def

section \<open>Frame facts\<close>

definition emitted :: "SessionLayer \<Rightarrow> SessionLayer \<Rightarrow> SessionEvent list" where
  "emitted s s' = drop (length (chan_buf (outChannelEvents s))) (chan_buf (outChannelEvents s'))"

lemma emitEvent_frame [simp]:
  "sessions (emitEvent ev s) = sessions s" "transportToLogical (emitEvent ev s) = transportToLogical s"
  "logicalToTransport (emitEvent ev s) = logicalToTransport s" "self (emitEvent ev s) = self s"
  "transport (emitEvent ev s) = transport s" "ctxDone (emitEvent ev s) = ctxDone s"
  "outMessages (emitEvent ev s) = outMessages s"
  by (simp_all add: emitEvent_def)

lemma cleanupServerMapping_frame [simp]:
  "sessions (cleanupServerMapping h s) = sessions s" "self (cleanupServerMapping h s) = self s"
  "transport (cleanupServerMapping h s) = transport s" "ctxDone (cleanupServerMapping h s) = ctxDone s"
  "preferDone (cleanupServerMapping h s) = preferDone s"
  "outChannelEvents (cleanupServerMapping h s) = outChannelEvents s"
  "outMessages (cleanupServerMapping h s) = outMessages s"
  "transportToLogical (cleanupServerMapping h s) = map_delete h (transportToLogical s)"
  by (auto simp: cleanupServerMapping_def split: option.splits)

lemma setServerMapping_frame [simp]:
  "sessions (setServerMapping t l s) = sessions s" "self (setServerMapping t l s) = self s"
  "transport (setServerMapping t l s) = transport s" "ctxDone (setServerMapping t l s) = ctxDone s"
  "preferDone (setServerMapping t l s) = preferDone s"
  "outChannelEvents (setServerMapping t l s) = outChannelEvents s"
  "transportToLogical (setServerMapping t l s) = (transportToLogical s)(t \<mapsto> l)"
  "logicalToTransport (setServerMapping t l s) = (logicalToTransport s)(l \<mapsto> t)"
  by (simp_all add: setServerMapping_def)

section \<open>The contract of a session operation\<close>

text \<open>The reverse map never points to a connection that is mapped elsewhere.\<close>

definition maps_agree :: "SessionLayer \<Rightarrow> bool" where
  "maps_agree s \<longleftrightarrow> (\<forall>l t. logicalToTransport s l = Some t \<longrightarrow> transportToLogical s t = Some l)"

definition conn_ok :: "sessionConn \<Rightarrow> SessionLayer \<Rightarrow> bool" where
  "conn_ok sc s \<longleftrightarrow> maps_agree s \<and>
     (transportToLogical s (transportHost sc) \<noteq> None \<longrightarrow> state sc = SessionStateEstablished)"

definition session_inv :: "SessionLayer \<Rightarrow> bool" where
  "session_inv s \<longleftrightarrow> maps_agree s \<and>
     (\<forall>t sc. sessions s t = Some sc \<longrightarrow> transportHost sc = t) \<and>
     (\<forall>t l. transportToLogical s t = Some l \<longrightarrow>
        (\<exists>sc. sessions s t = Some sc \<and> state sc = SessionStateEstablished))"

lemma session_inv_mapped:
  "session_inv s \<Longrightarrow> transportToLogical s t = Some l \<Longrightarrow>
   \<exists>sc. sessions s t = Some sc \<and> transportHost sc = t \<and> state sc = SessionStateEstablished"
  unfolding session_inv_def by metis

lemma session_inv_route:
  "session_inv s \<Longrightarrow> logicalToTransport s l = Some t \<Longrightarrow> transportToLogical s t = Some l"
  unfolding session_inv_def maps_agree_def by blast

lemma maps_agree_cleanup: "maps_agree s \<Longrightarrow> maps_agree (cleanupServerMapping h s)"
  unfolding maps_agree_def cleanupServerMapping_def by (auto split: option.splits)

lemma maps_agree_set:
  "maps_agree s \<Longrightarrow> transportToLogical s t = None \<Longrightarrow> maps_agree (setServerMapping t l s)"
  unfolding maps_agree_def by auto

lemma maps_agree_emit [simp]: "maps_agree (emitEvent ev s) = maps_agree s"
  by (simp add: maps_agree_def)

text \<open>The lifecycle a session promises its observer, with the handshake details forgotten.\<close>

datatype phase = Down | Opening | Up

primrec phase_of :: "SessionState \<Rightarrow> phase" where
  "phase_of SessionStateIdle = Down"
| "phase_of SessionStateHandshakingClient = Opening"
| "phase_of SessionStateHandshakingServer = Opening"
| "phase_of SessionStateEstablished = Up"
| "phase_of SessionStateFailed = Down"
| "phase_of SessionStateClosing = Down"

fun lifecycle :: "phase \<Rightarrow> SessionEvent list \<Rightarrow> phase \<Rightarrow> bool" where
  "lifecycle p [] q = (p = q \<or> p = Down \<and> q = Opening)"
| "lifecycle p [SessionConnected h] q = (p \<noteq> Up \<and> q = Up)"
| "lifecycle p [SessionDisconnected h] q = (p \<noteq> Down \<and> q = Down)"
| "lifecycle p [SessionFailed h] q = (q = Down)"
| "lifecycle p [SessionVersionMismatch h v] q = (p = q \<or> p = Down \<and> q = Opening)"
| "lifecycle p (e # f # es) q = False"

definition live :: "SessionLayer \<Rightarrow> bool" where
  "live s \<longleftrightarrow> \<not> (ctxDone s \<and> preferDone s)"

lemma emitted_emitEvent [simp]: "live s \<Longrightarrow> emitted r (emitEvent ev s) =
    (if outChannelEvents r = outChannelEvents s then [ev] else emitted r (emitEvent ev s))"
  by (auto simp: emitted_def emitEvent_def live_def)

lemma emitted_same [simp]: "outChannelEvents s' = outChannelEvents s \<Longrightarrow> emitted s s' = []"
  by (simp add: emitted_def)

definition phase_at :: "SessionLayer \<Rightarrow> Host \<Rightarrow> phase" where
  "phase_at s t = (case sessions s t of None \<Rightarrow> Down | Some sc \<Rightarrow> phase_of (state sc))"

lemma phase_of_lookup_session [simp]: "phase_of (state (lookup_session t l s)) = phase_at s t"
  by (simp add: lookup_session_def phase_at_def split: option.splits)

lemma phase_at_outMessages [simp]: "phase_at (s\<lparr>outMessages := c\<rparr>) t = phase_at s t"
  by (simp add: phase_at_def)

locale session_operation =
  fixes fn :: "sessionConn \<Rightarrow> SessionLayer \<Rightarrow> sessionConn \<times> SessionLayer"
  assumes keeps_host: "fn sc s = (sc', s') \<Longrightarrow> transportHost sc' = transportHost sc"
    and keeps_sessions: "fn sc s = (sc', s') \<Longrightarrow> sessions s' = sessions s"
    and keeps_others: "fn sc s = (sc', s') \<Longrightarrow> u \<noteq> transportHost sc \<Longrightarrow>
          transportToLogical s' u = transportToLogical s u"
    and keeps_ok: "fn sc s = (sc', s') \<Longrightarrow> conn_ok sc s \<Longrightarrow> conn_ok sc' s'"
    and follows_lifecycle: "fn sc s = (sc', s') \<Longrightarrow> live s \<Longrightarrow>
          lifecycle (phase_of (state sc)) (emitted s s') (phase_of (state sc'))"
begin

lemma withSession_inv:
  assumes inv: "session_inv s"
  shows "session_inv (withSession t l fn s)"
proof -
  let ?sc = "lookup_session t l s"
  obtain sc' s' where fn: "fn ?sc s = (sc', s')" by (cases "fn ?sc s")
  from inv have t: "transportHost ?sc = t"
    by (auto simp: session_inv_def lookup_session_def split: option.splits)
  from inv have "conn_ok ?sc s"
    by (fastforce simp: session_inv_def conn_ok_def lookup_session_def split: option.splits)
  then have ok: "conn_ok sc' s'" by (rule keeps_ok [OF fn])
  show ?thesis
    using inv ok keeps_host [OF fn] keeps_sessions [OF fn] keeps_others [OF fn] t
    by (auto simp: withSession_def fn session_inv_def conn_ok_def maps_agree_def)
qed

lemma withSession_lifecycle:
  assumes "live s"
  shows "lifecycle (phase_at s t) (emitted s (withSession t l fn s)) (phase_at (withSession t l fn s) t)"
proof -
  obtain sc' s' where fn: "fn (lookup_session t l s) s = (sc', s')"
    by (cases "fn (lookup_session t l s) s")
  from follows_lifecycle [OF this assms] show ?thesis
    by (simp add: withSession_def fn emitted_def phase_at_def [of "s'\<lparr>sessions := _\<rparr>"])
qed

lemma withSession_other:
  "u \<noteq> t \<Longrightarrow> sessions (withSession t l fn s) u = sessions s u"
  using keeps_sessions by (auto simp: withSession_def split: prod.splits)

end

text \<open>The handlers of the state machine meet the contract.\<close>

interpretation connect_op: session_operation handleClientConnectRequested
  by unfold_locales
     (auto simp: session_defs conn_ok_def maps_agree_def split: if_splits)

interpretation connected_op: session_operation "\<lambda>sc. handleConnected (mark_server sc)"
proof (unfold_locales, goal_cases)
  case (4 sc s sc' s')
  then show ?case
    by (auto simp: session_defs Let_def conn_ok_def maps_agree_def
        split: SessionState.splits sum.splits if_splits)
next
  case (5 sc s sc' s')
  then show ?case
    by (auto simp: session_defs Let_def live_def emitted_def emitEvent_def
        split: SessionState.splits sum.splits if_splits)
qed (auto simp: session_defs Let_def split: SessionState.splits sum.splits if_splits)

interpretation disconnected_op: session_operation handleDisconnected
proof (unfold_locales, goal_cases)
  case (4 sc s sc' s')
  then show ?case
    by (auto simp: session_defs Let_def conn_ok_def maps_agree_cleanup split: if_splits)
next
  case (5 sc s sc' s')
  then show ?case
    by (cases "state sc") (auto simp: session_defs Let_def live_def emitted_def emitEvent_def)
qed (auto simp: session_defs Let_def split: if_splits)

interpretation failed_op: session_operation handleFailed
proof (unfold_locales, goal_cases)
  case (4 sc s sc' s')
  then show ?case by (auto simp: session_defs Let_def conn_ok_def maps_agree_cleanup)
next
  case (5 sc s sc' s')
  then show ?case by (auto simp: session_defs Let_def live_def emitted_def emitEvent_def)
qed (auto simp: session_defs Let_def)

interpretation handshake_op: session_operation "\<lambda>sc. handleHandshakeMessage msg (mark_server sc)" for msg
proof (unfold_locales, goal_cases)
  case (4 sc s sc' s')
  then show ?case
    by (auto simp: session_defs Let_def conn_ok_def maps_agree_def
        split: SessionState.splits HandshakeType.splits sum.splits if_splits)
next
  case (5 sc s sc' s')
  then show ?case
    by (auto simp: session_defs Let_def live_def emitted_def emitEvent_def
        split: SessionState.splits HandshakeType.splits sum.splits if_splits)
qed (auto simp: session_defs Let_def split: SessionState.splits HandshakeType.splits sum.splits if_splits)

section \<open>One turn of the loop\<close>

lemma session_disconnect_inv: "session_inv s \<Longrightarrow> session_inv (session_disconnect h s)"
proof -
  assume inv: "session_inv s"
  then have "maps_agree (transport_Disconnect h s)"
    by (simp add: session_inv_def maps_agree_def transport_Disconnect_def)
  from maps_agree_cleanup [OF this, of h] inv show ?thesis
    by (simp add: session_inv_def session_disconnect_def transport_Disconnect_def)
qed

lemma session_send_frame [simp]:
  "sessions (session_send m h s) = sessions s" "maps_agree (session_send m h s) = maps_agree s"
  "transportToLogical (session_send m h s) = transportToLogical s"
  "outChannelEvents (session_send m h s) = outChannelEvents s"
  by (simp_all add: session_send_def transport_Send_def Let_def maps_agree_def)

lemma outMessages_frame [simp]: "session_inv (s\<lparr>outMessages := c\<rparr>) = session_inv s"
  by (simp add: session_inv_def maps_agree_def)

lemma handle_input_inv: "session_inv s \<Longrightarrow> session_inv (handle_input i s)"
proof (cases i)
  case (FromTransport msg)
  assume "session_inv s"
  with FromTransport show ?thesis
    by (simp add: transportMessageHandler_def Let_def dispatchHandshakeMessage_def
        handshake_op.withSession_inv split: LayerIdentifier.splits)
next
  case (TransportEvent ev)
  assume "session_inv s"
  with TransportEvent show ?thesis
    by (cases ev) (simp_all add: dispatchConnected_def dispatchDisconnected_def dispatchFailed_def
        connected_op.withSession_inv disconnected_op.withSession_inv failed_op.withSession_inv)
next
  case (ConnectReq h)
  assume "session_inv s"
  with ConnectReq show ?thesis by (simp add: connectClient_def connect_op.withSession_inv)
next
  case (DisconnectReq h)
  assume "session_inv s"
  with DisconnectReq show ?thesis by (simp add: session_disconnect_inv)
next
  case (SendReq m h)
  assume "session_inv s"
  with SendReq show ?thesis by (simp add: session_inv_def)
qed

text \<open>The interleaving: a turn of the loop, the scheduler's preference for later selects, cancellation,
  and the runtime receiving from the output channels.\<close>

inductive session_step :: "SessionLayer \<Rightarrow> SessionLayer \<Rightarrow> bool" where
  turn: "session_step s (handle_input i s)"
| schedule: "session_step s (s\<lparr>preferDone := b\<rparr>)"
| cancel: "session_step s (session_Cancel s)"
| recv_event: "chan_buf (outChannelEvents s) = ev # evs \<Longrightarrow>
     session_step s (s\<lparr>outChannelEvents := (outChannelEvents s)\<lparr>chan_buf := evs\<rparr>\<rparr>)"
| recv_message: "chan_buf (outMessages s) = m # ms \<Longrightarrow>
     session_step s (s\<lparr>outMessages := (outMessages s)\<lparr>chan_buf := ms\<rparr>\<rparr>)"

lemma session_step_inv: "session_step s s' \<Longrightarrow> session_inv s \<Longrightarrow> session_inv s'"
proof (induction rule: session_step.induct)
  case (turn s i)
  then show ?case by (rule handle_input_inv)
qed (simp_all add: session_inv_def maps_agree_def)

lemma session_inv_init: "session_inv (NewSessionLayer me eb mb)"
  by (simp add: session_inv_def maps_agree_def NewSessionLayer_def Let_def)

lemma session_inv_reachable: "session_step\<^sup>*\<^sup>* (NewSessionLayer me eb mb) s \<Longrightarrow> session_inv s"
  by (induction rule: rtranclp_induct) (auto intro: session_inv_init session_step_inv)

text \<open>The session a turn works on.\<close>

primrec input_key :: "session_input \<Rightarrow> Host option" where
  "input_key (FromTransport msg) = Some (tm_Host msg)"
| "input_key (TransportEvent ev) = Some (Event_Host ev)"
| "input_key (ConnectReq h) = Some h"
| "input_key (DisconnectReq h) = None"
| "input_key (SendReq m h) = None"

lemmas lifecycle_facts =
  connect_op.withSession_lifecycle connected_op.withSession_lifecycle
  disconnected_op.withSession_lifecycle failed_op.withSession_lifecycle
  handshake_op.withSession_lifecycle

lemmas other_session_facts =
  connect_op.withSession_other connected_op.withSession_other
  disconnected_op.withSession_other failed_op.withSession_other
  handshake_op.withSession_other

lemmas dispatch_defs =
  dispatchHandshakeMessage_def dispatchConnected_def dispatchDisconnected_def dispatchFailed_def
  connectClient_def

lemma handle_input_lifecycle:
  assumes "live s" and "input_key i = Some t"
  shows "lifecycle (phase_at s t) (emitted s (handle_input i s)) (phase_at (handle_input i s) t)"
proof (cases i)
  case (FromTransport msg)
  with assms show ?thesis
    by (auto simp: transportMessageHandler_def Let_def dispatch_defs intro: handshake_op.withSession_lifecycle split: LayerIdentifier.splits)
next
  case (TransportEvent ev)
  with assms show ?thesis by (cases ev) (auto simp: dispatch_defs intro: lifecycle_facts)
qed (use assms in \<open>auto simp: dispatch_defs intro: lifecycle_facts\<close>)

lemma handle_input_other:
  assumes "input_key i \<noteq> Some u"
  shows "sessions (handle_input i s) u = sessions s u"
proof (cases i)
  case (FromTransport msg)
  with assms show ?thesis
    by (auto simp: transportMessageHandler_def Let_def dispatch_defs handshake_op.withSession_other
        split: LayerIdentifier.splits)
next
  case (TransportEvent ev)
  with assms show ?thesis by (cases ev) (auto simp: dispatch_defs other_session_facts)
qed (use assms in \<open>auto simp: dispatch_defs other_session_facts session_disconnect_def transport_Disconnect_def\<close>)

section \<open>Scenarios\<close>

text \<open>A client that dials and is accepted has announced itself and routes the peer to its own
  connection.\<close>

lemma client_opens:
  assumes "sessions c srv = None" and "encodeHello (self c) = Inr hello" and "live c"
  defines "c' \<equiv> handle_inputs [ConnectReq srv, TransportEvent (Connected srv)] c"
  shows "transport c' = transport c @ [TConnect srv, TSend (NewMessage (1 # hello) srv) srv]"
    and "emitted c c' = [SessionConnected srv]"
    and "phase_at c' srv = Up" and "logicalToTransport c' srv = Some srv"
  using assms
  by (auto simp: handle_inputs_def session_defs withSession_def lookup_session_def Let_def phase_at_def
      serializeMessage_def emitted_def emitEvent_def live_def)

text \<open>A server that sees the connection and its Hello, in whichever order the two channels deliver
  them, binds the connection to the announced host.\<close>

lemma server_binds:
  assumes "sessions s e = None" and "parseHandshakePayload hello = Inr (HandshakeHello, peer)" and "live s"
    and "is \<in> {[TransportEvent (Connected e), FromTransport (NewMessage (1 # hello) e)],
              [FromTransport (NewMessage (1 # hello) e), TransportEvent (Connected e)]}"
  defines "s' \<equiv> handle_inputs is s"
  shows "transport s' = transport s @ [TSend (NewMessage (1 # encodeAck) e) e]"
    and "emitted s s' = [SessionConnected peer]"
    and "phase_at s' e = Up"
    and "mapToHost s' e = peer" and "resolveUnderlyingHost s' peer = e"
  using assms
  by (auto simp: handle_inputs_def session_defs withSession_def lookup_session_def Let_def phase_at_def
      serializeMessage_def deserializeMessage_def NewMessage_def emitted_def emitEvent_def live_def
      mapToHost_def resolveUnderlyingHost_def)

text \<open>Closed and failed sessions react to the transport without coming back.\<close>

lemma closed_stays_closed:
  assumes "sessions s t = Some sc" and "state sc \<in> {SessionStateClosing, SessionStateFailed}"
    and "ConnectReq t \<notin> set is" and "is = [i] @ js"
  shows "\<exists>sc'. sessions (handle_input i s) t = Some sc' \<and>
              state sc' \<in> {SessionStateClosing, SessionStateFailed}"
proof (cases "input_key i = Some t")
  case False
  with assms(1,2) show ?thesis by (simp add: handle_input_other)
next
  case True
  show ?thesis
  proof (cases i)
    case (FromTransport msg)
    with True assms(1,2) show ?thesis
      by (auto simp: session_defs Let_def withSession_def lookup_session_def
          split: LayerIdentifier.splits sum.splits)
  next
    case (TransportEvent ev)
    with True assms(1,2) show ?thesis
      by (cases ev) (auto simp: session_defs Let_def withSession_def lookup_session_def)
  qed (use True assms(3,4) in auto)
qed

lemma handle_inputs_reachable: "session_step\<^sup>*\<^sup>* s (handle_inputs is s)"
proof (induction "is" arbitrary: s)
  case (Cons i "is")
  have "session_step s (handle_input i s)" by (rule session_step.turn)
  then show ?case using Cons.IH [of "handle_input i s"] by (simp add: handle_inputs_def)
qed (simp add: handle_inputs_def)

text \<open>A layer with given bindings, all of them established.\<close>

definition layer_with :: "(Host \<rightharpoonup> Host) \<Rightarrow> (Host \<rightharpoonup> Host) \<Rightarrow> SessionLayer" where
  "layer_with t2l l2t = (NewSessionLayer (NewHost 7 ''me'') 0 0)
     \<lparr>sessions := (\<lambda>t. map_option (\<lambda>l. \<lparr>logicalHost = l, transportHost = t,
                        state = SessionStateEstablished, lastErr = None\<rparr>) (t2l t)),
      transportToLogical := t2l, logicalToTransport := l2t\<rparr>"

lemma layer_with_inv:
  "(\<And>l t. l2t l = Some t \<Longrightarrow> t2l t = Some l) \<Longrightarrow> session_inv (layer_with t2l l2t)"
  by (auto simp: layer_with_def session_inv_def maps_agree_def)

lemma layer_with_sel [simp]:
  "live (layer_with t2l l2t)" "transportToLogical (layer_with t2l l2t) = t2l"
  "logicalToTransport (layer_with t2l l2t) = l2t"
  by (simp_all add: layer_with_def live_def NewSessionLayer_def Let_def)

lemma NewSessionLayer_sel [simp]:
  "live (NewSessionLayer me a b)" "sessions (NewSessionLayer me a b) = Map.empty"
  "self (NewSessionLayer me a b) = me"
  by (simp_all add: live_def NewSessionLayer_def Let_def)

section \<open>Properties\<close>

text \<open>C7. In every state the session layer can reach, routing is coherent: the connection a logical
  host resolves to is an established session, and its events are reported under that same host.\<close>

theorem session_routing_coherent:
  assumes "session_step\<^sup>*\<^sup>* (NewSessionLayer me eb mb) s" and "logicalToTransport s l = Some t"
  shows "resolveUnderlyingHost s l = t \<and> mapToHost s t = l \<and>
         (\<exists>sc. sessions s t = Some sc \<and> transportHost sc = t \<and> state sc = SessionStateEstablished)"
proof -
  from assms(1) have inv: "session_inv s" by (rule session_inv_reachable)
  then have t: "transportToLogical s t = Some l" using assms(2) by (rule session_inv_route)
  from session_inv_mapped [OF inv t] t assms(2) show ?thesis
    by (simp add: resolveUnderlyingHost_def mapToHost_def)
qed

theorem session_routing_coherent_witness:
  "let b = NewHost 2 ''b'';
       s = handle_inputs [ConnectReq b, TransportEvent (Connected b)] (NewSessionLayer (NewHost 1 ''a'') 0 0)
   in resolveUnderlyingHost s b = b \<and> mapToHost s b = b"
proof -
  let ?a = "NewHost 1 ''a''" and ?b = "NewHost 2 ''b''"
  obtain hello where "encodeHello ?a = Inr hello" using encodeHello_ok [of ?a] by auto
  then have "logicalToTransport (handle_inputs [ConnectReq ?b, TransportEvent (Connected ?b)]
      (NewSessionLayer ?a 0 0)) ?b = Some ?b"
    by (intro client_opens(4)) simp_all
  from session_routing_coherent [OF handle_inputs_reachable this] show ?thesis by (simp add: Let_def)
qed

text \<open>C8. Each session follows the lifecycle its observers rely on: a turn emits at most one event
  for the session it works on, \<open>SessionConnected\<close> only when a session that was not up comes up,
  \<open>SessionDisconnected\<close> only when one that was opening or up goes down, and it leaves every other
  session as it was.\<close>

theorem session_refines_lifecycle:
  assumes "live s" and "input_key i = Some t"
  shows "lifecycle (phase_at s t) (emitted s (handle_input i s)) (phase_at (handle_input i s) t) \<and>
         (\<forall>u. u \<noteq> t \<longrightarrow> phase_at (handle_input i s) u = phase_at s u)"
  using handle_input_lifecycle [OF assms] handle_input_other [of i _ s] assms(2)
  by (simp add: phase_at_def)

theorem session_refines_lifecycle_witness:
  "let b = NewHost 2 ''b''; s = NewSessionLayer (NewHost 1 ''a'') 0 0; s' = handle_input (ConnectReq b) s
   in lifecycle (phase_at s b) (emitted s s') (phase_at s' b)"
  using session_refines_lifecycle [of "NewSessionLayer (NewHost 1 ''a'') 0 0" "ConnectReq (NewHost 2 ''b'')"]
  by (simp add: Let_def)

text \<open>C10. The handshake binds identities end to end: a client dials a server, the server sees the
  ephemeral connection and the Hello in either order; then both sides report each other's logical
  host as connected, the server has answered with an Ack, and each side routes the other's logical
  host to the right connection.\<close>

theorem handshake_binds_identities:
  assumes "live c" and "live s" and "sessions c srv = None" and "sessions s e = None"
    and "length (IP (self c)) \<le> 0xFFFF" and "0 \<le> Port (self c)" and "Port (self c) < 2 ^ 16"
    and "c' = handle_inputs [ConnectReq srv, TransportEvent (Connected srv)] c"
    and "last (transport c') = TSend m srv"
    and "is \<in> {[TransportEvent (Connected e), FromTransport (m\<lparr>tm_Host := e\<rparr>)],
              [FromTransport (m\<lparr>tm_Host := e\<rparr>), TransportEvent (Connected e)]}"
    and "s' = handle_inputs is s"
  shows "emitted c c' = [SessionConnected srv] \<and> emitted s s' = [SessionConnected (self c)] \<and>
         resolveUnderlyingHost c' srv = srv \<and>
         resolveUnderlyingHost s' (self c) = e \<and> mapToHost s' e = self c \<and>
         transport s' = transport s @ [TSend (NewMessage (1 # encodeAck) e) e]"
proof -
  from encodeHello_ok [OF assms(5)] obtain hello where hello: "encodeHello (self c) = Inr hello" by blast
  with encodeHello_parse [OF hello] assms(6,7)
  have parse: "parseHandshakePayload hello = Inr (HandshakeHello, self c)" by simp
  note cl = client_opens [OF assms(3) hello assms(1), folded assms(8)]
  from cl(1) assms(9) have "m\<lparr>tm_Host := e\<rparr> = NewMessage (1 # hello) e" by (auto simp: NewMessage_def)
  with assms(10) have "is \<in> {[TransportEvent (Connected e), FromTransport (NewMessage (1 # hello) e)],
              [FromTransport (NewMessage (1 # hello) e), TransportEvent (Connected e)]}" by simp
  note sv = server_binds [OF assms(4) parse assms(2) this, folded assms(11)]
  from cl sv show ?thesis by (simp add: resolveUnderlyingHost_def)
qed

theorem handshake_binds_identities_witness:
  "let a = NewHost 1 ''a''; b = NewHost 2 ''b''; e = NewHost 40000 ''a'';
       c = NewSessionLayer a 0 0; s = NewSessionLayer b 0 0;
       c' = handle_inputs [ConnectReq b, TransportEvent (Connected b)] c
   in \<exists>m. last (transport c') = TSend m b \<and>
        emitted s (handle_inputs [TransportEvent (Connected e), FromTransport (m\<lparr>tm_Host := e\<rparr>)] s)
          = [SessionConnected a]"
proof -
  let ?a = "NewHost 1 ''a''" and ?b = "NewHost 2 ''b''" and ?e = "NewHost 40000 ''a''"
  let ?c = "NewSessionLayer ?a 0 0"
  let ?c' = "handle_inputs [ConnectReq ?b, TransportEvent (Connected ?b)] ?c"
  obtain hello where "encodeHello ?a = Inr hello" using encodeHello_ok [of ?a] by auto
  then have "transport ?c' = transport ?c @ [TConnect ?b, TSend (NewMessage (1 # hello) ?b) ?b]"
    by (intro client_opens(1)) simp_all
  then have l: "last (transport ?c') = TSend (NewMessage (1 # hello) ?b) ?b" by simp
  from handshake_binds_identities [OF _ _ _ _ _ _ _ refl l insertI1 refl,
      of "NewSessionLayer ?b 0 0" ?e] l
  show ?thesis unfolding Let_def by fastforce
qed

text \<open>Application traffic is reported under the connection's transport host, not under the
  logical host the handshake bound to it.\<close>

theorem app_message_keeps_transport_host:
  assumes "live s" and "transportToLogical s e = Some l" and "l \<noteq> e"
    and "s' = handle_input (FromTransport \<lparr>tm_Host = e, tm_Msg = 0 # payload\<rparr>) s"
  shows "\<exists>sm. chan_buf (outMessages s') = chan_buf (outMessages s) @ [sm] \<and>
              sm_Msg sm = payload \<and> sm_host sm = e \<and> sm_host sm \<noteq> mapToHost s e"
  using assms by (auto simp: session_defs deserializeMessage_def live_def mapToHost_def Let_def)

theorem app_message_keeps_transport_host_witness:
  "let e = NewHost 40000 ''a''; l = NewHost 1 ''a''; s = layer_with [e \<mapsto> l] [l \<mapsto> e];
       s' = handle_input (FromTransport \<lparr>tm_Host = e, tm_Msg = 0 # [5]\<rparr>) s
   in \<exists>sm. chan_buf (outMessages s') = chan_buf (outMessages s) @ [sm] \<and>
           sm_Msg sm = [5] \<and> sm_host sm = e \<and> sm_host sm \<noteq> mapToHost s e"
  unfolding Let_def
  by (rule app_message_keeps_transport_host [where l = "NewHost 1 ''a''"]) simp_all

text \<open>C30. Asking to disconnect a peer that dialled in has no effect on its session: the transport is
  told to close a connection keyed by the logical host, which is not the connection the peer is on,
  and every session, mapping and event is left as it was.\<close>

theorem disconnect_misses_inbound_session:
  assumes "session_inv s" and "logicalToTransport s l = Some t" and "transportToLogical s l = None"
    and "s' = handle_input (DisconnectReq l) s"
  shows "transport s' = transport s @ [TDisconnect l] \<and> l \<noteq> t \<and>
         sessions s' = sessions s \<and> logicalToTransport s' l = Some t \<and> emitted s s' = [] \<and>
         phase_at s' t = Up"
proof -
  have t: "transportToLogical s t = Some l" using assms(1,2) by (rule session_inv_route)
  then obtain sc where "sessions s t = Some sc" "state sc = SessionStateEstablished"
    using session_inv_mapped [OF assms(1)] by blast
  with t assms(2-) show ?thesis
    by (auto simp: session_disconnect_def transport_Disconnect_def cleanupServerMapping_def phase_at_def)
qed

theorem disconnect_misses_inbound_session_witness:
  "let e = NewHost 40000 ''a''; l = NewHost 1 ''a''; s = layer_with [e \<mapsto> l] [l \<mapsto> e];
       s' = handle_input (DisconnectReq l) s
   in transport s' = transport s @ [TDisconnect l] \<and> phase_at s' e = Up"
proof -
  let ?e = "NewHost 40000 ''a''" and ?l = "NewHost 1 ''a''"
  have "session_inv (layer_with [?e \<mapsto> ?l] [?l \<mapsto> ?e])"
    by (rule layer_with_inv) (auto split: if_splits)
  from disconnect_misses_inbound_session [OF this _ _ refl, of ?l ?e] show ?thesis
    by (simp add: Let_def)
qed

text \<open>A Hello with a foreign version closes the connection and is reported by its own event, whose
  peer version is always zero: the version the peer announced is lost.\<close>

theorem version_mismatch_reports_zero:
  assumes "session_inv s" and "v \<noteq> ProtocolVersion"
    and "s' = handle_input (FromTransport \<lparr>tm_Host = t, tm_Msg = 1 # 1 # v # rest\<rparr>) s"
  shows "emitted s s' = [SessionVersionMismatch t 0] \<and>
         map PeerVersion (emitted s s') = [Some 0] \<and>
         transport s' = transport s @ [TDisconnect t]"
proof -
  have "transportHost (lookup_session t zeroHost s) = t"
    using assms(1) by (simp add: lookup_session_def session_inv_def split: option.splits)
  then have "transportHost (mark_server (lookup_session t zeroHost s)) = t"
    by (simp add: mark_server_def)
  with assms(2) show ?thesis
    unfolding assms(3)
    by (simp add: transportMessageHandler_def dispatchHandshakeMessage_def handleHandshakeMessage_def
        withSession_def deserializeMessage_def parseHandshakePayload_def transport_Disconnect_def
        emitted_def)
qed

theorem version_mismatch_reports_zero_witness:
  "let t = NewHost 40000 ''a''; s = NewSessionLayer (NewHost 2 ''b'') 0 0
   in emitted s (handle_input (FromTransport \<lparr>tm_Host = t, tm_Msg = 1 # 1 # 9 # []\<rparr>) s)
        = [SessionVersionMismatch t 0]"
  using version_mismatch_reports_zero [OF session_inv_init _ refl, of 9 "NewHost 2 ''b''" 0 0 "NewHost 40000 ''a''" "[]"]
  by (simp add: Let_def ProtocolVersion_def)

text \<open>C31. A connection that went down cannot come back from the accepting side: once a session has
  closed or failed, no sequence of inputs brings it up again, reconnects and fresh Hellos from the
  same address included, unless the local side itself asks to connect to that address.\<close>

theorem closed_inbound_session_stays_down:
  assumes "sessions s t = Some sc" and "state sc \<in> {SessionStateClosing, SessionStateFailed}"
    and "ConnectReq t \<notin> set is"
  shows "phase_at (handle_inputs is s) t = Down"
proof -
  have "\<exists>sc. sessions (handle_inputs is s) t = Some sc \<and>
             state sc \<in> {SessionStateClosing, SessionStateFailed}"
    using assms
  proof (induction "is" arbitrary: s sc)
    case (Cons i "is")
    have "\<exists>sc'. sessions (handle_input i s) t = Some sc' \<and>
                state sc' \<in> {SessionStateClosing, SessionStateFailed}"
      using Cons.prems by (rule closed_stays_closed) simp
    with Cons.IH Cons.prems show ?case by (auto simp: handle_inputs_def)
  qed (simp add: handle_inputs_def)
  then show ?thesis by (auto simp: phase_at_def)
qed

theorem closed_inbound_session_stays_down_witness:
  "let t = NewHost 40000 ''a'';
       s = handle_inputs [TransportEvent (Connected t), TransportEvent (Disconnected t)]
             (NewSessionLayer (NewHost 2 ''b'') 0 0)
   in phase_at (handle_inputs [TransportEvent (Connected t)] s) t = Down"
  unfolding Let_def
  by (rule closed_inbound_session_stays_down [where sc = "\<lparr>logicalHost = zeroHost,
        transportHost = NewHost 40000 ''a'', state = SessionStateClosing, lastErr = None\<rparr>"])
     (simp_all add: handle_inputs_def session_defs withSession_def lookup_session_def Let_def)

text \<open>When two connections are bound to the same logical host, losing the older one also drops the
  route to the newer one: sends fall back to the logical host itself although the newer session is
  still established and mapped.\<close>

theorem losing_one_connection_drops_route:
  assumes "session_inv s" and "live s" and "t1 \<noteq> t2"
    and "transportToLogical s t1 = Some l" and "transportToLogical s t2 = Some l"
    and "logicalToTransport s l = Some t2"
    and "s' = handle_input (TransportEvent (Disconnected t1)) s"
  shows "phase_at s' t2 = Up \<and> mapToHost s' t2 = l \<and> emitted s s' = [SessionDisconnected l] \<and>
         logicalToTransport s' l = None \<and> resolveUnderlyingHost s' l = l"
proof -
  from assms(1,4,5) obtain sc1 sc2 where "sessions s t1 = Some sc1" "transportHost sc1 = t1"
    "state sc1 = SessionStateEstablished" "sessions s t2 = Some sc2" "state sc2 = SessionStateEstablished"
    using session_inv_mapped by meson
  with assms(2-) show ?thesis
    by (auto simp: dispatchDisconnected_def withSession_def lookup_session_def handleDisconnected_def
        mapToHost_def cleanupServerMapping_def Let_def phase_at_def resolveUnderlyingHost_def
        emitted_def emitEvent_def live_def)
qed

theorem losing_one_connection_drops_route_witness:
  "let l = NewHost 1 ''a''; e = NewHost 40000 ''a'';
       s' = handle_input (TransportEvent (Disconnected l)) (layer_with [l \<mapsto> l, e \<mapsto> l] [l \<mapsto> e])
   in phase_at s' e = Up \<and> resolveUnderlyingHost s' l = l"
proof -
  let ?l = "NewHost 1 ''a''" and ?e = "NewHost 40000 ''a''"
  have "session_inv (layer_with [?l \<mapsto> ?l, ?e \<mapsto> ?l] [?l \<mapsto> ?e])"
    by (rule layer_with_inv) (auto split: if_splits)
  from losing_one_connection_drops_route [OF this _ _ _ _ _ refl, of ?l ?e ?l] show ?thesis
    by (simp add: Let_def)
qed

end
