(* ===== verification/Codec.thy ===== *)
theory Codec
  imports Wire
begin

text \<open>
  \<^verbatim>\<open>pkg/protorun/codec.go\<close> and \<^verbatim>\<open>codec_registry.go\<close>: wire identifiers, the codec
  interface and its two implementations in the framework (the type-checking adapter and the
  fixed-size \<^verbatim>\<open>BinaryCodec\<close>), and the registry that maps an identifier to its protocol.
  What the code asks of reflection is the record \<open>go_values\<close>: the dynamic type of a value, the name a
  value's optional \<^verbatim>\<open>WireName\<close> method returns, and a fresh value of a type.
\<close>

section \<open>Wire identifiers\<close>

type_synonym wire_id = "64 word"

text \<open>A \<^verbatim>\<open>reflect.Type\<close>: an identity, the text \<^verbatim>\<open>String\<close> prints (package name and type name,
  not unique), and whether its kind is a pointer.\<close>

record go_type =
  ty_id :: nat
  ty_String :: string
  ty_Pointer :: bool

record 'v go_values =
  TypeOf :: "'v \<Rightarrow> go_type"
  WireName :: "'v \<Rightarrow> string option"
  Fresh :: "go_type \<Rightarrow> 'v"

definition fnv_offset64 :: "64 word" where "fnv_offset64 = 14695981039346656037"
definition fnv_prime64 :: "64 word" where "fnv_prime64 = 1099511628211"

text \<open>FNV-1a, as \<^verbatim>\<open>hash/fnv\<close> computes it: per byte, xor then multiply.\<close>

definition fnv_byte :: "byte \<Rightarrow> 64 word \<Rightarrow> 64 word" where
  "fnv_byte b h = (h XOR ucast b) * fnv_prime64"

definition hashString :: "string \<Rightarrow> 64 word" where
  "hashString s = fold fnv_byte (bytes_of_string s) fnv_offset64"

text \<open>\<^verbatim>\<open>WireID[T]\<close>; the argument is \<^term>\<open>None\<close> when the type parameter is an interface type, for
  which the function panics (result \<^term>\<open>None\<close>).\<close>

definition WireID :: "'v go_values \<Rightarrow> go_type option \<Rightarrow> wire_id option" where
  "WireID env T =
     (case T of
        None \<Rightarrow> None
      | Some t \<Rightarrow>
          (case WireName env (Fresh env t) of
             Some name \<Rightarrow> Some (hashString name)
           | None \<Rightarrow> Some (hashString (ty_String t))))"

text \<open>\<^verbatim>\<open>wireIDOf\<close> with its process-wide cache.\<close>

definition wireIDOf :: "'v go_values \<Rightarrow> 'v \<Rightarrow> (go_type \<rightharpoonup> wire_id) \<Rightarrow> wire_id \<times> (go_type \<rightharpoonup> wire_id)" where
  "wireIDOf env m cache =
     (let t = TypeOf env m in
      case cache t of
        Some cached \<Rightarrow> (cached, cache)
      | None \<Rightarrow>
          (case WireName env m of
             Some name \<Rightarrow> (let id = hashString name in (id, cache(t \<mapsto> id)))
           | None \<Rightarrow> (let id = hashString (ty_String t) in (id, cache(t \<mapsto> id)))))"

section \<open>Codecs\<close>

record 'v codec =
  marshal :: "'v \<Rightarrow> byte list result"
  unmarshal :: "byte list \<Rightarrow> 'v result"

definition codecAdapter :: "'v go_values \<Rightarrow> go_type \<Rightarrow> ('v \<Rightarrow> byte list result) \<Rightarrow>
    (byte list \<Rightarrow> 'v result) \<Rightarrow> 'v codec" where
  "codecAdapter env M Marshal Unmarshal =
     \<lparr>marshal = (\<lambda>m. if TypeOf env m = M then Marshal m
                      else Inl (Errorf ''protorun: codec mismatch: expected %T, got %T'' [])),
      unmarshal = Unmarshal\<rparr>"

text \<open>\<^verbatim>\<open>encoding/binary\<close> on a struct of fixed-size unsigned fields: the fields in order,
  little-endian. A struct type is its list of field widths, a value its list of fields.\<close>

datatype field_width = W8 | W16 | W32 | W64

datatype field = U8 "8 word" | U16 "16 word" | U32 "32 word" | U64 "64 word"

primrec width_of :: "field \<Rightarrow> field_width" where
  "width_of (U8 v) = W8" | "width_of (U16 v) = W16" | "width_of (U32 v) = W32" | "width_of (U64 v) = W64"

primrec width_bytes :: "field_width \<Rightarrow> nat" where
  "width_bytes W8 = 1" | "width_bytes W16 = 2" | "width_bytes W32 = 4" | "width_bytes W64 = 8"

primrec put_field :: "field \<Rightarrow> byte list" where
  "put_field (U8 v) = le_put 1 v" | "put_field (U16 v) = le_put 2 v"
| "put_field (U32 v) = le_put 4 v" | "put_field (U64 v) = le_put 8 v"

fun get_field :: "field_width \<Rightarrow> byte list \<Rightarrow> field" where
  "get_field W8 bs = U8 (le_get bs)" | "get_field W16 bs = U16 (le_get bs)"
| "get_field W32 bs = U32 (le_get bs)" | "get_field W64 bs = U64 (le_get bs)"

fun get_fields :: "field_width list \<Rightarrow> byte list \<Rightarrow> field list" where
  "get_fields [] bs = []"
| "get_fields (w # ws) bs = get_field w (take (width_bytes w) bs) # get_fields ws (drop (width_bytes w) bs)"

definition BinaryCodec_Marshal :: "field list \<Rightarrow> byte list result" where
  "BinaryCodec_Marshal m = Inr (concat (map put_field m))"

text \<open>\<open>ptr\<close> is whether the type argument is a pointer type.\<close>

definition BinaryCodec_Unmarshal :: "bool \<Rightarrow> field_width list \<Rightarrow> byte list \<Rightarrow> field list result" where
  "BinaryCodec_Unmarshal ptr layout data =
     (if \<not> ptr then Inl (Errorf ''BinaryCodec[M]: M must be a pointer type, got %T'' [])
      else (case Buffer_ReadFull (sum_list (map width_bytes layout)) data of
              (Inl e, _) \<Rightarrow> Inl (Errorf ''BinaryCodec.Unmarshal: %w'' [e])
            | (Inr bs, _) \<Rightarrow> Inr (get_fields layout bs)))"

section \<open>The codec registry\<close>

type_synonym pid = nat
type_synonym codecRegistry = "wire_id \<rightharpoonup> pid"

definition newCodecRegistry :: codecRegistry where
  "newCodecRegistry = Map.empty"

definition codecRegistry_Set :: "wire_id \<Rightarrow> pid \<Rightarrow> codecRegistry \<Rightarrow> codecRegistry" where
  "codecRegistry_Set wireID proto r = r(wireID \<mapsto> proto)"

definition codecRegistry_Get :: "codecRegistry \<Rightarrow> wire_id \<Rightarrow> pid option" where
  "codecRegistry_Get r wireID = r wireID"

lemmas registry_defs [go_defs] = newCodecRegistry_def codecRegistry_Set_def codecRegistry_Get_def

section \<open>Interfaces\<close>

text \<open>What the runtime asks of a codec: a message it accepts survives the trip.\<close>

locale message_codec =
  fixes Marshal :: "'m \<Rightarrow> byte list result" and Unmarshal :: "byte list \<Rightarrow> 'm result"
    and valid :: "'m \<Rightarrow> bool"
  assumes marshal_total: "valid m \<Longrightarrow> \<exists>bs. Marshal m = Inr bs"
    and unmarshal_marshal: "valid m \<Longrightarrow> Marshal m = Inr bs \<Longrightarrow> Unmarshal bs = Inr m"
begin

lemma marshal_inject:
  "valid m \<Longrightarrow> valid n \<Longrightarrow> Marshal m = Inr bs \<Longrightarrow> Marshal n = Inr bs \<Longrightarrow> m = n"
  using unmarshal_marshal by (metis sum.inject(2))

end

text \<open>A table written at registration and read on every message: the last registration of a key is
  the one that is found.\<close>

locale route_table =
  fixes empty :: 't and put :: "'k \<Rightarrow> 'r \<Rightarrow> 't \<Rightarrow> 't" and get :: "'t \<Rightarrow> 'k \<Rightarrow> 'r option"
  assumes get_empty: "get empty k = None"
    and get_put: "get (put k r t) j = (if j = k then Some r else get t j)"
begin

lemma get_put_all:
  "get (fold (\<lambda>(k, r). put k r) regs t) j =
     (case map_of (rev regs) j of Some r \<Rightarrow> Some r | None \<Rightarrow> get t j)"
  by (induction regs arbitrary: t) (auto simp: get_put map_of_append map_add_def split: option.splits)

lemma last_registration_wins:
  "get (fold (\<lambda>(k, r). put k r) regs empty) j = map_of (rev regs) j"
  by (simp add: get_put_all get_empty split: option.splits)

end

interpretation reg: route_table newCodecRegistry codecRegistry_Set codecRegistry_Get
  by unfold_locales (simp_all add: registry_defs)

section \<open>Facts\<close>

lemma fnv_prime_inverse: "fnv_prime64 * 14886173955864302971 = 1"
  by (simp add: fnv_prime64_def)

lemma fnv_prime_cancel [simp]: "a * fnv_prime64 = b * fnv_prime64 \<longleftrightarrow> a = b"
proof
  assume "a * fnv_prime64 = b * fnv_prime64"
  then have "a * fnv_prime64 * 14886173955864302971 = b * fnv_prime64 * 14886173955864302971"
    by (rule arg_cong)
  then show "a = b" by (simp only: mult.assoc fnv_prime_inverse mult_1_right)
qed simp

lemma xor_left_cancel [simp]: "(a :: 64 word) XOR b = a XOR c \<longleftrightarrow> b = c"
proof
  assume "a XOR b = a XOR c"
  then have "a XOR (a XOR b) = a XOR (a XOR c)" by (rule arg_cong)
  then show "b = c" by (simp flip: xor.assoc)
qed simp

lemma xor_right_cancel [simp]: "(a :: 64 word) XOR c = b XOR c \<longleftrightarrow> a = b"
  by (simp add: xor.commute [of _ c])

lemma fnv_byte_inject_hash [simp]: "fnv_byte b g = fnv_byte b h \<longleftrightarrow> g = h"
  by (simp add: fnv_byte_def)

lemma ucast_byte_inject: "(ucast (b :: byte) :: 64 word) = ucast c \<longleftrightarrow> b = c"
proof
  assume "(ucast b :: 64 word) = ucast c"
  then have "unat (ucast b :: 64 word) = unat (ucast c :: 64 word)" by (rule arg_cong)
  then show "b = c" by (simp add: unsigned_ucast_eq word_unat_eq_iff take_bit_nat_def
        mod_less [OF order.strict_trans [OF unsigned_less [where 'b = 8]]])
qed simp

lemma fnv_byte_inject_byte [simp]: "fnv_byte b h = fnv_byte c h \<longleftrightarrow> b = c"
  by (simp add: fnv_byte_def ucast_byte_inject)

lemma fold_fnv_inject: "fold fnv_byte bs g = fold fnv_byte bs h \<longleftrightarrow> g = h"
  by (induction bs arbitrary: g h) auto

lemma length_put_field [simp]: "length (put_field f) = width_bytes (width_of f)"
  by (cases f) simp_all

lemma get_put_field [simp]: "get_field (width_of f) (put_field f) = f"
  by (cases f) (simp_all add: codec_simps)

lemma get_fields_concat: "get_fields (map width_of fs) (concat (map put_field fs)) = fs"
  by (induction fs) auto

lemma length_concat_put_field:
  "length (concat (map put_field fs)) = sum_list (map width_bytes (map width_of fs))"
  by (induction fs) auto

lemma BinaryCodec_roundtrip:
  "BinaryCodec_Unmarshal True (map width_of fs) (concat (map put_field fs) @ extra) = Inr fs"
proof -
  let ?n = "sum_list (map width_bytes (map width_of fs))"
  have "Buffer_ReadFull ?n (concat (map put_field fs) @ extra) = (Inr (concat (map put_field fs)), extra)"
    unfolding Buffer_ReadFull_def using length_concat_put_field [of fs] by simp
  then show ?thesis by (simp add: BinaryCodec_Unmarshal_def get_fields_concat)
qed

interpretation binary: message_codec BinaryCodec_Marshal "BinaryCodec_Unmarshal True layout"
    "\<lambda>m. map width_of m = layout" for layout
  using BinaryCodec_roundtrip [where extra = "[]"]
  by unfold_locales (auto simp: BinaryCodec_Marshal_def)

lemma bytes_of_string_append: "bytes_of_string (s @ t) = bytes_of_string s @ bytes_of_string t"
  by (simp add: bytes_of_string_def)

lemma word_of_char_inject: "(word_of_nat (of_char c) :: byte) = word_of_nat (of_char d) \<longleftrightarrow> c = d"
proof
  assume "(word_of_nat (of_char c) :: byte) = word_of_nat (of_char d)"
  then have "unat (word_of_nat (of_char c) :: byte) = unat (word_of_nat (of_char d) :: byte)"
    by (rule arg_cong)
  then have "(of_char c :: nat) = of_char d" by (simp only: unat_of_char)
  then show "c = d" by simp
qed simp

text \<open>What the runtime needs of the user's types: \<open>WireName\<close> depends on the type only. Under it the
  cache stays coherent and both ways to the identifier agree.\<close>

definition names_static :: "'v go_values \<Rightarrow> bool" where
  "names_static env \<longleftrightarrow> (\<forall>m. WireName env m = WireName env (Fresh env (TypeOf env m)))"

definition cache_coherent :: "'v go_values \<Rightarrow> (go_type \<rightharpoonup> wire_id) \<Rightarrow> bool" where
  "cache_coherent env cache \<longleftrightarrow> (\<forall>t id. cache t = Some id \<longrightarrow> WireID env (Some t) = Some id)"

lemma cache_coherent_empty [simp]: "cache_coherent env Map.empty"
  by (simp add: cache_coherent_def)

lemma wireIDOf_agrees:
  assumes "names_static env" and "cache_coherent env cache"
  shows "WireID env (Some (TypeOf env m)) = Some (fst (wireIDOf env m cache))"
    and "cache_coherent env (snd (wireIDOf env m cache))"
proof -
  have "WireID env (Some (TypeOf env m)) = Some (fst (wireIDOf env m cache)) \<and>
        cache_coherent env (snd (wireIDOf env m cache))"
  proof (cases "cache (TypeOf env m)")
    case (Some id)
    then show ?thesis using assms(2) by (simp add: wireIDOf_def cache_coherent_def Let_def)
  next
    case None
    have "WireName env m = WireName env (Fresh env (TypeOf env m))"
      using assms(1) by (auto simp: names_static_def)
    with None have "WireID env (Some (TypeOf env m)) = Some (fst (wireIDOf env m cache))"
      and "snd (wireIDOf env m cache) = cache(TypeOf env m \<mapsto> fst (wireIDOf env m cache))"
      by (auto simp: wireIDOf_def WireID_def Let_def split: option.splits)
    then show ?thesis using assms(2) by (simp add: cache_coherent_def)
  qed
  then show "WireID env (Some (TypeOf env m)) = Some (fst (wireIDOf env m cache))"
    and "cache_coherent env (snd (wireIDOf env m cache))" by simp_all
qed

section \<open>Properties\<close>

text \<open>Sender and receiver compute the same identifier: as long as a type's \<open>WireName\<close> does not
  depend on the instance, the cached identifier used to send a message is the one its type was
  registered under, and the cache stays coherent.\<close>

theorem send_and_register_ids_agree:
  assumes "\<And>m. WireName env m = WireName env (Fresh env (TypeOf env m))"
    and "\<And>t id. cache t = Some id \<Longrightarrow> WireID env (Some t) = Some id"
  shows "WireID env (Some (TypeOf env m)) = Some (fst (wireIDOf env m cache)) \<and>
         (\<forall>t id. snd (wireIDOf env m cache) t = Some id \<longrightarrow> WireID env (Some t) = Some id)"
  using wireIDOf_agrees [of env cache m] assms unfolding names_static_def cache_coherent_def by blast

theorem send_and_register_ids_agree_witness:
  "let t = \<lparr>ty_id = 0, ty_String = ''*p.Ping'', ty_Pointer = True\<rparr>;
       env = \<lparr>TypeOf = (\<lambda>_ :: nat. t), WireName = (\<lambda>_. None), Fresh = (\<lambda>_. 0)\<rparr>
   in WireID env (Some t) = Some (fst (wireIDOf env 7 Map.empty))"
  using send_and_register_ids_agree [of "\<lparr>TypeOf = (\<lambda>_ :: nat. \<lparr>ty_id = 0, ty_String = ''*p.Ping'',
      ty_Pointer = True\<rparr>), WireName = (\<lambda>_. None), Fresh = (\<lambda>_. 0)\<rparr>" Map.empty 7]
  by (simp add: Let_def)

text \<open>Two type names of the same shape that differ in exactly one character never share a wire
  identifier.\<close>

theorem one_character_never_collides:
  "hashString (s @ [c] @ t) = hashString (s @ [d] @ t) \<longleftrightarrow> c = d"
  unfolding hashString_def bytes_of_string_append fold_append comp_def fold_fnv_inject
  by (simp add: bytes_of_string_def word_of_char_inject)



end
