(* ===== verification/Ipc_Router.thy ===== *)
theory Ipc_Router
  imports Codec "HOL-Library.AList" "HOL-Library.Multiset"
begin

text \<open>
  \<^verbatim>\<open>pkg/protorun/ipc_router.go\<close>: the request routes and the notification fan-out. A handler
  closure is a value of the type parameter \<open>'h\<close>. The inner map of the fan-out is an association list
  without repeated keys; a Go \<^verbatim>\<open>range\<close> over it visits the entries in an order of the runtime's
  choosing, the argument \<open>order\<close> of \<open>SnapshotSubscribers\<close>, of which only \<open>mset (order xs) = mset xs\<close> is
  ever assumed. The routes interpret the \<open>route_table\<close> interface; the fan-out interprets \<open>fan_out\<close>.
\<close>

section \<open>Operations\<close>

record 'h requestRoute =
  route_proto :: pid
  route_handler :: 'h

record 'h ipcRouter =
  requestRoutes :: "wire_id \<rightharpoonup> 'h requestRoute"
  notificationFanout :: "wire_id \<rightharpoonup> (pid \<times> 'h) list"

definition newIPCRouter :: "'h ipcRouter" where
  "newIPCRouter = \<lparr>requestRoutes = Map.empty, notificationFanout = Map.empty\<rparr>"

definition RegisterRequestRoute :: "wire_id \<Rightarrow> pid \<Rightarrow> 'h \<Rightarrow> 'h ipcRouter
    \<Rightarrow> 'h requestRoute option \<times> 'h ipcRouter" where
  "RegisterRequestRoute wireID proto h r =
     (requestRoutes r wireID,
      r\<lparr>requestRoutes := (requestRoutes r)(wireID \<mapsto> \<lparr>route_proto = proto, route_handler = h\<rparr>)\<rparr>)"

definition Route :: "'h ipcRouter \<Rightarrow> wire_id \<Rightarrow> 'h requestRoute option" where
  "Route r wireID = requestRoutes r wireID"

definition Subscribe :: "wire_id \<Rightarrow> pid \<Rightarrow> 'h \<Rightarrow> 'h ipcRouter \<Rightarrow> 'h ipcRouter" where
  "Subscribe wireID proto fn r =
     (let subs = (case notificationFanout r wireID of None \<Rightarrow> [] | Some subs \<Rightarrow> subs)
      in r\<lparr>notificationFanout := (notificationFanout r)(wireID \<mapsto> AList.update proto fn subs)\<rparr>)"

definition Unsubscribe :: "wire_id \<Rightarrow> pid \<Rightarrow> 'h ipcRouter \<Rightarrow> 'h ipcRouter" where
  "Unsubscribe wireID proto r =
     (case notificationFanout r wireID of
        None \<Rightarrow> r
      | Some subs \<Rightarrow>
          let subs' = AList.delete proto subs
          in if length subs' = 0
             then r\<lparr>notificationFanout := map_delete wireID (notificationFanout r)\<rparr>
             else r\<lparr>notificationFanout := (notificationFanout r)(wireID \<mapsto> subs')\<rparr>)"

definition SnapshotSubscribers :: "((pid \<times> 'h) list \<Rightarrow> (pid \<times> 'h) list) \<Rightarrow> 'h ipcRouter \<Rightarrow> wire_id
    \<Rightarrow> (pid \<times> 'h) list" where
  "SnapshotSubscribers order r wireID =
     order (case notificationFanout r wireID of None \<Rightarrow> [] | Some subs \<Rightarrow> subs)"

lemmas router_defs [go_defs] =
  newIPCRouter_def RegisterRequestRoute_def Route_def Subscribe_def Unsubscribe_def
  SnapshotSubscribers_def

section \<open>Invariant and interfaces\<close>

text \<open>No subscriber occurs twice in a bucket and no bucket is empty.\<close>

definition router_inv :: "'h ipcRouter \<Rightarrow> bool" where
  "router_inv r \<longleftrightarrow>
     (\<forall>w subs. notificationFanout r w = Some subs \<longrightarrow> distinct (map fst subs) \<and> subs \<noteq> [])"

definition subscription :: "'h ipcRouter \<Rightarrow> wire_id \<Rightarrow> pid \<Rightarrow> 'h option" where
  "subscription r w p = (case notificationFanout r w of None \<Rightarrow> None | Some subs \<Rightarrow> map_of subs p)"

lemma update_neq_Nil [simp]: "AList.update k v xs \<noteq> []"
  by (cases xs) auto

lemma router_inv_new: "router_inv newIPCRouter"
  by (simp add: router_inv_def newIPCRouter_def)

lemma router_inv_register:
  "router_inv r \<Longrightarrow> router_inv (snd (RegisterRequestRoute w p h r))"
  by (simp add: router_inv_def RegisterRequestRoute_def)

lemma router_inv_subscribe: "router_inv r \<Longrightarrow> router_inv (Subscribe w p h r)"
  by (auto simp: router_inv_def Subscribe_def Let_def distinct_update split: option.splits)

lemma router_inv_unsubscribe: "router_inv r \<Longrightarrow> router_inv (Unsubscribe w p r)"
  by (auto simp: router_inv_def Unsubscribe_def Let_def distinct_delete split: option.splits)

lemma subscription_new [simp]: "subscription newIPCRouter w p = None"
  by (simp add: subscription_def newIPCRouter_def)

lemma subscription_subscribe:
  "subscription (Subscribe w p h r) v q = (if v = w \<and> q = p then Some h else subscription r v q)"
  by (auto simp: subscription_def Subscribe_def Let_def update_conv split: option.splits)

lemma subscription_unsubscribe:
  "subscription (Unsubscribe w p r) v q = (if v = w \<and> q = p then None else subscription r v q)"
  by (auto simp: subscription_def Unsubscribe_def Let_def delete_conv split: option.splits)
     (metis delete_conv fun_upd_other map_of.simps(1))+

lemma set_snapshot:
  assumes "router_inv r" and "\<And>xs. mset (order xs) = mset xs"
  shows "(p, h) \<in> set (SnapshotSubscribers order r w) \<longleftrightarrow> subscription r w p = Some h"
    and "distinct (map fst (SnapshotSubscribers order r w))"
proof -
  let ?subs = "case notificationFanout r w of None \<Rightarrow> [] | Some subs \<Rightarrow> subs"
  have d: "distinct (map fst ?subs)"
    using assms(1) by (auto simp: router_inv_def split: option.splits)
  have s: "set (order ?subs) = set ?subs" using assms(2) by (metis set_mset_mset)
  show "(p, h) \<in> set (SnapshotSubscribers order r w) \<longleftrightarrow> subscription r w p = Some h"
    using d by (auto simp: SnapshotSubscribers_def s subscription_def map_of_eq_Some_iff split: option.splits)
  have "mset (map fst (order ?subs)) = mset (map fst ?subs)" using assms(2) by simp
  with d show "distinct (map fst (SnapshotSubscribers order r w))"
    unfolding SnapshotSubscribers_def by (metis distinct_count_atmost_1 mset_eq_setD)
qed

text \<open>What a publisher relies on: the snapshot lists every current subscriber once, with the handler
  of its latest subscription.\<close>

locale fan_out =
  fixes empty :: 't and sub :: "wire_id \<Rightarrow> pid \<Rightarrow> 'h \<Rightarrow> 't \<Rightarrow> 't" and unsub :: "wire_id \<Rightarrow> pid \<Rightarrow> 't \<Rightarrow> 't"
    and snap :: "'t \<Rightarrow> wire_id \<Rightarrow> (pid \<times> 'h) list" and who :: "'t \<Rightarrow> wire_id \<Rightarrow> pid \<Rightarrow> 'h option"
    and inv :: "'t \<Rightarrow> bool"
  assumes inv_empty: "inv empty" and inv_sub: "inv t \<Longrightarrow> inv (sub w p h t)"
    and inv_unsub: "inv t \<Longrightarrow> inv (unsub w p t)"
    and who_empty: "who empty w p = None"
    and who_sub: "who (sub w p h t) v q = (if v = w \<and> q = p then Some h else who t v q)"
    and who_unsub: "who (unsub w p t) v q = (if v = w \<and> q = p then None else who t v q)"
    and set_snap: "inv t \<Longrightarrow> (p, h) \<in> set (snap t w) \<longleftrightarrow> who t w p = Some h"
    and distinct_snap: "inv t \<Longrightarrow> distinct (map fst (snap t w))"
begin

lemma snap_after_sub:
  "inv t \<Longrightarrow> set (snap (sub w p h t) w) = insert (p, h) {(q, g) \<in> set (snap t w). q \<noteq> p}"
  by (auto simp: set_snap inv_sub who_sub split: if_splits)

lemma snap_after_unsub:
  "inv t \<Longrightarrow> set (snap (unsub w p t) w) = {(q, g) \<in> set (snap t w). q \<noteq> p}"
  by (auto simp: set_snap inv_unsub who_unsub split: if_splits)

lemma unsub_idem_snap:
  "inv t \<Longrightarrow> set (snap (unsub w p (unsub w p t)) v) = set (snap (unsub w p t) v)"
  by (auto simp: set_snap inv_unsub who_unsub split: if_splits)

end

interpretation fan: fan_out newIPCRouter Subscribe Unsubscribe "SnapshotSubscribers (\<lambda>xs. xs)"
    subscription router_inv
  by unfold_locales
     (simp_all add: router_inv_new router_inv_subscribe router_inv_unsubscribe subscription_subscribe
       subscription_unsubscribe set_snapshot)

interpretation routes: route_table newIPCRouter
    "\<lambda>w (p, h) r. snd (RegisterRequestRoute w p h r)"
    "\<lambda>r w. map_option (\<lambda>rt. (route_proto rt, route_handler rt)) (Route r w)"
  by unfold_locales (auto simp: router_defs)

end
