(* ===== verification/Strict.thy ===== *)
theory Strict
  imports Main
begin

text \<open>
  The lifecycle phases of \<^verbatim>\<open>pkg/protorun/strict.go\<close> and the two guards strict mode puts in
  front of the context's operations. A phase is compared by its number, so the phases are a linear
  order. A guard returns the panic message, or \<^term>\<open>None\<close> when the call may go on.
\<close>

datatype protoPhase =
    phaseUnstarted | phaseRegistering | phaseRegistered | phaseInitializing | phaseRunning | phaseCancelled

primrec phase_number :: "protoPhase \<Rightarrow> nat" where
  "phase_number phaseUnstarted = 0"
| "phase_number phaseRegistering = 1"
| "phase_number phaseRegistered = 2"
| "phase_number phaseInitializing = 3"
| "phase_number phaseRunning = 4"
| "phase_number phaseCancelled = 5"

lemma phase_number_inject [simp]: "phase_number p = phase_number q \<longleftrightarrow> p = q"
  by (cases p; cases q) simp_all

instantiation protoPhase :: linorder
begin

definition less_eq_protoPhase :: "protoPhase \<Rightarrow> protoPhase \<Rightarrow> bool" where
  "less_eq_protoPhase p q \<longleftrightarrow> phase_number p \<le> phase_number q"

definition less_protoPhase :: "protoPhase \<Rightarrow> protoPhase \<Rightarrow> bool" where
  "less_protoPhase p q \<longleftrightarrow> phase_number p < phase_number q"

instance
  by intro_classes (auto simp: less_eq_protoPhase_def less_protoPhase_def)

end

primrec protoPhase_String :: "protoPhase \<Rightarrow> string" where
  "protoPhase_String phaseUnstarted = ''unstarted''"
| "protoPhase_String phaseRegistering = ''registering''"
| "protoPhase_String phaseRegistered = ''registered''"
| "protoPhase_String phaseInitializing = ''initializing''"
| "protoPhase_String phaseRunning = ''running''"
| "protoPhase_String phaseCancelled = ''cancelled''"

definition strictPanic :: "string \<Rightarrow> string" where
  "strictPanic msg = ''protorun strict: '' @ msg"

definition requireRegisterPhase :: "bool \<Rightarrow> protoPhase \<Rightarrow> string \<Rightarrow> string option" where
  "requireRegisterPhase strict cur action =
     (if \<not> strict then None
      else if cur \<noteq> phaseRegistering
      then Some (strictPanic (action @ '' must be called from Start(ctx); current phase=''
                   @ protoPhase_String cur))
      else None)"

definition requireActivePhase :: "bool \<Rightarrow> protoPhase \<Rightarrow> string \<Rightarrow> string option" where
  "requireActivePhase strict cur action =
     (if \<not> strict then None
      else if cur < phaseInitializing
      then Some (strictPanic (action @ '' must be called from Init(ctx) or later; current phase=''
                   @ protoPhase_String cur))
      else None)"

lemma requireRegisterPhase_permissive [simp]: "requireRegisterPhase False cur a = None"
  and requireActivePhase_permissive [simp]: "requireActivePhase False cur a = None"
  by (simp_all add: requireRegisterPhase_def requireActivePhase_def)

text \<open>The two windows do not overlap: no phase admits both kinds of call.\<close>

lemma strict_windows_disjoint:
  "requireRegisterPhase True cur a = None \<Longrightarrow> requireActivePhase True cur b \<noteq> None"
  by (cases cur) (auto simp: requireRegisterPhase_def requireActivePhase_def less_protoPhase_def)

end
