(* ===== verification/Retry_Policy.thy ===== *)
theory Retry_Policy
  imports Complex_Main
begin

text \<open>
  The backoff schedule of \<^verbatim>\<open>pkg/protorun/retry.go\<close>. Durations are nanoseconds; the floating
  point computation is carried out over the reals, where the overflow of \<^verbatim>\<open>math.Pow\<close> to infinity
  and the product above the cap both end at the cap. The random number is an argument.
\<close>

record RetryPolicy =
  Initial :: int
  Max :: int
  Multiplier :: real
  MaxAttempts :: int
  Jitter :: real

definition millisecond :: int where "millisecond = 1000000"
definition second :: int where "second = 1000 * millisecond"

definition withDefaults :: "RetryPolicy \<Rightarrow> RetryPolicy" where
  "withDefaults p =
     (let p1 = (if Initial p \<le> 0 then p\<lparr>Initial := 100 * millisecond\<rparr> else p);
          p2 = (if Max p1 \<le> 0 then p1\<lparr>Max := 30 * second\<rparr> else p1);
          p3 = (if Multiplier p2 \<le> 1 then p2\<lparr>Multiplier := 2\<rparr> else p2);
          p4 = (if Jitter p3 < 0 then p3\<lparr>Jitter := 0\<rparr> else p3);
          p5 = (if Jitter p4 > 1 then p4\<lparr>Jitter := 1\<rparr> else p4)
      in p5)"

text \<open>\<^verbatim>\<open>time.Duration(d)\<close> drops the fraction.\<close>

definition to_Duration :: "real \<Rightarrow> int" where
  "to_Duration d = (if d \<ge> 0 then \<lfloor>d\<rfloor> else \<lceil>d\<rceil>)"

definition nextDelay :: "RetryPolicy \<Rightarrow> int \<Rightarrow> real \<Rightarrow> int" where
  "nextDelay p attempt rnd =
     (let d = real_of_int (Initial p) * Multiplier p ^ nat attempt;
          d1 = (if d > real_of_int (Max p) then real_of_int (Max p) else d);
          d2 = (if Jitter p > 0
                then (let j = Jitter p; factor = 1 - j / 2 + rnd * j in d1 * factor)
                else d1)
      in to_Duration d2)"

section \<open>Facts\<close>

definition policy_ok :: "RetryPolicy \<Rightarrow> bool" where
  "policy_ok p \<longleftrightarrow> Initial p > 0 \<and> Max p > 0 \<and> Multiplier p > 1 \<and> 0 \<le> Jitter p \<and> Jitter p \<le> 1"

lemma policy_ok_withDefaults [simp]: "policy_ok (withDefaults p)"
  by (simp add: policy_ok_def withDefaults_def Let_def millisecond_def second_def)

lemma withDefaults_idem: "policy_ok p \<Longrightarrow> withDefaults p = p"
  by (simp add: policy_ok_def withDefaults_def)

lemma withDefaults_MaxAttempts [simp]: "MaxAttempts (withDefaults p) = MaxAttempts p"
  by (simp add: withDefaults_def Let_def)

text \<open>The capped delay before jitter.\<close>

definition base_delay :: "RetryPolicy \<Rightarrow> int \<Rightarrow> real" where
  "base_delay p attempt = min (real_of_int (Max p)) (real_of_int (Initial p) * Multiplier p ^ nat attempt)"

lemma nextDelay_base:
  "nextDelay p attempt rnd =
     to_Duration (if Jitter p > 0 then base_delay p attempt * (1 - Jitter p / 2 + rnd * Jitter p)
                  else base_delay p attempt)"
  by (simp add: nextDelay_def base_delay_def min_def Let_def not_le)

lemma base_delay_pos: "policy_ok p \<Longrightarrow> 0 < base_delay p attempt"
  by (simp add: base_delay_def policy_ok_def)

lemma base_delay_mono: "policy_ok p \<Longrightarrow> 0 \<le> a \<Longrightarrow> a \<le> b \<Longrightarrow> base_delay p a \<le> base_delay p b"
  unfolding base_delay_def policy_ok_def
  by (intro min.mono order_refl mult_left_mono power_increasing) auto

lemma jitter_factor_bounds:
  assumes "policy_ok p" and "0 \<le> rnd" and "rnd < 1"
  shows "1 - Jitter p / 2 \<le> 1 - Jitter p / 2 + rnd * Jitter p"
    and "1 - Jitter p / 2 + rnd * Jitter p \<le> 1 + Jitter p / 2"
    and "0 < 1 - Jitter p / 2"
proof -
  have "rnd * Jitter p \<le> 1 * Jitter p" using assms by (intro mult_right_mono) (auto simp: policy_ok_def)
  then show "1 - Jitter p / 2 + rnd * Jitter p \<le> 1 + Jitter p / 2" by simp
  show "1 - Jitter p / 2 \<le> 1 - Jitter p / 2 + rnd * Jitter p" "0 < 1 - Jitter p / 2"
    using assms by (simp_all add: policy_ok_def)
qed

section \<open>Properties\<close>



text \<open>The documented bounds are not the real ones: jitter is applied after the cap, so for every
  policy with jitter some draw makes a capped delay exceed \<open>Max\<close> (for caps of at least 4 over the
  jitter fraction, in nanoseconds), and a policy left at zero gets no jitter at all.\<close>

theorem jitter_exceeds_cap:
  assumes "p = withDefaults q" and "Jitter p > 0" and "4 / Jitter p \<le> real_of_int (Max p)"
    and "real_of_int (Max p) \<le> real_of_int (Initial p) * Multiplier p ^ nat a"
  shows "(\<exists>rnd. 0 \<le> rnd \<and> rnd < 1 \<and> nextDelay p a rnd > Max p) \<and>
         Jitter (withDefaults \<lparr>Initial = 0, Max = 0, Multiplier = 0, MaxAttempts = 0, Jitter = 0\<rparr>) = 0"
proof -
  have base: "base_delay p a = real_of_int (Max p)" using assms(4) by (simp add: base_delay_def)
  have "1 \<le> real_of_int (Max p) * (Jitter p / 4)"
    using assms(2,3) by (simp add: field_simps)
  then have "real_of_int (Max p) + 1 \<le> real_of_int (Max p) * (1 - Jitter p / 2 + 3 / 4 * Jitter p)"
    by (simp add: algebra_simps)
  moreover have "0 < Max p" using policy_ok_withDefaults [of q] assms(1) by (simp add: policy_ok_def)
  ultimately have "Max p + 1 \<le> nextDelay p a (3 / 4)"
    using assms(2) by (auto simp: nextDelay_base base to_Duration_def le_floor_iff)
  then have "nextDelay p a (3 / 4) > Max p" by simp
  then show ?thesis by (intro conjI exI [of _ "3 / 4"]) (simp_all add: withDefaults_def Let_def)
qed

theorem jitter_exceeds_cap_witness:
  "\<exists>rnd. 0 \<le> rnd \<and> rnd < 1 \<and>
     nextDelay (withDefaults \<lparr>Initial = 200, Max = 100, Multiplier = 2, MaxAttempts = 0, Jitter = 1 / 2\<rparr>) 0 rnd > 100"
  using jitter_exceeds_cap [OF refl, of "\<lparr>Initial = 200, Max = 100, Multiplier = 2, MaxAttempts = 0, Jitter = 1 / 2\<rparr>" 0]
  by (simp add: withDefaults_def)

end
