(* ===== verification/Runtime_State.thy ===== *)
theory Runtime_State
  imports Session Ipc_Router Strict Retry_Policy
begin

text \<open>
  The state of \<^verbatim>\<open>pkg/protorun\<close>: the \<^verbatim>\<open>Runtime\<close>, the \<^verbatim>\<open>protoProtocol\<close> envelopes it hosts, the
  values that travel on their channels, the options and the constructors. A \<^verbatim>\<open>*protoProtocol\<close> is
  its index in \<^verbatim>\<open>Runtime.protocols\<close>. A function value the user supplies is of the type parameter
  \<open>'h\<close>; the framework's own closures around it are the constructors of \<open>closure\<close>, with what they
  capture. Go values (messages, requests, replies, notifications, timer payloads) are of type \<open>'v\<close>, the
  memory of the user's protocols of type \<open>'u\<close>. \<^verbatim>\<open>time.AfterFunc\<close> timers are entries of \<open>armed\<close> until
  they are stopped or fire; a fired timer's function is in \<open>spawned\<close> until its goroutine has run.
  \<open>calls\<close> is the trace of calls into user code, \<open>metrics\<close> the samples handed to the metrics sink,
  \<open>sessionLayer\<close> the requests handed to the session layer (\<^term>\<open>None\<close> when none is registered).
\<close>

section \<open>Values on the channels\<close>

datatype 'h closure =
    HandlerFn go_type 'h
  | RequestFn pid go_type 'h
  | ReplyFn go_type 'h
  | NotificationFn go_type 'h

datatype sessionEventType = sessionConnectedEvent | sessionDisconnectedEvent | sessionGivenUpEvent

record sessionEvent =
  se_kind :: sessionEventType
  se_host :: Host
  se_attempts :: int

record replyToken =
  requester :: pid
  requestID :: "64 word"

record ('h, 'v) inboundRequest =
  ir_req :: 'v
  ir_token :: replyToken
  ir_handler :: "'h closure"

record 'v inboundReply =
  rep_requestID :: "64 word"
  rep_rep :: "'v option"
  rep_err :: "go_error option"

record ('h, 'v) inboundNotification =
  in_n :: 'v
  in_handler :: "'h closure"

record 'h pendingRequest =
  cb :: "'h closure"
  deadline :: int
  startedAt :: int
  pr_wireID :: wire_id

record 'v messageEnvelope =
  env_msg :: 'v
  env_from :: Host

record 'v Timer =
  TimerID :: int
  timer_value :: 'v

section \<open>User code\<close>

text \<open>What user code is called with, and the methods of a user protocol; the optional interfaces it
  may implement are options.\<close>

datatype 'v call_arg =
    CtxArg | MessageArg 'v Host | TimerArg "'v Timer" | HostArg Host | GivenUpArg Host int
  | PanicArg string string | RequestArg 'v nat | ReplyArg "'v option" "go_error option"
  | NotificationArg 'v

record 'h Protocol =
  impl_type :: string
  impl_Start :: 'h
  impl_Init :: 'h
  impl_OnSessionConnected :: "'h option"
  impl_OnSessionDisconnected :: "'h option"
  impl_OnSessionGivenUp :: "'h option"
  impl_OnPanic :: "'h option"

datatype ('h, 'v) observation =
    Called pid 'h "'v call_arg"
  | Completed pid "64 word"

section \<open>The protocol envelope\<close>

record ('h, 'v) protoProtocol =
  protocol :: "'h Protocol"
  bound :: bool
  has_ctx :: bool
  loop_started :: bool
  timerChannel :: "'v Timer chan"
  messageChannel :: "'v messageEnvelope chan"
  sessionEvents :: "sessionEvent chan"
  requestEvents :: "('h, 'v) inboundRequest chan"
  replyEvents :: "'v inboundReply chan"
  notificationEvents :: "('h, 'v) inboundNotification chan"
  proto_codecs :: "wire_id \<rightharpoonup> 'v codec"
  proto_handlers :: "wire_id \<rightharpoonup> 'h closure"
  timerHandlers :: "int \<rightharpoonup> 'h"
  pending :: "64 word \<rightharpoonup> 'h pendingRequest"
  nextRequestID :: "64 word"
  proto_phase :: protoPhase

definition defaultProtoChannelBuffer :: int where "defaultProtoChannelBuffer = 16"

definition newProtoProtocol :: "'h Protocol \<Rightarrow> int \<Rightarrow> ('h, 'v) protoProtocol" where
  "newProtoProtocol impl buf =
     (let n = nat (if buf \<le> 0 then defaultProtoChannelBuffer else buf)
      in \<lparr>protocol = impl, bound = False, has_ctx = False, loop_started = False,
          timerChannel = make_chan n, messageChannel = make_chan n, sessionEvents = make_chan n,
          requestEvents = make_chan n, replyEvents = make_chan n, notificationEvents = make_chan n,
          proto_codecs = Map.empty, proto_handlers = Map.empty, timerHandlers = Map.empty,
          pending = Map.empty, nextRequestID = 0, proto_phase = phaseUnstarted\<rparr>)"

section \<open>The runtime\<close>

datatype attr =
    WireIDAttr wire_id | HostAttr Host | WhereAttr string | ProtocolAttr string | ResultAttr string
  | AttemptsAttr int

text \<open>A histogram value is in thousandths, an integer.\<close>

datatype sample = Counter string int "attr list" | Histogram string int "attr list"

record retryState =
  rs_policy :: RetryPolicy
  rs_attempt :: int
  rs_timer :: "nat option"

datatype 'v callback =
    RetryFire Host
  | TimeoutFire replyToken
  | TimerFire pid "'v Timer"
  | WatchdogFire pid string

record 'v ticker =
  tick_owner :: pid
  tick_timer :: "'v Timer"
  tick_every :: int
  tick_cancelled :: bool
  tick_ended :: bool

record ('h, 'v, 'u) Runtime =
  rt_self :: Host
  rt_done :: bool
  rt_preferDone :: bool
  ongoingTimers :: "int \<rightharpoonup> nat"
  ongoingPeriodicTimers :: "int \<rightharpoonup> nat"
  protocols :: "('h, 'v) protoProtocol list"
  codecs :: codecRegistry
  protoChannelBuffer :: int
  retryPolicy :: RetryPolicy
  connectionRetries :: "Host \<rightharpoonup> retryState"
  ipc :: "'h closure ipcRouter"
  rt_defaultRequestTimeout :: int
  networkLayer :: bool
  sessionLayer :: "session_input list option"
  metrics :: "sample list"
  strict :: bool
  strictHandlerTimeout :: int
  wireIDCache :: "go_type \<rightharpoonup> wire_id"
  rt_now :: int
  armed :: "nat \<rightharpoonup> int \<times> 'v callback"
  nextHandle :: nat
  spawned :: "'v callback list"
  tickers :: "'v ticker list"
  responders :: "(replyToken \<times> bool) list"
  calls :: "('h, 'v) observation list"
  rt_loops :: bool
  user :: 'u

definition zeroPolicy :: RetryPolicy where
  "zeroPolicy = \<lparr>Initial = 0, Max = 0, Multiplier = 0, MaxAttempts = 0, Jitter = 0\<rparr>"

text \<open>\<open>mem\<close> is the memory of the user's protocols at the start; \<open>pd\<close> is what a select does when the
  context is done and the channel has room.\<close>

definition New :: "Host \<Rightarrow> (('h, 'v, 'u) Runtime \<Rightarrow> ('h, 'v, 'u) Runtime) list \<Rightarrow> 'u \<Rightarrow> bool
    \<Rightarrow> ('h, 'v, 'u) Runtime" where
  "New me opts mem pd = fold (\<lambda>opt r. opt r) opts
     \<lparr>rt_self = me, rt_done = False, rt_preferDone = pd, ongoingTimers = Map.empty,
      ongoingPeriodicTimers = Map.empty, protocols = [], codecs = newCodecRegistry,
      protoChannelBuffer = 0, retryPolicy = zeroPolicy, connectionRetries = Map.empty,
      ipc = newIPCRouter, rt_defaultRequestTimeout = 0, networkLayer = False, sessionLayer = None,
      metrics = [], strict = False, strictHandlerTimeout = 0, wireIDCache = Map.empty, rt_now = 0,
      armed = Map.empty, nextHandle = 0, spawned = [], tickers = [], responders = [], calls = [],
      rt_loops = False, user = mem\<rparr>"

section \<open>Options\<close>

definition WithChannelBuffer :: "int \<Rightarrow> ('h, 'v, 'u) Runtime \<Rightarrow> ('h, 'v, 'u) Runtime" where
  "WithChannelBuffer n r = (if n > 0 then r\<lparr>protoChannelBuffer := n\<rparr> else r)"

definition WithRetryPolicy :: "RetryPolicy \<Rightarrow> ('h, 'v, 'u) Runtime \<Rightarrow> ('h, 'v, 'u) Runtime" where
  "WithRetryPolicy p r = r\<lparr>retryPolicy := p\<rparr>"

definition WithDefaultRequestTimeout :: "int \<Rightarrow> ('h, 'v, 'u) Runtime \<Rightarrow> ('h, 'v, 'u) Runtime" where
  "WithDefaultRequestTimeout d r = (if d > 0 then r\<lparr>rt_defaultRequestTimeout := d\<rparr> else r)"

definition defaultStrictHandlerTimeout :: int where "defaultStrictHandlerTimeout = 5 * second"

definition WithStrict :: "bool \<Rightarrow> ('h, 'v, 'u) Runtime \<Rightarrow> ('h, 'v, 'u) Runtime" where
  "WithStrict b r =
     (let r1 = r\<lparr>strict := b\<rparr>
      in if strictHandlerTimeout r1 = 0 then r1\<lparr>strictHandlerTimeout := defaultStrictHandlerTimeout\<rparr>
         else r1)"

definition WithStrictHandlerTimeout :: "int \<Rightarrow> ('h, 'v, 'u) Runtime \<Rightarrow> ('h, 'v, 'u) Runtime" where
  "WithStrictHandlerTimeout d r = r\<lparr>strictHandlerTimeout := d\<rparr>"

text \<open>\<open>layer\<close> and \<open>session\<close> are whether the arguments are not nil.\<close>

definition WithTransport :: "bool \<Rightarrow> bool \<Rightarrow> ('h, 'v, 'u) Runtime \<Rightarrow> ('h, 'v, 'u) Runtime" where
  "WithTransport layer session r =
     (let r1 = (if layer then r\<lparr>networkLayer := True\<rparr> else r)
      in if session then r1\<lparr>sessionLayer := Some []\<rparr> else r1)"

definition WithTCPTransport :: "('h, 'v, 'u) Runtime \<Rightarrow> ('h, 'v, 'u) Runtime" where
  "WithTCPTransport r = r\<lparr>networkLayer := True, sessionLayer := Some []\<rparr>"

text \<open>The setters that attach a mock transport and its session layer.\<close>

definition registerNetworkLayer :: "bool \<Rightarrow> ('h, 'v, 'u) Runtime \<Rightarrow> ('h, 'v, 'u) Runtime" where
  "registerNetworkLayer layer r = r\<lparr>networkLayer := layer\<rparr>"

definition registerSessionLayer :: "bool \<Rightarrow> ('h, 'v, 'u) Runtime \<Rightarrow> ('h, 'v, 'u) Runtime" where
  "registerSessionLayer session r = r\<lparr>sessionLayer := (if session then Some [] else None)\<rparr>"

lemma WithTransport_register:
  "WithTransport True True r = registerSessionLayer True (registerNetworkLayer True r)"
  by (simp add: WithTransport_def registerSessionLayer_def registerNetworkLayer_def)

section \<open>Registration of protocols and access to them\<close>

definition bindRuntime :: "('h, 'v) protoProtocol \<Rightarrow> ('h, 'v) protoProtocol" where
  "bindRuntime p = p\<lparr>bound := True\<rparr>"

declare bindRuntime_def [simp]

definition registerProtocol :: "('h, 'v) protoProtocol \<Rightarrow> ('h, 'v, 'u) Runtime \<Rightarrow> ('h, 'v, 'u) Runtime" where
  "registerProtocol p r = r\<lparr>protocols := protocols r @ [bindRuntime p]\<rparr>"

definition Register :: "'h Protocol \<Rightarrow> ('h, 'v, 'u) Runtime \<Rightarrow> ('h, 'v, 'u) Runtime" where
  "Register impl r = registerProtocol (newProtoProtocol impl (protoChannelBuffer r)) r"

abbreviation proto :: "('h, 'v, 'u) Runtime \<Rightarrow> pid \<Rightarrow> ('h, 'v) protoProtocol" where
  "proto r p \<equiv> protocols r ! p"

definition upd_proto :: "pid \<Rightarrow> (('h, 'v) protoProtocol \<Rightarrow> ('h, 'v) protoProtocol)
    \<Rightarrow> ('h, 'v, 'u) Runtime \<Rightarrow> ('h, 'v, 'u) Runtime" where
  "upd_proto p f r = r\<lparr>protocols := (protocols r)[p := f (proto r p)]\<rparr>"

definition loadPhase :: "pid \<Rightarrow> ('h, 'v, 'u) Runtime \<Rightarrow> protoPhase" where
  "loadPhase p r = proto_phase (proto r p)"

declare loadPhase_def [simp]

definition setPhase :: "protoPhase \<Rightarrow> pid \<Rightarrow> ('h, 'v, 'u) Runtime \<Rightarrow> ('h, 'v, 'u) Runtime" where
  "setPhase ph p = upd_proto p (\<lambda>q. q\<lparr>proto_phase := ph\<rparr>)"

definition sample :: "sample \<Rightarrow> ('h, 'v, 'u) Runtime \<Rightarrow> ('h, 'v, 'u) Runtime" where
  "sample x r = r\<lparr>metrics := metrics r @ [x]\<rparr>"

lemma proto_upd [simp]:
  "p < length (protocols r) \<Longrightarrow> proto (upd_proto p f r) q = (if q = p then f (proto r p) else proto r q)"
  by (auto simp: upd_proto_def nth_list_update)

lemma length_protocols_upd [simp]: "length (protocols (upd_proto p f r)) = length (protocols r)"
  by (simp add: upd_proto_def)

lemma upd_proto_sel [simp]:
  "rt_self (upd_proto p f r) = rt_self r" "rt_done (upd_proto p f r) = rt_done r"
  "rt_preferDone (upd_proto p f r) = rt_preferDone r" "ongoingTimers (upd_proto p f r) = ongoingTimers r"
  "ongoingPeriodicTimers (upd_proto p f r) = ongoingPeriodicTimers r"
  "codecs (upd_proto p f r) = codecs r" "protoChannelBuffer (upd_proto p f r) = protoChannelBuffer r"
  "retryPolicy (upd_proto p f r) = retryPolicy r"
  "connectionRetries (upd_proto p f r) = connectionRetries r" "ipc (upd_proto p f r) = ipc r"
  "rt_defaultRequestTimeout (upd_proto p f r) = rt_defaultRequestTimeout r"
  "networkLayer (upd_proto p f r) = networkLayer r" "sessionLayer (upd_proto p f r) = sessionLayer r"
  "strict (upd_proto p f r) = strict r" "strictHandlerTimeout (upd_proto p f r) = strictHandlerTimeout r"
  "wireIDCache (upd_proto p f r) = wireIDCache r" "rt_now (upd_proto p f r) = rt_now r"
  "armed (upd_proto p f r) = armed r" "nextHandle (upd_proto p f r) = nextHandle r"
  "spawned (upd_proto p f r) = spawned r" "tickers (upd_proto p f r) = tickers r"
  "responders (upd_proto p f r) = responders r" "calls (upd_proto p f r) = calls r"
  "rt_loops (upd_proto p f r) = rt_loops r" "user (upd_proto p f r) = user r"
  "metrics (upd_proto p f r) = metrics r"
  by (simp_all add: upd_proto_def)

lemma sample_sel [simp]:
  "rt_self (sample x r) = rt_self r" "rt_done (sample x r) = rt_done r"
  "rt_preferDone (sample x r) = rt_preferDone r" "ongoingTimers (sample x r) = ongoingTimers r"
  "ongoingPeriodicTimers (sample x r) = ongoingPeriodicTimers r" "codecs (sample x r) = codecs r"
  "protoChannelBuffer (sample x r) = protoChannelBuffer r" "retryPolicy (sample x r) = retryPolicy r"
  "connectionRetries (sample x r) = connectionRetries r" "ipc (sample x r) = ipc r"
  "rt_defaultRequestTimeout (sample x r) = rt_defaultRequestTimeout r"
  "networkLayer (sample x r) = networkLayer r" "sessionLayer (sample x r) = sessionLayer r"
  "strict (sample x r) = strict r" "strictHandlerTimeout (sample x r) = strictHandlerTimeout r"
  "wireIDCache (sample x r) = wireIDCache r" "rt_now (sample x r) = rt_now r"
  "armed (sample x r) = armed r" "nextHandle (sample x r) = nextHandle r"
  "spawned (sample x r) = spawned r" "tickers (sample x r) = tickers r"
  "responders (sample x r) = responders r" "calls (sample x r) = calls r"
  "rt_loops (sample x r) = rt_loops r" "user (sample x r) = user r" "protocols (sample x r) = protocols r"
  by (simp_all add: sample_def)

section \<open>Timers of the standard library\<close>

text \<open>\<^verbatim>\<open>time.AfterFunc(d, f)\<close> and \<^verbatim>\<open>Timer.Stop\<close> (nothing happens when the timer has fired).\<close>

definition AfterFunc :: "int \<Rightarrow> 'v callback \<Rightarrow> ('h, 'v, 'u) Runtime \<Rightarrow> nat \<times> ('h, 'v, 'u) Runtime" where
  "AfterFunc d f r =
     (nextHandle r,
      r\<lparr>armed := (armed r)(nextHandle r \<mapsto> (rt_now r + d, f)), nextHandle := Suc (nextHandle r)\<rparr>)"

definition Stop :: "nat \<Rightarrow> ('h, 'v, 'u) Runtime \<Rightarrow> ('h, 'v, 'u) Runtime" where
  "Stop t r = r\<lparr>armed := map_delete t (armed r)\<rparr>"

text \<open>A timer that is due starts its goroutine.\<close>

definition fire :: "nat \<Rightarrow> ('h, 'v, 'u) Runtime \<Rightarrow> ('h, 'v, 'u) Runtime" where
  "fire t r =
     (case armed r t of
        Some (due, f) \<Rightarrow>
          if due \<le> rt_now r
          then r\<lparr>armed := map_delete t (armed r), spawned := spawned r @ [f]\<rparr>
          else r
      | None \<Rightarrow> r)"

section \<open>Sends on a protocol's channels\<close>

text \<open>\<^verbatim>\<open>select { case p.ch <- x: case <-ctx.Done(): }\<close>, for a channel given by its selector and
  update; the result is whether the send was taken.\<close>

definition select_proto :: "(('h, 'v) protoProtocol \<Rightarrow> 'a chan)
    \<Rightarrow> (('a chan \<Rightarrow> 'a chan) \<Rightarrow> ('h, 'v) protoProtocol \<Rightarrow> ('h, 'v) protoProtocol)
    \<Rightarrow> pid \<Rightarrow> 'a \<Rightarrow> ('h, 'v, 'u) Runtime \<Rightarrow> (bool, ('h, 'v, 'u) Runtime) outcome" where
  "select_proto ch upd p x r =
     (case select_send (rt_done r) (rt_preferDone r) x (ch (proto r p)) of
        Sent c \<Rightarrow> Return True (upd_proto p (upd (\<lambda>_. c)) r)
      | CtxDone \<Rightarrow> Return False r
      | Waits \<Rightarrow> Block r)"

lemma select_proto_never_panics: "select_proto ch upd p x r \<noteq> Panic m s"
  by (auto simp: select_proto_def split: select_result.splits)

lemma select_proto_room:
  "\<not> rt_done r \<Longrightarrow> \<not> chan_full (ch (proto r p)) \<Longrightarrow>
   select_proto ch upd p x r = Return True (upd_proto p (upd (\<lambda>_. chan_put x (ch (proto r p)))) r)"
  by (simp add: select_proto_def)

lemma select_proto_done_never_waits: "rt_done r \<Longrightarrow> select_proto ch upd p x r \<noteq> Block s"
  by (auto simp: select_proto_def select_send_never_waits_when_done split: select_result.splits)

lemma select_proto_outcome:
  "outcome_state (select_proto ch upd p x r) = r \<or>
   outcome_state (select_proto ch upd p x r) = upd_proto p (upd (\<lambda>_. chan_put x (ch (proto r p)))) r"
  by (auto simp: select_proto_def dest: select_send_Sent split: select_result.splits)

lemmas state_defs [go_defs] =
  upd_proto_def setPhase_def sample_def AfterFunc_def Stop_def fire_def select_proto_def

end
