(* ===== verification/Timers.thy ===== *)
theory Timers
  imports Runtime_State
begin

text \<open>
  \<^verbatim>\<open>pkg/protorun/timer.go\<close>: one-shot and periodic timers. The function given to
  \<^verbatim>\<open>time.AfterFunc\<close> is \<open>run_TimerFire\<close>, one round of the goroutine of a periodic timer is \<open>tick\<close>.
  \<open>timers_ok\<close> says which part of the runtime owns which armed timer; it is the invariant the timers
  share with the reconnect schedule.
\<close>

section \<open>Operations\<close>

definition stop_opt :: "nat option \<Rightarrow> ('h, 'v, 'u) Runtime \<Rightarrow> ('h, 'v, 'u) Runtime" where
  "stop_opt t r = (case t of None \<Rightarrow> r | Some t \<Rightarrow> Stop t r)"

definition setupTimer :: "pid \<Rightarrow> 'v Timer \<Rightarrow> int \<Rightarrow> ('h, 'v, 'u) Runtime \<Rightarrow> ('h, 'v, 'u) Runtime" where
  "setupTimer owner timer duration r =
     (case AfterFunc duration (TimerFire owner timer) r of
        (goTimer, r1) \<Rightarrow>
          let r2 = stop_opt (ongoingTimers r1 (TimerID timer)) r1
          in r2\<lparr>ongoingTimers := (ongoingTimers r2)(TimerID timer \<mapsto> goTimer)\<rparr>)"

definition run_TimerFire :: "pid \<Rightarrow> 'v Timer \<Rightarrow> ('h, 'v, 'u) Runtime \<Rightarrow> (bool, ('h, 'v, 'u) Runtime) outcome" where
  "run_TimerFire owner timer r =
     select_proto timerChannel timerChannel_update owner timer
       (r\<lparr>ongoingTimers := map_delete (TimerID timer) (ongoingTimers r)\<rparr>)"

definition cancel_ticker :: "nat \<Rightarrow> ('h, 'v, 'u) Runtime \<Rightarrow> ('h, 'v, 'u) Runtime" where
  "cancel_ticker k r =
     r\<lparr>tickers := (tickers r)[k := (tickers r ! k)\<lparr>tick_cancelled := True\<rparr>]\<rparr>"

definition cancelTimer :: "int \<Rightarrow> ('h, 'v, 'u) Runtime \<Rightarrow> ('h, 'v, 'u) Runtime" where
  "cancelTimer timerID r =
     (let r1 = (case ongoingTimers r timerID of
                  Some goTimer \<Rightarrow>
                    (Stop goTimer r)\<lparr>ongoingTimers := map_delete timerID (ongoingTimers r)\<rparr>
                | None \<Rightarrow> r)
      in case ongoingPeriodicTimers r1 timerID of
           Some cancel \<Rightarrow>
             (cancel_ticker cancel r1)\<lparr>ongoingPeriodicTimers := map_delete timerID (ongoingPeriodicTimers r1)\<rparr>
         | None \<Rightarrow> r1)"

definition setupPeriodicTimer :: "pid \<Rightarrow> 'v Timer \<Rightarrow> int \<Rightarrow> ('h, 'v, 'u) Runtime \<Rightarrow> ('h, 'v, 'u) Runtime" where
  "setupPeriodicTimer owner timer duration r =
     (let r1 = (case ongoingPeriodicTimers r (TimerID timer) of
                  Some existing \<Rightarrow> cancel_ticker existing r
                | None \<Rightarrow> r)
      in r1\<lparr>ongoingPeriodicTimers := (ongoingPeriodicTimers r1)(TimerID timer \<mapsto> length (tickers r1)),
            tickers := tickers r1 @ [\<lparr>tick_owner = owner, tick_timer = timer, tick_every = duration,
                                      tick_cancelled = False, tick_ended = False\<rparr>]\<rparr>)"

text \<open>The goroutine ends: its deferred cancel runs.\<close>

definition end_ticker :: "nat \<Rightarrow> ('h, 'v, 'u) Runtime \<Rightarrow> ('h, 'v, 'u) Runtime" where
  "end_ticker k r =
     r\<lparr>tickers := (tickers r)[k := (tickers r ! k)\<lparr>tick_cancelled := True, tick_ended := True\<rparr>]\<rparr>"

text \<open>One round of the goroutine of periodic timer \<open>k\<close> when its ticker has ticked; creating a ticker
  with a duration that is not positive panics.\<close>

definition tick :: "nat \<Rightarrow> ('h, 'v, 'u) Runtime \<Rightarrow> (bool, ('h, 'v, 'u) Runtime) outcome" where
  "tick k r =
     (let tk = tickers r ! k; fin = rt_done r \<or> tick_cancelled tk in
      if tick_ended tk then Return False r
      else if tick_every tk \<le> 0 then Panic ''non-positive interval for NewTicker'' r
      else if fin \<and> rt_preferDone r then Return False (end_ticker k r)
      else (case select_send fin (rt_preferDone r) (tick_timer tk) (timerChannel (proto r (tick_owner tk))) of
              Sent c \<Rightarrow> Return True (upd_proto (tick_owner tk) (timerChannel_update (\<lambda>_. c)) r)
            | CtxDone \<Rightarrow> Return False (end_ticker k r)
            | Waits \<Rightarrow> Block r))"

lemmas timer_defs [go_defs] =
  stop_opt_def setupTimer_def run_TimerFire_def cancel_ticker_def cancelTimer_def
  setupPeriodicTimer_def end_ticker_def tick_def

section \<open>Ownership of armed timers\<close>

definition timers_ok :: "('h, 'v, 'u) Runtime \<Rightarrow> bool" where
  "timers_ok r \<longleftrightarrow>
     (\<forall>t x. armed r t = Some x \<longrightarrow> t < nextHandle r) \<and>
     (\<forall>t due host. armed r t = Some (due, RetryFire host) \<longrightarrow>
        (\<exists>st. connectionRetries r host = Some st \<and> rs_timer st = Some t)) \<and>
     (\<forall>host st t. connectionRetries r host = Some st \<longrightarrow> rs_timer st = Some t \<longrightarrow>
        t < nextHandle r \<and> (\<forall>due f. armed r t = Some (due, f) \<longrightarrow> f = RetryFire host)) \<and>
     (\<forall>i t. ongoingTimers r i = Some t \<longrightarrow>
        t < nextHandle r \<and> (\<forall>due f. armed r t = Some (due, f) \<longrightarrow> (\<exists>p tm. f = TimerFire p tm \<and> TimerID tm = i)))"

lemma timers_okD:
  assumes "timers_ok r"
  shows "armed r t = Some x \<Longrightarrow> t < nextHandle r"
    and "armed r t = Some (due, RetryFire host) \<Longrightarrow>
           \<exists>st. connectionRetries r host = Some st \<and> rs_timer st = Some t"
    and "connectionRetries r host = Some st \<Longrightarrow> rs_timer st = Some t \<Longrightarrow> t < nextHandle r"
    and "connectionRetries r host = Some st \<Longrightarrow> rs_timer st = Some t \<Longrightarrow> armed r t = Some (due, f) \<Longrightarrow>
           f = RetryFire host"
    and "ongoingTimers r i = Some t \<Longrightarrow> t < nextHandle r"
    and "ongoingTimers r i = Some t \<Longrightarrow> armed r t = Some (due, f) \<Longrightarrow>
           \<exists>p tm. f = TimerFire p tm \<and> TimerID tm = i"
  using assms by (unfold timers_ok_def) blast+

lemma timers_okI:
  assumes "\<And>t x. armed r t = Some x \<Longrightarrow> t < nextHandle r"
    and "\<And>t due host. armed r t = Some (due, RetryFire host) \<Longrightarrow>
           \<exists>st. connectionRetries r host = Some st \<and> rs_timer st = Some t"
    and "\<And>host st t. connectionRetries r host = Some st \<Longrightarrow> rs_timer st = Some t \<Longrightarrow>
           t < nextHandle r \<and> (\<forall>due f. armed r t = Some (due, f) \<longrightarrow> f = RetryFire host)"
    and "\<And>i t. ongoingTimers r i = Some t \<Longrightarrow>
           t < nextHandle r \<and> (\<forall>due f. armed r t = Some (due, f) \<longrightarrow> (\<exists>p tm. f = TimerFire p tm \<and> TimerID tm = i))"
  shows "timers_ok r"
  using assms by (simp add: timers_ok_def)

text \<open>Only these five fields matter, so an operation that leaves them alone keeps the invariant.\<close>

lemma timers_ok_cong:
  "armed r' = armed r \<Longrightarrow> nextHandle r' = nextHandle r \<Longrightarrow> connectionRetries r' = connectionRetries r \<Longrightarrow>
   ongoingTimers r' = ongoingTimers r \<Longrightarrow> timers_ok r' = timers_ok r"
  by (simp add: timers_ok_def)

lemma timers_ok_upd_proto [simp]: "timers_ok (upd_proto p f r) = timers_ok r"
  by (rule timers_ok_cong) (simp_all add: upd_proto_def)

lemma timers_ok_sample [simp]: "timers_ok (sample x r) = timers_ok r"
  by (rule timers_ok_cong) (simp_all add: sample_def)

lemma timers_ok_select_proto: "timers_ok (outcome_state (select_proto ch upd p x r)) = timers_ok r"
  using select_proto_outcome [of ch upd p x r] by (metis timers_ok_upd_proto)

lemma timers_ok_fresh:
  assumes "timers_ok r"
  shows "armed r (nextHandle r) = None"
    and "connectionRetries r host = Some st \<Longrightarrow> rs_timer st \<noteq> Some (nextHandle r)"
    and "ongoingTimers r i \<noteq> Some (nextHandle r)"
  using timers_okD(1,3,5) [OF assms] by (metis less_irrefl not_None_eq)+

lemma timers_ok_setupTimer:
  assumes "timers_ok r"
  shows "timers_ok (setupTimer p tm d r)"
  unfolding timers_ok_def setupTimer_def AfterFunc_def stop_opt_def Stop_def Let_def
  using timers_okD [OF assms] timers_ok_fresh [OF assms]
  by (auto split: if_splits option.splits intro: less_SucI)

lemma timers_ok_cancelTimer:
  assumes "timers_ok r"
  shows "timers_ok (cancelTimer i r)"
  unfolding timers_ok_def cancelTimer_def cancel_ticker_def Stop_def Let_def
  using timers_okD [OF assms]
  by (auto split: if_splits option.splits)

lemma timers_ok_setupPeriodicTimer: "timers_ok r \<Longrightarrow> timers_ok (setupPeriodicTimer p tm d r)"
  by (subst timers_ok_cong [of _ r])
     (auto simp: setupPeriodicTimer_def cancel_ticker_def Let_def split: option.splits)

lemma timers_ok_run_TimerFire: "timers_ok r \<Longrightarrow> timers_ok (outcome_state (run_TimerFire p tm r))"
  unfolding run_TimerFire_def timers_ok_select_proto by (auto simp: timers_ok_def)

lemma timers_ok_fire: "timers_ok r \<Longrightarrow> timers_ok (fire t r)"
  by (auto simp: timers_ok_def fire_def split: option.splits)

lemma timers_ok_end_ticker [simp]: "timers_ok (end_ticker k r) = timers_ok r"
  by (rule timers_ok_cong) (simp_all add: end_ticker_def)

lemma timers_ok_tick: "timers_ok r \<Longrightarrow> timers_ok (outcome_state (tick k r))"
  by (auto simp: tick_def Let_def split: select_result.splits)

section \<open>Properties\<close>

text \<open>C39. A one-shot timer reaches its owner once: set up in a live runtime, and its deadline reached
  with nothing else done, it fires, its function puts it at the end of the owner's channel (when that
  has room), and afterwards nothing of it is left: no armed timer, no table entry.\<close>

theorem one_shot_timer_delivered:
  assumes "timers_ok r" and "\<not> rt_done r" and "p < length (protocols r)"
    and "\<not> chan_full (timerChannel (proto r p))" and "d \<le> e"
    and "r1 = setupTimer p tm d r" and "r2 = fire (nextHandle r) (r1\<lparr>rt_now := rt_now r + e\<rparr>)"
  shows "spawned r2 = spawned r @ [TimerFire p tm] \<and>
         (\<exists>r3. run_TimerFire p tm r2 = Return True r3 \<and>
            chan_buf (timerChannel (proto r3 p)) = chan_buf (timerChannel (proto r p)) @ [tm] \<and>
            (\<forall>q < length (protocols r). q \<noteq> p \<longrightarrow> proto r3 q = proto r q) \<and>
            armed r3 (nextHandle r) = None \<and> ongoingTimers r3 (TimerID tm) = None)"
proof -
  have r1: "armed r1 (nextHandle r) = Some (rt_now r + d, TimerFire p tm)"
    using timers_ok_fresh(3) [OF assms(1), of "TimerID tm"] unfolding assms(6)
    by (auto simp: setupTimer_def AfterFunc_def stop_opt_def Stop_def split: option.splits)
  have same: "protocols r1 = protocols r" "rt_done r1 = rt_done r" "spawned r1 = spawned r"
    unfolding assms(6)
    by (auto simp: setupTimer_def AfterFunc_def stop_opt_def Stop_def split: option.splits)
  have r2: "r2 = r1\<lparr>rt_now := rt_now r + e, armed := map_delete (nextHandle r) (armed r1),
                    spawned := spawned r @ [TimerFire p tm]\<rparr>"
    using r1 assms(5) by (simp add: assms(7) fire_def same)
  show ?thesis unfolding r2 run_TimerFire_def using assms(2,3,4)
    by (simp add: select_proto_room same upd_proto_def)
qed

text \<open>One runtime, one protocol \<open>0\<close> with room in its channels: the state the witnesses start from.\<close>

definition idle_impl :: "nat Protocol" where
  "idle_impl = \<lparr>impl_type = ''*idle'', impl_Start = 0, impl_Init = 1, impl_OnSessionConnected = None,
     impl_OnSessionDisconnected = None, impl_OnSessionGivenUp = None, impl_OnPanic = None\<rparr>"

definition one_proto :: "(nat, nat, unit) Runtime" where
  "one_proto = Register idle_impl (New (NewHost 1 ''a'') [WithTCPTransport] () False)"

lemmas one_proto_defs =
  one_proto_def idle_impl_def Register_def registerProtocol_def New_def newProtoProtocol_def
  WithTCPTransport_def defaultProtoChannelBuffer_def chan_full_def

lemma one_proto_sel [simp]:
  "\<not> rt_done one_proto" "length (protocols one_proto) = 1" "nextHandle one_proto = 0" "rt_now one_proto = 0"
  "spawned one_proto = []" "\<not> chan_full (timerChannel (proto one_proto 0))"
  by (simp_all add: one_proto_defs)

lemma timers_ok_New [simp]: "timers_ok (New me [WithTCPTransport] mem pd)"
  by (simp add: timers_ok_def New_def WithTCPTransport_def)

lemma timers_ok_Register [simp]: "timers_ok (Register impl r) = timers_ok r"
  by (rule timers_ok_cong) (simp_all add: Register_def registerProtocol_def)

lemma timers_ok_one_proto [simp]: "timers_ok one_proto"
  by (simp add: one_proto_def)

theorem one_shot_timer_delivered_witness:
  "spawned (fire 0 ((setupTimer 0 \<lparr>TimerID = 7, timer_value = 3\<rparr> 5 one_proto)\<lparr>rt_now := 5\<rparr>))
     = [TimerFire 0 \<lparr>TimerID = 7, timer_value = 3\<rparr>]"
  using one_shot_timer_delivered [OF timers_ok_one_proto _ _ _ _ refl refl, of 0 5 5 "\<lparr>TimerID = 7, timer_value = 3\<rparr>"]
  by simp

text \<open>Timer identifiers are shared by all protocols of a runtime: when two protocols set up
  one-shot timers with the same identifier, the first protocol's timer is stopped and its channel never
  receives it; and cancelling the identifier in one protocol stops the other's timer.\<close>

theorem timer_ids_shared_across_protocols:
  assumes "timers_ok r" and "TimerID tm1 = TimerID tm2" and "p \<noteq> q"
    and "r2 = setupTimer q tm2 d2 (setupTimer p tm1 d1 r)"
  shows "armed r2 (nextHandle r) = None \<and>
         armed r2 (Suc (nextHandle r)) = Some (rt_now r + d2, TimerFire q tm2) \<and>
         armed (cancelTimer (TimerID tm1) r2) (Suc (nextHandle r)) = None"
  using assms(2) timers_ok_fresh(3) [OF assms(1), of "TimerID tm1"] unfolding assms(4)
  by (auto simp: timer_defs AfterFunc_def Stop_def Let_def split: option.splits)

theorem timer_ids_shared_across_protocols_witness:
  "armed (setupTimer 1 \<lparr>TimerID = 7, timer_value = 4\<rparr> 9 (setupTimer 0 \<lparr>TimerID = 7, timer_value = 3\<rparr> 5 one_proto)) 0
     = None"
  using timer_ids_shared_across_protocols
      [OF timers_ok_one_proto _ _ refl, of "\<lparr>TimerID = 7, timer_value = 3\<rparr>" "\<lparr>TimerID = 7, timer_value = 4\<rparr>" 0 1 9 5]
  by simp

text \<open>C40. The table can lose a live timer: a timer has fired and its goroutine has not run yet, its
  protocol sets up a new timer with the identifier, then the goroutine of the old one runs and deletes
  the entry of the new one. The new timer stays armed, and cancelling the identifier does not stop it.\<close>

theorem stale_callback_orphans_timer:
  assumes "timers_ok r" and "TimerFire p old \<in> set (spawned r)" and "TimerID old = TimerID tm"
    and "run_TimerFire p old (setupTimer p tm d r) = Return b r2"
  shows "armed r2 (nextHandle r) = Some (rt_now r + d, TimerFire p tm) \<and>
         ongoingTimers r2 (TimerID tm) = None \<and>
         armed (cancelTimer (TimerID tm) r2) (nextHandle r) = Some (rt_now r + d, TimerFire p tm)"
proof -
  let ?s = "setupTimer p tm d r"
  let ?s' = "?s\<lparr>ongoingTimers := map_delete (TimerID tm) (ongoingTimers ?s)\<rparr>"
  have a: "armed ?s (nextHandle r) = Some (rt_now r + d, TimerFire p tm)"
    using timers_ok_fresh(3) [OF assms(1), of "TimerID tm"]
    by (auto simp: setupTimer_def AfterFunc_def stop_opt_def Stop_def split: option.splits)
  have "r2 = outcome_state (select_proto timerChannel timerChannel_update p old ?s')"
    using assms(4) by (simp add: run_TimerFire_def assms(3))
  then have "armed r2 = armed ?s" "ongoingTimers r2 (TimerID tm) = None"
    using select_proto_outcome [of timerChannel timerChannel_update p old ?s'] by (auto simp: upd_proto_def)
  then show ?thesis using a by (simp add: cancelTimer_def cancel_ticker_def split: option.splits)
qed

theorem stale_callback_orphans_timer_witness:
  "armed (cancelTimer 7 (outcome_state (run_TimerFire 0 \<lparr>TimerID = 7, timer_value = 3\<rparr>
      (setupTimer 0 \<lparr>TimerID = 7, timer_value = 4\<rparr> 9
        (one_proto\<lparr>spawned := [TimerFire 0 \<lparr>TimerID = 7, timer_value = 3\<rparr>]\<rparr>))))) 0
     = Some (9, TimerFire 0 \<lparr>TimerID = 7, timer_value = 4\<rparr>)"
proof -
  let ?r = "one_proto\<lparr>spawned := [TimerFire 0 \<lparr>TimerID = 7, timer_value = 3\<rparr>]\<rparr>"
  let ?o = "\<lparr>TimerID = 7, timer_value = 3\<rparr>" and ?t = "\<lparr>TimerID = 7, timer_value = 4\<rparr>"
  have ok: "timers_ok ?r" by (subst timers_ok_cong [of _ one_proto]) simp_all
  have "\<exists>r2. run_TimerFire 0 ?o (setupTimer 0 ?t 9 ?r) = Return True r2"
    by (simp add: timer_defs one_proto_defs AfterFunc_def select_proto_def)
  then obtain r2 where r2: "run_TimerFire 0 ?o (setupTimer 0 ?t 9 ?r) = Return True r2" ..
  then show ?thesis using stale_callback_orphans_timer [OF ok _ _ r2] by simp
qed

end
