(* ===== verification/Reconnect.thy ===== *)
theory Reconnect
  imports Timers
begin

text \<open>
  \<^verbatim>\<open>connect\<close> and \<^verbatim>\<open>disconnect\<close> of \<^verbatim>\<open>pkg/protorun/runtime.go\<close> and the reconnect
  schedule of \<^verbatim>\<open>retry.go\<close>. The random number of a backoff is the argument \<open>rnd\<close>; \<open>run_RetryFire\<close> is
  the function given to \<^verbatim>\<open>time.AfterFunc\<close>. A request handed to the session layer is appended to
  \<open>sessionLayer\<close>.
\<close>

section \<open>Operations\<close>

definition ErrNoSessionLayer :: go_error where
  "ErrNoSessionLayer = Sentinel ''protorun: session layer not registered''"

abbreviation context_Canceled :: go_error where "context_Canceled \<equiv> Sentinel ''context canceled''"

definition session_request :: "session_input \<Rightarrow> ('h, 'v, 'u) Runtime \<Rightarrow> ('h, 'v, 'u) Runtime" where
  "session_request i r = r\<lparr>sessionLayer := map_option (\<lambda>l. l @ [i]) (sessionLayer r)\<rparr>"

definition rt_connect :: "Host \<Rightarrow> ('h, 'v, 'u) Runtime \<Rightarrow> go_error option \<times> ('h, 'v, 'u) Runtime" where
  "rt_connect host r =
     (if sessionLayer r = None then (Some ErrNoSessionLayer, r)
      else if rt_done r then (Some context_Canceled, r)
      else (None, session_request (ConnectReq host) r))"

definition stopRetryFor :: "Host \<Rightarrow> ('h, 'v, 'u) Runtime \<Rightarrow> ('h, 'v, 'u) Runtime" where
  "stopRetryFor host r =
     (case connectionRetries r host of
        Some st \<Rightarrow> (stop_opt (rs_timer st) r)\<lparr>connectionRetries := map_delete host (connectionRetries r)\<rparr>
      | None \<Rightarrow> r)"

definition rt_disconnect :: "Host \<Rightarrow> ('h, 'v, 'u) Runtime \<Rightarrow> go_error option \<times> ('h, 'v, 'u) Runtime" where
  "rt_disconnect host r =
     (if sessionLayer r = None then (Some ErrNoSessionLayer, r)
      else let r1 = stopRetryFor host r
           in if rt_done r1 then (Some context_Canceled, r1)
              else (None, session_request (DisconnectReq host) r1))"

definition connectWithRetry :: "Host \<Rightarrow> ('h, 'v, 'u) Runtime \<Rightarrow> go_error option \<times> ('h, 'v, 'u) Runtime" where
  "connectWithRetry host r =
     (if connectionRetries r host \<noteq> None then (None, r)
      else rt_connect host
             (r\<lparr>connectionRetries := (connectionRetries r)
                  (host \<mapsto> \<lparr>rs_policy = withDefaults (retryPolicy r), rs_attempt = 0, rs_timer = None\<rparr>)\<rparr>))"

definition onSessionUpForRetry :: "Host \<Rightarrow> ('h, 'v, 'u) Runtime \<Rightarrow> bool \<times> ('h, 'v, 'u) Runtime" where
  "onSessionUpForRetry host r =
     (case connectionRetries r host of
        None \<Rightarrow> (False, r)
      | Some st \<Rightarrow>
          (True, (stop_opt (rs_timer st) r)\<lparr>connectionRetries := map_delete host (connectionRetries r)\<rparr>))"

definition onSessionDownForRetry :: "real \<Rightarrow> Host \<Rightarrow> ('h, 'v, 'u) Runtime
    \<Rightarrow> (bool \<times> int) \<times> ('h, 'v, 'u) Runtime" where
  "onSessionDownForRetry rnd host r =
     (case connectionRetries r host of
        None \<Rightarrow> ((False, 0), r)
      | Some st \<Rightarrow>
          let r1 = stop_opt (rs_timer st) r;
              st1 = st\<lparr>rs_timer := None, rs_attempt := rs_attempt st + 1\<rparr>
          in if MaxAttempts (rs_policy st1) > 0 \<and> rs_attempt st1 \<ge> MaxAttempts (rs_policy st1)
             then ((True, rs_attempt st1), r1\<lparr>connectionRetries := map_delete host (connectionRetries r1)\<rparr>)
             else let delay = nextDelay (rs_policy st1) (rs_attempt st1 - 1) rnd
                  in case AfterFunc delay (RetryFire host) r1 of
                       (t, r2) \<Rightarrow> ((False, 0),
                         r2\<lparr>connectionRetries := (connectionRetries r2)(host \<mapsto> st1\<lparr>rs_timer := Some t\<rparr>)\<rparr>))"

definition run_RetryFire :: "Host \<Rightarrow> ('h, 'v, 'u) Runtime \<Rightarrow> ('h, 'v, 'u) Runtime" where
  "run_RetryFire host r =
     (if connectionRetries r host = None then r
      else if rt_done r then r
      else snd (rt_connect host r))"

text \<open>The loop over the map stops every timer and empties the map, in any order.\<close>

definition retryTeardown :: "('h, 'v, 'u) Runtime \<Rightarrow> ('h, 'v, 'u) Runtime" where
  "retryTeardown r =
     r\<lparr>armed := armed r |` (- {t. \<exists>host st. connectionRetries r host = Some st \<and> rs_timer st = Some t}),
       connectionRetries := Map.empty\<rparr>"

lemmas retry_defs [go_defs] =
  session_request_def rt_connect_def stopRetryFor_def rt_disconnect_def connectWithRetry_def
  onSessionUpForRetry_def onSessionDownForRetry_def run_RetryFire_def retryTeardown_def

section \<open>The timers stay owned\<close>

lemma timers_ok_session_request [simp]: "timers_ok (session_request i r) = timers_ok r"
  by (rule timers_ok_cong) (simp_all add: session_request_def)

lemma timers_ok_rt_connect [simp]: "timers_ok (snd (rt_connect host r)) = timers_ok r"
  by (simp add: rt_connect_def)

lemma retry_timer_unique:
  "timers_ok r \<Longrightarrow> connectionRetries r host = Some st \<Longrightarrow> armed r t = Some (due, RetryFire host) \<Longrightarrow>
   rs_timer st = Some t"
  using timers_okD(2) by fastforce

lemma no_orphan_retry:
  "timers_ok r \<Longrightarrow> connectionRetries r host = None \<Longrightarrow> armed r t \<noteq> Some (due, RetryFire host)"
  using timers_okD(2) by fastforce

lemma timers_ok_untrack:
  assumes "timers_ok r" and "connectionRetries r host = Some st"
  shows "timers_ok ((stop_opt (rs_timer st) r)\<lparr>connectionRetries := map_delete host (connectionRetries r)\<rparr>)"
    (is "timers_ok ?r")
proof -
  have a: "armed r t = Some x \<and> rs_timer st \<noteq> Some t" if "armed ?r t = Some x" for t x
    using that by (auto simp: stop_opt_def Stop_def split: option.splits if_splits)
  have s: "nextHandle ?r = nextHandle r" "ongoingTimers ?r = ongoingTimers r"
    "connectionRetries ?r = map_delete host (connectionRetries r)"
    by (simp_all add: stop_opt_def Stop_def split: option.splits)
  note d = timers_okD [OF assms(1)]
  show ?thesis
  proof (rule timers_okI)
    show "t < nextHandle ?r" if "armed ?r t = Some x" for t x using a [OF that] d(1) s(1) by simp
    show "\<exists>st. connectionRetries ?r h = Some st \<and> rs_timer st = Some t"
      if "armed ?r t = Some (due, RetryFire h)" for t due h
      using a [OF that] d(2) [of t due h] retry_timer_unique [OF assms, of t due] s(3) by (cases "h = host") auto
    show "t < nextHandle ?r \<and> (\<forall>due f. armed ?r t = Some (due, f) \<longrightarrow> f = RetryFire h)"
      if "connectionRetries ?r h = Some st'" and "rs_timer st' = Some t" for h st' t
      using that a d(3,4) s by (metis map_delete_apply option.distinct(1))
    show "t < nextHandle ?r \<and> (\<forall>due f. armed ?r t = Some (due, f) \<longrightarrow> (\<exists>p tm. f = TimerFire p tm \<and> TimerID tm = i))"
      if "ongoingTimers ?r i = Some t" for i t
      using that a d(5,6) s by metis
  qed
qed

lemma timers_ok_arm_retry:
  assumes "timers_ok r" and "connectionRetries r host = None" and "rs_timer st = Some (nextHandle r)"
  shows "timers_ok ((snd (AfterFunc d (RetryFire host) r))\<lparr>connectionRetries := (connectionRetries r)(host \<mapsto> st)\<rparr>)"
  unfolding timers_ok_def AfterFunc_def
  using timers_okD [OF assms(1)] timers_ok_fresh [OF assms(1)] assms(2,3) no_orphan_retry [OF assms(1,2)]
  by (auto split: if_splits intro: less_SucI)

lemma timers_ok_stopRetryFor: "timers_ok r \<Longrightarrow> timers_ok (stopRetryFor host r)"
  by (auto simp: stopRetryFor_def timers_ok_untrack split: option.splits)

lemma timers_ok_rt_disconnect: "timers_ok r \<Longrightarrow> timers_ok (snd (rt_disconnect host r))"
  by (simp add: rt_disconnect_def timers_ok_stopRetryFor Let_def)

lemma timers_ok_connectWithRetry: "timers_ok r \<Longrightarrow> timers_ok (snd (connectWithRetry host r))"
proof (cases "connectionRetries r host")
  case None
  assume "timers_ok r"
  then have "timers_ok (r\<lparr>connectionRetries := (connectionRetries r)
      (host \<mapsto> \<lparr>rs_policy = withDefaults (retryPolicy r), rs_attempt = 0, rs_timer = None\<rparr>)\<rparr>)"
    unfolding timers_ok_def using None no_orphan_retry [OF \<open>timers_ok r\<close> None] by auto
  with None show ?thesis by (simp add: connectWithRetry_def)
qed (simp add: connectWithRetry_def)

lemma timers_ok_onSessionUpForRetry: "timers_ok r \<Longrightarrow> timers_ok (snd (onSessionUpForRetry host r))"
  by (auto simp: onSessionUpForRetry_def timers_ok_untrack split: option.splits)

lemma onSessionDownForRetry_tracked:
  assumes "connectionRetries r host = Some st"
    and "u = (stop_opt (rs_timer st) r)\<lparr>connectionRetries := map_delete host (connectionRetries r)\<rparr>"
  shows "onSessionDownForRetry rnd host r =
     (if MaxAttempts (rs_policy st) > 0 \<and> rs_attempt st + 1 \<ge> MaxAttempts (rs_policy st)
      then ((True, rs_attempt st + 1), u)
      else ((False, 0),
        (snd (AfterFunc (nextDelay (rs_policy st) (rs_attempt st) rnd) (RetryFire host) u))
          \<lparr>connectionRetries := (connectionRetries u)
             (host \<mapsto> st\<lparr>rs_attempt := rs_attempt st + 1, rs_timer := Some (nextHandle u)\<rparr>)\<rparr>))"
  using assms
  by (simp add: onSessionDownForRetry_def Let_def stop_opt_def Stop_def AfterFunc_def map_delete_def
      split: option.splits)

lemma timers_ok_onSessionDownForRetry:
  assumes "timers_ok r"
  shows "timers_ok (snd (onSessionDownForRetry rnd host r))"
proof (cases "connectionRetries r host")
  case None
  then show ?thesis using assms by (simp add: onSessionDownForRetry_def)
next
  case (Some st)
  let ?u = "(stop_opt (rs_timer st) r)\<lparr>connectionRetries := map_delete host (connectionRetries r)\<rparr>"
  have "timers_ok ?u" by (rule timers_ok_untrack [OF assms Some])
  moreover from this have "timers_ok ((snd (AfterFunc d (RetryFire host) ?u))
      \<lparr>connectionRetries := (connectionRetries ?u)(host \<mapsto> st\<lparr>rs_attempt := k, rs_timer := Some (nextHandle ?u)\<rparr>)\<rparr>)"
    for d k by (rule timers_ok_arm_retry) simp_all
  ultimately show ?thesis
    unfolding onSessionDownForRetry_tracked [OF Some refl] by (simp del: select_convs update_convs)
qed

lemma timers_ok_run_RetryFire: "timers_ok r \<Longrightarrow> timers_ok (run_RetryFire host r)"
  by (simp add: run_RetryFire_def)

lemma timers_ok_retryTeardown: "timers_ok r \<Longrightarrow> timers_ok (retryTeardown r)"
  unfolding timers_ok_def retryTeardown_def
  by (simp add: restrict_map_def split: if_splits) blast

section \<open>The schedule\<close>

text \<open>A run of failures of one host, with the draw of each backoff.\<close>

definition session_failures :: "Host \<Rightarrow> real list \<Rightarrow> ('h, 'v, 'u) Runtime \<Rightarrow> ('h, 'v, 'u) Runtime" where
  "session_failures host rnds r = fold (\<lambda>rnd r. snd (onSessionDownForRetry rnd host r)) rnds r"

definition retries_left :: "RetryPolicy \<Rightarrow> nat \<Rightarrow> bool" where
  "retries_left p k \<longleftrightarrow> MaxAttempts p \<le> 0 \<or> int k < MaxAttempts p"

lemma retries_left_Suc: "retries_left p (Suc k) \<Longrightarrow> retries_left p k"
  by (auto simp: retries_left_def)

lemma stop_opt_sel [simp]:
  "rt_now (stop_opt t r) = rt_now r" "nextHandle (stop_opt t r) = nextHandle r"
  "sessionLayer (stop_opt t r) = sessionLayer r" "rt_done (stop_opt t r) = rt_done r"
  "connectionRetries (stop_opt t r) = connectionRetries r"
  by (simp_all add: stop_opt_def Stop_def split: option.splits)

text \<open>A failure of a tracked host with attempts left.\<close>

lemma onSessionDownForRetry_again:
  assumes "connectionRetries r host = Some st" and "rs_attempt st = int k"
    and "retries_left (rs_policy st) (Suc k)"
  shows "\<exists>t r'. onSessionDownForRetry rnd host r = ((False, 0), r') \<and> rt_now r' = rt_now r \<and>
    rt_done r' = rt_done r \<and> sessionLayer r' = sessionLayer r \<and>
    connectionRetries r' host = Some \<lparr>rs_policy = rs_policy st, rs_attempt = int (Suc k), rs_timer = Some t\<rparr> \<and>
    armed r' t = Some (rt_now r + nextDelay (rs_policy st) (int k) rnd, RetryFire host)"
proof -
  have "\<not> (MaxAttempts (rs_policy st) > 0 \<and> rs_attempt st + 1 \<ge> MaxAttempts (rs_policy st))"
    using assms(2,3) by (auto simp: retries_left_def)
  then show ?thesis unfolding onSessionDownForRetry_tracked [OF assms(1) refl]
    using assms(2) by (intro exI [of _ "nextHandle r"]) (cases st, simp add: AfterFunc_def)
qed

lemma session_failures_tracked:
  assumes "connectionRetries r host = Some st" and "rs_attempt st = int k"
    and "retries_left (rs_policy st) (k + length rnds)"
  shows "\<exists>st'. connectionRetries (session_failures host rnds r) host = Some st' \<and>
    rs_policy st' = rs_policy st \<and> rs_attempt st' = int (k + length rnds) \<and>
    rt_now (session_failures host rnds r) = rt_now r \<and> rt_done (session_failures host rnds r) = rt_done r \<and>
    sessionLayer (session_failures host rnds r) = sessionLayer r"
  using assms
proof (induction rnds arbitrary: r st k)
  case Nil
  then show ?case by (simp add: session_failures_def)
next
  case (Cons rnd rnds)
  have left: "retries_left (rs_policy st) (Suc k)"
    using Cons.prems(3) by (auto simp: retries_left_def)
  obtain r' t where r': "onSessionDownForRetry rnd host r = ((False, 0), r')"
      "rt_now r' = rt_now r" "rt_done r' = rt_done r" "sessionLayer r' = sessionLayer r"
      "connectionRetries r' host = Some \<lparr>rs_policy = rs_policy st, rs_attempt = int (Suc k), rs_timer = Some t\<rparr>"
    using onSessionDownForRetry_again [OF Cons.prems(1,2) left, of rnd] by blast
  show ?case
    using Cons.IH [OF r'(5), of "Suc k"] Cons.prems(3) r' by (simp add: session_failures_def)
qed

lemma timers_ok_session_failures: "timers_ok r \<Longrightarrow> timers_ok (session_failures host rnds r)"
  unfolding session_failures_def
  by (induction rnds arbitrary: r) (simp_all add: timers_ok_onSessionDownForRetry)

lemma connectWithRetry_new:
  assumes "connectionRetries r host = None" and "sessionLayer r = Some l" and "\<not> rt_done r"
  shows "\<exists>r'. connectWithRetry host r = (None, r') \<and> sessionLayer r' = Some (l @ [ConnectReq host]) \<and>
    rt_now r' = rt_now r \<and> rt_done r' = rt_done r \<and>
    connectionRetries r' host = Some \<lparr>rs_policy = withDefaults (retryPolicy r), rs_attempt = 0, rs_timer = None\<rparr>"
  using assms by (simp add: connectWithRetry_def rt_connect_def session_request_def)

section \<open>Properties\<close>







end
