(* ===== verification/Messaging.thy ===== *)
theory Messaging
  imports Reconnect
begin

text \<open>
  The message path of \<^verbatim>\<open>pkg/protorun\<close>: registration of codecs and handlers on a protocol's
  context (\<^verbatim>\<open>protocol.go\<close>), \<^verbatim>\<open>sendMessage\<close> (\<^verbatim>\<open>message.go\<close>) and \<^verbatim>\<open>processMessage\<close>
  (\<^verbatim>\<open>runtime.go\<close>). The first argument \<open>env\<close> is what reflection says of the user's values.
\<close>

section \<open>Strict-mode guards\<close>

definition require :: "string option \<Rightarrow> ('h, 'v, 'u) Runtime \<Rightarrow> (unit, ('h, 'v, 'u) Runtime) outcome" where
  "require guard r = (case guard of None \<Rightarrow> Return () r | Some msg \<Rightarrow> Panic msg r)"

definition require_register :: "pid \<Rightarrow> string \<Rightarrow> ('h, 'v, 'u) Runtime \<Rightarrow> (unit, ('h, 'v, 'u) Runtime) outcome" where
  "require_register p action r =
     require (requireRegisterPhase (bound (proto r p) \<and> strict r) (loadPhase p r) action) r"

definition require_active :: "pid \<Rightarrow> string \<Rightarrow> ('h, 'v, 'u) Runtime \<Rightarrow> (unit, ('h, 'v, 'u) Runtime) outcome" where
  "require_active p action r =
     require (requireActivePhase (bound (proto r p) \<and> strict r) (loadPhase p r) action) r"

section \<open>Registration\<close>

definition registerCodec :: "pid \<Rightarrow> wire_id \<Rightarrow> 'v codec \<Rightarrow> ('h, 'v, 'u) Runtime
    \<Rightarrow> (unit, ('h, 'v, 'u) Runtime) outcome" where
  "registerCodec p wireID c r =
     and_then (require_register p ''RegisterCodec'' r) (\<lambda>_ r.
       if strict r \<and> codecRegistry_Get (codecs r) wireID \<noteq> None
       then Panic (strictPanic ''RegisterCodec for wireID called twice'') r
       else Return () ((upd_proto p (\<lambda>q. q\<lparr>proto_codecs := (proto_codecs q)(wireID \<mapsto> c)\<rparr>) r)
                         \<lparr>codecs := codecRegistry_Set wireID p (codecs r)\<rparr>))"

definition registerHandler :: "pid \<Rightarrow> wire_id \<Rightarrow> 'h closure \<Rightarrow> ('h, 'v, 'u) Runtime
    \<Rightarrow> (unit, ('h, 'v, 'u) Runtime) outcome" where
  "registerHandler p wireID fn r =
     and_then (require_register p ''RegisterHandler'' r) (\<lambda>_ r.
       if strict r \<and> proto_handlers (proto r p) wireID \<noteq> None
       then Panic (strictPanic ''RegisterHandler for wireID called twice on the same protocol'') r
       else Return () (upd_proto p (\<lambda>q. q\<lparr>proto_handlers := (proto_handlers q)(wireID \<mapsto> fn)\<rparr>) r))"

text \<open>The generic helpers; the type parameter is \<^term>\<open>None\<close> for an interface type, for which
  \<^verbatim>\<open>WireID\<close> panics.\<close>

definition with_WireID :: "'v go_values \<Rightarrow> go_type option \<Rightarrow> ('h, 'v, 'u) Runtime
    \<Rightarrow> (wire_id \<Rightarrow> go_type \<Rightarrow> ('a, ('h, 'v, 'u) Runtime) outcome) \<Rightarrow> ('a, ('h, 'v, 'u) Runtime) outcome" where
  "with_WireID env T r k =
     (case (WireID env T, T) of
        (Some w, Some t) \<Rightarrow> k w t
      | _ \<Rightarrow> Panic ''protorun: WireID called with non-instantiable type parameter'' r)"

definition RegisterCodec :: "'v go_values \<Rightarrow> pid \<Rightarrow> go_type option \<Rightarrow> ('v \<Rightarrow> byte list result)
    \<Rightarrow> (byte list \<Rightarrow> 'v result) \<Rightarrow> ('h, 'v, 'u) Runtime \<Rightarrow> (unit, ('h, 'v, 'u) Runtime) outcome" where
  "RegisterCodec env p M Marshal Unmarshal r =
     with_WireID env M r (\<lambda>w t. registerCodec p w (codecAdapter env t Marshal Unmarshal) r)"

definition RegisterHandler :: "'v go_values \<Rightarrow> pid \<Rightarrow> go_type option \<Rightarrow> 'h
    \<Rightarrow> ('h, 'v, 'u) Runtime \<Rightarrow> (unit, ('h, 'v, 'u) Runtime) outcome" where
  "RegisterHandler env p M fn r = with_WireID env M r (\<lambda>w t. registerHandler p w (HandlerFn t fn) r)"

section \<open>Sending\<close>

definition ErrNoCodec :: go_error where
  "ErrNoCodec = Sentinel ''protorun: no codec registered for message type''"

text \<open>Without a session layer the call on the nil pointer panics.\<close>

definition sendMessage :: "'v go_values \<Rightarrow> 'v \<Rightarrow> Host \<Rightarrow> ('h, 'v, 'u) Runtime
    \<Rightarrow> (go_error option, ('h, 'v, 'u) Runtime) outcome" where
  "sendMessage env msg sendTo r0 =
     (let wireID = fst (wireIDOf env msg (wireIDCache r0));
          r = r0\<lparr>wireIDCache := snd (wireIDOf env msg (wireIDCache r0))\<rparr>
      in case codecRegistry_Get (codecs r) wireID of
           None \<Rightarrow> Return (Some (Errorf ''%w: %T (wireID=%#x)'' [ErrNoCodec])) r
         | Some p \<Rightarrow>
             (case proto_codecs (proto r p) wireID of
                None \<Rightarrow> Return (Some (Errorf ''sendMessage: codec lookup raced (wireID=%#x)'' [])) r
              | Some c \<Rightarrow>
                  (case marshal c msg of
                     Inl err \<Rightarrow> Return (Some err) r
                   | Inr payload \<Rightarrow>
                       (case sessionLayer r of
                          None \<Rightarrow> Panic ''invalid memory address or nil pointer dereference'' r
                        | Some _ \<Rightarrow> Return None (session_request (SendReq (le_put 8 wireID @ payload) sendTo) r)))))"

section \<open>Receiving\<close>

definition processMessage :: "byte list \<Rightarrow> Host \<Rightarrow> ('h, 'v, 'u) Runtime
    \<Rightarrow> (unit, ('h, 'v, 'u) Runtime) outcome" where
  "processMessage buffer from r =
     (case Buffer_ReadFull 8 buffer of
        (Inl err, _) \<Rightarrow> Return () (sample (Counter ''protorun.message.dropped_header'' 1 []) r)
      | (Inr hdr, rest) \<Rightarrow>
          (let wireID = (le_get hdr :: wire_id) in
          case codecRegistry_Get (codecs r) wireID of
            None \<Rightarrow> Return () (sample (Counter ''protorun.message.dropped_unknown_id'' 1 [WireIDAttr wireID]) r)
          | Some p \<Rightarrow>
              (case proto_codecs (proto r p) wireID of
                 None \<Rightarrow> Return () (sample (Counter ''protorun.message.dropped_codec_race'' 1 [WireIDAttr wireID]) r)
               | Some c \<Rightarrow>
                   (case unmarshal c rest of
                      Inl err \<Rightarrow>
                        Return () (sample (Counter ''protorun.message.dropped_decode_error'' 1 [WireIDAttr wireID]) r)
                    | Inr message \<Rightarrow>
                        let r1 = sample (Counter ''protorun.message.dispatched'' 1 [WireIDAttr wireID]) r
                        in and_then (select_proto messageChannel messageChannel_update p
                                       \<lparr>env_msg = message, env_from = from\<rparr> r1) (\<lambda>_ r. Return () r)))))"

text \<open>The calls of a protocol's context.\<close>

definition ctx_Connect :: "pid \<Rightarrow> Host \<Rightarrow> ('h, 'v, 'u) Runtime \<Rightarrow> (go_error option, ('h, 'v, 'u) Runtime) outcome" where
  "ctx_Connect p host r = and_then (require_active p ''Connect'' r) (\<lambda>_ r. case rt_connect host r of (e, r') \<Rightarrow> Return e r')"

definition ctx_ConnectWithRetry :: "pid \<Rightarrow> Host \<Rightarrow> ('h, 'v, 'u) Runtime \<Rightarrow> (go_error option, ('h, 'v, 'u) Runtime) outcome" where
  "ctx_ConnectWithRetry p host r =
     and_then (require_active p ''ConnectWithRetry'' r) (\<lambda>_ r. case connectWithRetry host r of (e, r') \<Rightarrow> Return e r')"

definition ctx_Disconnect :: "pid \<Rightarrow> Host \<Rightarrow> ('h, 'v, 'u) Runtime \<Rightarrow> (go_error option, ('h, 'v, 'u) Runtime) outcome" where
  "ctx_Disconnect p host r =
     and_then (require_active p ''Disconnect'' r) (\<lambda>_ r. case rt_disconnect host r of (e, r') \<Rightarrow> Return e r')"

definition ctx_Send :: "'v go_values \<Rightarrow> pid \<Rightarrow> 'v \<Rightarrow> Host \<Rightarrow> ('h, 'v, 'u) Runtime
    \<Rightarrow> (go_error option, ('h, 'v, 'u) Runtime) outcome" where
  "ctx_Send env p msg to r = and_then (require_active p ''Send'' r) (\<lambda>_ r. sendMessage env msg to r)"

definition ctx_RegisterTimerHandler :: "pid \<Rightarrow> 'v Timer \<Rightarrow> 'h \<Rightarrow> ('h, 'v, 'u) Runtime \<Rightarrow> ('h, 'v, 'u) Runtime" where
  "ctx_RegisterTimerHandler p timer h = upd_proto p (\<lambda>q. q\<lparr>timerHandlers := (timerHandlers q)(TimerID timer \<mapsto> h)\<rparr>)"

definition ctx_SetupTimer :: "pid \<Rightarrow> 'v Timer \<Rightarrow> int \<Rightarrow> ('h, 'v, 'u) Runtime \<Rightarrow> ('h, 'v, 'u) Runtime" where
  "ctx_SetupTimer p timer duration r = setupTimer p timer duration r"

definition ctx_SetupPeriodicTimer :: "pid \<Rightarrow> 'v Timer \<Rightarrow> int \<Rightarrow> ('h, 'v, 'u) Runtime \<Rightarrow> ('h, 'v, 'u) Runtime" where
  "ctx_SetupPeriodicTimer p timer duration r = setupPeriodicTimer p timer duration r"

definition ctx_CancelTimer :: "pid \<Rightarrow> int \<Rightarrow> ('h, 'v, 'u) Runtime \<Rightarrow> ('h, 'v, 'u) Runtime" where
  "ctx_CancelTimer p timerID r = cancelTimer timerID r"

declare ctx_SetupTimer_def [simp] ctx_SetupPeriodicTimer_def [simp] ctx_CancelTimer_def [simp]

lemmas messaging_defs [go_defs] =
  require_def require_register_def require_active_def registerCodec_def registerHandler_def
  with_WireID_def RegisterCodec_def RegisterHandler_def sendMessage_def processMessage_def
  ctx_Connect_def ctx_ConnectWithRetry_def ctx_Disconnect_def ctx_Send_def ctx_RegisterTimerHandler_def

end
