(* ===== verification/Ipc_Calls.thy ===== *)
theory Ipc_Calls
  imports Messaging
begin

text \<open>
  \<^verbatim>\<open>pkg/protorun/ipc.go\<close> and the IPC entry points of \<^verbatim>\<open>runtime.go\<close> and \<^verbatim>\<open>protocol.go\<close>:
  requests with their pending table, timeouts and responders, and notifications. A
  \<^verbatim>\<open>*responder\<close> is its index in \<open>responders\<close>. The order in which a map is ranged over is the
  argument \<open>order\<close>.
\<close>

section \<open>Errors and defaults\<close>

definition ErrNoRequestHandler :: go_error where
  "ErrNoRequestHandler = Sentinel ''protorun: no handler registered for request type''"

definition ErrRequestTimeout :: go_error where
  "ErrRequestTimeout = Sentinel ''protorun: request timed out''"

definition ErrResponderFailed :: go_error where
  "ErrResponderFailed = Sentinel ''protorun: responder reported failure''"

definition ErrHandlerPanicked :: go_error where
  "ErrHandlerPanicked = Sentinel ''protorun: request handler panicked''"

definition defaultRequestTimeout :: int where "defaultRequestTimeout = 30 * second"

definition replyResultLabel :: "go_error option \<Rightarrow> string" where
  "replyResultLabel err =
     (case err of
        None \<Rightarrow> ''success''
      | Some e \<Rightarrow>
          if errors_Is e ErrRequestTimeout then ''timeout''
          else if errors_Is e ErrNoRequestHandler then ''no_handler''
          else if errors_Is e ErrHandlerPanicked then ''handler_panicked''
          else if errors_Is e ErrResponderFailed then ''responder_failed''
          else ''error'')"

section \<open>Requests\<close>

definition deliverReply :: "replyToken \<Rightarrow> 'v option \<Rightarrow> go_error option \<Rightarrow> ('h, 'v, 'u) Runtime
    \<Rightarrow> (unit, ('h, 'v, 'u) Runtime) outcome" where
  "deliverReply token rep err r =
     and_then (select_proto replyEvents replyEvents_update (requester token)
                 \<lparr>rep_requestID = requestID token, rep_rep = rep, rep_err = err\<rparr> r)
       (\<lambda>_ r. Return () r)"

text \<open>The state once the request is entered in the pending table, and the rest of the function.\<close>

definition enter_request :: "pid \<Rightarrow> wire_id \<Rightarrow> int \<Rightarrow> 'h closure \<Rightarrow> ('h, 'v, 'u) Runtime
    \<Rightarrow> ('h, 'v, 'u) Runtime" where
  "enter_request p wireID timeout onReply r =
     (let requestID = nextRequestID (proto r p) + 1;
          r1 = upd_proto p (\<lambda>q. q\<lparr>nextRequestID := requestID\<rparr>) r;
          r2 = sample (Counter ''protorun.ipc.request.sent'' 1 [WireIDAttr wireID]) r1
      in upd_proto p (\<lambda>q. q\<lparr>pending := (pending q)(requestID \<mapsto>
           \<lparr>cb = onReply, deadline = rt_now r2 + timeout, startedAt = rt_now r2, pr_wireID = wireID\<rparr>)\<rparr>) r2)"

definition sendRequest :: "pid \<Rightarrow> wire_id \<Rightarrow> 'v \<Rightarrow> int \<Rightarrow> 'h closure \<Rightarrow> ('h, 'v, 'u) Runtime
    \<Rightarrow> (unit, ('h, 'v, 'u) Runtime) outcome" where
  "sendRequest p wireID req timeout onReply r =
     (let token = \<lparr>requester = p, requestID = nextRequestID (proto r p) + 1\<rparr>;
          r1 = enter_request p wireID timeout onReply r
      in case Route (ipc r1) wireID of
           None \<Rightarrow> deliverReply token None (Some ErrNoRequestHandler) r1
         | Some route \<Rightarrow>
             (case AfterFunc timeout (TimeoutFire token) r1 of
                (_, r2) \<Rightarrow>
                  and_then (select_proto requestEvents requestEvents_update (route_proto route)
                              \<lparr>ir_req = req, ir_token = token, ir_handler = route_handler route\<rparr> r2)
                    (\<lambda>_ r. Return () r)))"

text \<open>The function given to \<^verbatim>\<open>time.AfterFunc\<close>.\<close>

definition run_TimeoutFire :: "replyToken \<Rightarrow> ('h, 'v, 'u) Runtime \<Rightarrow> (unit, ('h, 'v, 'u) Runtime) outcome" where
  "run_TimeoutFire token r = deliverReply token None (Some ErrRequestTimeout) r"

definition ctx_sendRequest :: "pid \<Rightarrow> wire_id \<Rightarrow> 'v \<Rightarrow> int \<Rightarrow> 'h closure \<Rightarrow> ('h, 'v, 'u) Runtime
    \<Rightarrow> (unit, ('h, 'v, 'u) Runtime) outcome" where
  "ctx_sendRequest p wireID req timeout onReply r =
     and_then (require_active p ''SendRequest'' r) (\<lambda>_ r. sendRequest p wireID req timeout onReply r)"

definition SendRequestWithTimeout :: "'v go_values \<Rightarrow> pid \<Rightarrow> go_type option \<Rightarrow> go_type \<Rightarrow> 'v \<Rightarrow> int \<Rightarrow> 'h
    \<Rightarrow> ('h, 'v, 'u) Runtime \<Rightarrow> (unit, ('h, 'v, 'u) Runtime) outcome" where
  "SendRequestWithTimeout env p Req Rep req timeout onReply r =
     (let timeout1 = (if timeout \<le> 0
                      then (if rt_defaultRequestTimeout r \<le> 0 then defaultRequestTimeout
                            else rt_defaultRequestTimeout r)
                      else timeout)
      in with_WireID env Req r (\<lambda>w _. ctx_sendRequest p w req timeout1 (ReplyFn Rep onReply) r))"

definition SendRequest :: "'v go_values \<Rightarrow> pid \<Rightarrow> go_type option \<Rightarrow> go_type \<Rightarrow> 'v \<Rightarrow> 'h
    \<Rightarrow> ('h, 'v, 'u) Runtime \<Rightarrow> (unit, ('h, 'v, 'u) Runtime) outcome" where
  "SendRequest env p Req Rep req onReply r = SendRequestWithTimeout env p Req Rep req 0 onReply r"

text \<open>The route is replaced before the strict-mode check.\<close>

definition registerRequestHandler :: "pid \<Rightarrow> wire_id \<Rightarrow> 'h closure \<Rightarrow> ('h, 'v, 'u) Runtime
    \<Rightarrow> (unit, ('h, 'v, 'u) Runtime) outcome" where
  "registerRequestHandler p wireID fn r =
     and_then (require_register p ''RegisterRequestHandler'' r) (\<lambda>_ r.
       case RegisterRequestRoute wireID p fn (ipc r) of
         (prev, ipc') \<Rightarrow>
           let r1 = r\<lparr>ipc := ipc'\<rparr>
           in (case prev of
                 Some route \<Rightarrow>
                   if route_proto route \<noteq> p \<and> strict r1
                   then Panic (strictPanic ''RegisterRequestHandler for wireID already owned by another protocol'') r1
                   else Return () r1
               | None \<Rightarrow> Return () r1))"

definition RegisterRequestHandler :: "'v go_values \<Rightarrow> pid \<Rightarrow> go_type option \<Rightarrow> 'h
    \<Rightarrow> ('h, 'v, 'u) Runtime \<Rightarrow> (unit, ('h, 'v, 'u) Runtime) outcome" where
  "RegisterRequestHandler env p Req fn r =
     with_WireID env Req r (\<lambda>w t. registerRequestHandler p w (RequestFn p t fn) r)"

text \<open>The context's way to answer for a handler that could not be called.\<close>

definition ctx_deliverReplyToToken :: "replyToken \<Rightarrow> 'v option \<Rightarrow> go_error option \<Rightarrow> ('h, 'v, 'u) Runtime
    \<Rightarrow> (unit, ('h, 'v, 'u) Runtime) outcome" where
  "ctx_deliverReplyToToken token rep err r = deliverReply token rep err r"

declare ctx_deliverReplyToToken_def [simp]

section \<open>Responders\<close>

definition respond :: "nat \<Rightarrow> 'v option \<Rightarrow> go_error option \<Rightarrow> ('h, 'v, 'u) Runtime
    \<Rightarrow> (unit, ('h, 'v, 'u) Runtime) outcome" where
  "respond rid rep err r =
     (case responders r ! rid of
        (token, done) \<Rightarrow>
          if done then Return () r
          else deliverReply token rep err (r\<lparr>responders := (responders r)[rid := (token, True)]\<rparr>))"

definition responder_Reply :: "nat \<Rightarrow> 'v \<Rightarrow> ('h, 'v, 'u) Runtime \<Rightarrow> (unit, ('h, 'v, 'u) Runtime) outcome" where
  "responder_Reply rid rep r = respond rid (Some rep) None r"

definition responder_Fail :: "nat \<Rightarrow> go_error \<Rightarrow> ('h, 'v, 'u) Runtime \<Rightarrow> (unit, ('h, 'v, 'u) Runtime) outcome" where
  "responder_Fail rid err r = respond rid None (Some (Errorf ''%w: %w'' [ErrResponderFailed, err])) r"

section \<open>Notifications\<close>

definition rt_subscribeNotification :: "pid \<Rightarrow> wire_id \<Rightarrow> 'h closure \<Rightarrow> ('h, 'v, 'u) Runtime \<Rightarrow> ('h, 'v, 'u) Runtime" where
  "rt_subscribeNotification p wireID fn r = r\<lparr>ipc := Subscribe wireID p fn (ipc r)\<rparr>"

definition rt_unsubscribeNotification :: "pid \<Rightarrow> wire_id \<Rightarrow> ('h, 'v, 'u) Runtime \<Rightarrow> ('h, 'v, 'u) Runtime" where
  "rt_unsubscribeNotification p wireID r = r\<lparr>ipc := Unsubscribe wireID p (ipc r)\<rparr>"

definition ctx_subscribeNotification :: "pid \<Rightarrow> wire_id \<Rightarrow> 'h closure
    \<Rightarrow> ('h, 'v, 'u) Runtime \<Rightarrow> (unit, ('h, 'v, 'u) Runtime) outcome" where
  "ctx_subscribeNotification p wireID fn r =
     and_then (require_register p ''SubscribeNotification'' r) (\<lambda>_ r. Return () (rt_subscribeNotification p wireID fn r))"

definition ctx_unsubscribeNotification :: "pid \<Rightarrow> wire_id \<Rightarrow> ('h, 'v, 'u) Runtime
    \<Rightarrow> (unit, ('h, 'v, 'u) Runtime) outcome" where
  "ctx_unsubscribeNotification p wireID r = Return () (rt_unsubscribeNotification p wireID r)"

definition SubscribeNotification :: "'v go_values \<Rightarrow> pid \<Rightarrow> go_type option \<Rightarrow> 'h
    \<Rightarrow> ('h, 'v, 'u) Runtime \<Rightarrow> (unit, ('h, 'v, 'u) Runtime) outcome" where
  "SubscribeNotification env p N fn r =
     with_WireID env N r (\<lambda>w t. ctx_subscribeNotification p w (NotificationFn t fn) r)"

definition UnsubscribeNotification :: "'v go_values \<Rightarrow> pid \<Rightarrow> go_type option
    \<Rightarrow> ('h, 'v, 'u) Runtime \<Rightarrow> (unit, ('h, 'v, 'u) Runtime) outcome" where
  "UnsubscribeNotification env p N r =
     with_WireID env N r (\<lambda>w _. ctx_unsubscribeNotification p w r)"

primrec publish_loop :: "wire_id \<Rightarrow> 'v \<Rightarrow> (pid \<times> 'h closure) list \<Rightarrow> ('h, 'v, 'u) Runtime
    \<Rightarrow> (unit, ('h, 'v, 'u) Runtime) outcome" where
  "publish_loop wireID n [] r = Return () r"
| "publish_loop wireID n (sub # subs) r =
     and_then (select_proto notificationEvents notificationEvents_update (fst sub)
                 \<lparr>in_n = n, in_handler = snd sub\<rparr> r)
       (\<lambda>sent r. if sent
          then publish_loop wireID n subs
                 (sample (Counter ''protorun.notification.delivered'' 1 [WireIDAttr wireID]) r)
          else Return () r)"

definition publishNotification :: "((pid \<times> 'h closure) list \<Rightarrow> (pid \<times> 'h closure) list) \<Rightarrow> wire_id \<Rightarrow> 'v
    \<Rightarrow> ('h, 'v, 'u) Runtime \<Rightarrow> (unit, ('h, 'v, 'u) Runtime) outcome" where
  "publishNotification order wireID n r =
     (let r1 = sample (Counter ''protorun.notification.published'' 1 [WireIDAttr wireID]) r
      in publish_loop wireID n (SnapshotSubscribers order (ipc r1) wireID) r1)"

definition ctx_publishNotification :: "((pid \<times> 'h closure) list \<Rightarrow> (pid \<times> 'h closure) list) \<Rightarrow> pid \<Rightarrow> wire_id \<Rightarrow> 'v
    \<Rightarrow> ('h, 'v, 'u) Runtime \<Rightarrow> (unit, ('h, 'v, 'u) Runtime) outcome" where
  "ctx_publishNotification order p wireID n r =
     and_then (require_active p ''PublishNotification'' r) (\<lambda>_ r. publishNotification order wireID n r)"

definition PublishNotification :: "'v go_values \<Rightarrow> ((pid \<times> 'h closure) list \<Rightarrow> (pid \<times> 'h closure) list)
    \<Rightarrow> pid \<Rightarrow> go_type option \<Rightarrow> 'v \<Rightarrow> ('h, 'v, 'u) Runtime \<Rightarrow> (unit, ('h, 'v, 'u) Runtime) outcome" where
  "PublishNotification env order p N n r =
     with_WireID env N r (\<lambda>w _. ctx_publishNotification order p w n r)"

lemmas ipc_defs [go_defs] =
  deliverReply_def enter_request_def sendRequest_def run_TimeoutFire_def ctx_sendRequest_def
  SendRequestWithTimeout_def SendRequest_def registerRequestHandler_def RegisterRequestHandler_def
  respond_def responder_Reply_def responder_Fail_def SubscribeNotification_def ctx_subscribeNotification_def
  rt_subscribeNotification_def UnsubscribeNotification_def ctx_unsubscribeNotification_def
  rt_unsubscribeNotification_def publishNotification_def ctx_publishNotification_def PublishNotification_def

end
