(* ===== verification/Event_Loop.thy ===== *)
theory Event_Loop
  imports Ipc_Calls
begin

text \<open>
  The event loop of a protocol (\<^verbatim>\<open>protocol.go\<close>), the session-event pump and the dispatcher of
  the runtime (\<^verbatim>\<open>runtime.go\<close>). User code is the parameter \<open>run\<close>: what a function value does when it
  is called with some arguments. A turn of a loop is atomic: it takes one value from a channel and
  runs its handler until it returns, panics or waits.
\<close>

type_synonym ('h, 'v, 'u) user_code =
  "'h \<Rightarrow> 'v call_arg \<Rightarrow> ('h, 'v, 'u) Runtime \<Rightarrow> (unit, ('h, 'v, 'u) Runtime) outcome"

section \<open>Calls into user code\<close>

definition call_user :: "('h, 'v, 'u) user_code \<Rightarrow> pid \<Rightarrow> 'h \<Rightarrow> 'v call_arg \<Rightarrow> ('h, 'v, 'u) Runtime
    \<Rightarrow> (unit, ('h, 'v, 'u) Runtime) outcome" where
  "call_user run p h arg r = run h arg (r\<lparr>calls := calls r @ [Called p h arg]\<rparr>)"

text \<open>A panic of \<^verbatim>\<open>OnPanic\<close> itself is swallowed.\<close>

definition reportPanic :: "('h, 'v, 'u) user_code \<Rightarrow> pid \<Rightarrow> string \<Rightarrow> string \<Rightarrow> ('h, 'v, 'u) Runtime
    \<Rightarrow> (unit, ('h, 'v, 'u) Runtime) outcome" where
  "reportPanic run p site rec r =
     (let impl = protocol (proto r p);
          r1 = (if bound (proto r p)
                then sample (Counter ''protorun.handler.panic'' 1 [WhereAttr site, ProtocolAttr (impl_type impl)]) r
                else r)
      in case impl_OnPanic impl of
           None \<Rightarrow> Return () r1
         | Some h \<Rightarrow>
             (case call_user run p h (PanicArg site rec) r1 of
                Return _ s \<Rightarrow> Return () s
              | Block s \<Rightarrow> Block s
              | Panic _ s \<Rightarrow> Return () s))"

text \<open>The watchdog timer, when strict mode arms one.\<close>

definition strictWatchdog :: "pid \<Rightarrow> string \<Rightarrow> ('h, 'v, 'u) Runtime \<Rightarrow> nat option \<times> ('h, 'v, 'u) Runtime" where
  "strictWatchdog p site r =
     (if \<not> bound (proto r p) \<or> \<not> strict r \<or> strictHandlerTimeout r \<le> 0 then (None, r)
      else case AfterFunc (strictHandlerTimeout r) (WatchdogFire p site) r of (t, r1) \<Rightarrow> (Some t, r1))"

definition run_WatchdogFire :: "pid \<Rightarrow> string \<Rightarrow> ('h, 'v, 'u) Runtime \<Rightarrow> ('h, 'v, 'u) Runtime" where
  "run_WatchdogFire p site r =
     sample (Counter ''protorun.strict.slow_handler'' 1
       [WhereAttr site, ProtocolAttr (impl_type (protocol (proto r p)))]) r"

definition safeCall :: "('h, 'v, 'u) user_code \<Rightarrow> pid \<Rightarrow> string
    \<Rightarrow> (('h, 'v, 'u) Runtime \<Rightarrow> (unit, ('h, 'v, 'u) Runtime) outcome) \<Rightarrow> ('h, 'v, 'u) Runtime
    \<Rightarrow> (unit, ('h, 'v, 'u) Runtime) outcome" where
  "safeCall run p site fn r =
     (case strictWatchdog p site r of
        (stopWatchdog, r1) \<Rightarrow>
          and_then (case fn r1 of
                      Return _ s \<Rightarrow> Return () s
                    | Block s \<Rightarrow> Block s
                    | Panic rec s \<Rightarrow> reportPanic run p site rec s)
            (\<lambda>_ s. Return () (stop_opt stopWatchdog s)))"

definition ctx_reportPanic :: "('h, 'v, 'u) user_code \<Rightarrow> pid \<Rightarrow> string \<Rightarrow> string \<Rightarrow> ('h, 'v, 'u) Runtime
    \<Rightarrow> (unit, ('h, 'v, 'u) Runtime) outcome" where
  "ctx_reportPanic run p site rec r = reportPanic run p site rec r"

declare ctx_reportPanic_def [simp]

section \<open>Handlers\<close>

text \<open>The framework's closures around the user's functions. \<^verbatim>\<open>raw.(M)\<close> panics on another dynamic
  type in a message handler; a request closure answers a type mismatch with an error, and recovers a
  panic of the handler by reporting it and then failing the responder; a reply closure passes the zero
  value (\<^term>\<open>None\<close>) with an error; a notification closure ignores a mismatch.\<close>

definition invoke_handler :: "'v go_values \<Rightarrow> ('h, 'v, 'u) user_code \<Rightarrow> pid \<Rightarrow> 'h closure \<Rightarrow> 'v \<Rightarrow> Host
    \<Rightarrow> ('h, 'v, 'u) Runtime \<Rightarrow> (unit, ('h, 'v, 'u) Runtime) outcome" where
  "invoke_handler env run p c raw from r =
     (case c of
        HandlerFn M fn \<Rightarrow>
          if TypeOf env raw = M then call_user run p fn (MessageArg raw from) r
          else Panic ''interface conversion'' r
      | _ \<Rightarrow> Return () r)"

definition invoke_request :: "'v go_values \<Rightarrow> ('h, 'v, 'u) user_code \<Rightarrow> 'h closure \<Rightarrow> 'v \<Rightarrow> replyToken
    \<Rightarrow> ('h, 'v, 'u) Runtime \<Rightarrow> (unit, ('h, 'v, 'u) Runtime) outcome" where
  "invoke_request env run c raw token r =
     (case c of
        RequestFn p Req fn \<Rightarrow>
          if TypeOf env raw \<noteq> Req
          then ctx_deliverReplyToToken token None (Some (Errorf ''protorun: request type mismatch: expected %T, got %T'' [])) r
          else let rid = length (responders r);
                   r1 = r\<lparr>responders := responders r @ [(token, False)]\<rparr>
               in (case call_user run p fn (RequestArg raw rid) r1 of
                     Return _ s \<Rightarrow> Return () s
                   | Block s \<Rightarrow> Block s
                   | Panic rec s \<Rightarrow>
                       and_then (ctx_reportPanic run p ''request handler'' rec s)
                         (\<lambda>_ s. responder_Fail rid (Errorf ''%w: %v'' [ErrHandlerPanicked]) s))
      | _ \<Rightarrow> Return () r)"

lemmas invoke_request_unfold = invoke_request_def [unfolded ctx_reportPanic_def ctx_deliverReplyToToken_def]

definition invoke_reply :: "'v go_values \<Rightarrow> ('h, 'v, 'u) user_code \<Rightarrow> pid \<Rightarrow> 'h closure \<Rightarrow> 'v option
    \<Rightarrow> go_error option \<Rightarrow> ('h, 'v, 'u) Runtime \<Rightarrow> (unit, ('h, 'v, 'u) Runtime) outcome" where
  "invoke_reply env run p c rep err r =
     (case c of
        ReplyFn Rep onReply \<Rightarrow>
          (case err of
             Some e \<Rightarrow> call_user run p onReply (ReplyArg None (Some e)) r
           | None \<Rightarrow>
               (case rep of
                  Some v \<Rightarrow>
                    if TypeOf env v = Rep then call_user run p onReply (ReplyArg (Some v) None) r
                    else call_user run p onReply (ReplyArg None
                           (Some (Errorf ''protorun: reply type mismatch: expected %T, got %T'' []))) r
                | None \<Rightarrow> call_user run p onReply (ReplyArg None
                           (Some (Errorf ''protorun: reply type mismatch: expected %T, got %T'' []))) r))
      | _ \<Rightarrow> Return () r)"

definition invoke_notification :: "'v go_values \<Rightarrow> ('h, 'v, 'u) user_code \<Rightarrow> pid \<Rightarrow> 'h closure \<Rightarrow> 'v
    \<Rightarrow> ('h, 'v, 'u) Runtime \<Rightarrow> (unit, ('h, 'v, 'u) Runtime) outcome" where
  "invoke_notification env run p c raw r =
     (case c of
        NotificationFn N fn \<Rightarrow>
          if TypeOf env raw = N then call_user run p fn (NotificationArg raw) r else Return () r
      | _ \<Rightarrow> Return () r)"

definition handleMessage :: "'v go_values \<Rightarrow> ('h, 'v, 'u) user_code \<Rightarrow> pid \<Rightarrow> 'v messageEnvelope
    \<Rightarrow> ('h, 'v, 'u) Runtime \<Rightarrow> (unit, ('h, 'v, 'u) Runtime) outcome" where
  "handleMessage env run p e r0 =
     (let wireID = fst (wireIDOf env (env_msg e) (wireIDCache r0));
          r = r0\<lparr>wireIDCache := snd (wireIDOf env (env_msg e) (wireIDCache r0))\<rparr>
      in case proto_handlers (proto r p) wireID of
           None \<Rightarrow> Return () r
         | Some h \<Rightarrow> safeCall run p ''message handler'' (invoke_handler env run p h (env_msg e) (env_from e)) r)"

definition handleTimer :: "('h, 'v, 'u) user_code \<Rightarrow> pid \<Rightarrow> 'v Timer \<Rightarrow> ('h, 'v, 'u) Runtime
    \<Rightarrow> (unit, ('h, 'v, 'u) Runtime) outcome" where
  "handleTimer run p timer r =
     (case timerHandlers (proto r p) (TimerID timer) of
        None \<Rightarrow> Return () r
      | Some h \<Rightarrow> safeCall run p ''timer handler'' (call_user run p h (TimerArg timer)) r)"

definition deliverSessionEvent :: "('h, 'v, 'u) user_code \<Rightarrow> pid \<Rightarrow> sessionEvent \<Rightarrow> ('h, 'v, 'u) Runtime
    \<Rightarrow> (unit, ('h, 'v, 'u) Runtime) outcome" where
  "deliverSessionEvent run p ev r =
     (let impl = protocol (proto r p) in
      case se_kind ev of
        sessionConnectedEvent \<Rightarrow>
          (case impl_OnSessionConnected impl of
             Some h \<Rightarrow> call_user run p h (HostArg (se_host ev)) r | None \<Rightarrow> Return () r)
      | sessionDisconnectedEvent \<Rightarrow>
          (case impl_OnSessionDisconnected impl of
             Some h \<Rightarrow> call_user run p h (HostArg (se_host ev)) r | None \<Rightarrow> Return () r)
      | sessionGivenUpEvent \<Rightarrow>
          (case impl_OnSessionGivenUp impl of
             Some h \<Rightarrow> call_user run p h (GivenUpArg (se_host ev) (se_attempts ev)) r | None \<Rightarrow> Return () r))"

text \<open>\<^verbatim>\<open>protoProtocol.deliverReply\<close>. The latency is in microseconds.\<close>

definition proto_deliverReply :: "'v go_values \<Rightarrow> ('h, 'v, 'u) user_code \<Rightarrow> pid \<Rightarrow> 'v inboundReply
    \<Rightarrow> ('h, 'v, 'u) Runtime \<Rightarrow> (unit, ('h, 'v, 'u) Runtime) outcome" where
  "proto_deliverReply env run p rep r =
     (case pending (proto r p) (rep_requestID rep) of
        None \<Rightarrow> Return () (sample (Counter ''protorun.ipc.reply.dropped_late'' 1 []) r)
      | Some pr \<Rightarrow>
          let r1 = upd_proto p (\<lambda>q. q\<lparr>pending := map_delete (rep_requestID rep) (pending q)\<rparr>) r;
              attrs = [WireIDAttr (pr_wireID pr), ResultAttr (replyResultLabel (rep_err rep))];
              r2 = sample (Counter ''protorun.ipc.request.completed'' 1 attrs) r1;
              r3 = sample (Histogram ''protorun.ipc.request.latency_ms'' ((rt_now r2 - startedAt pr) div 1000) attrs) r2
          in invoke_reply env run p (cb pr) (rep_rep rep) (rep_err rep)
               (r3\<lparr>calls := calls r3 @ [Completed p (rep_requestID rep)]\<rparr>))"

section \<open>The loop\<close>

text \<open>One turn: the case of the select that was taken, with the value it received.\<close>

datatype loop_case = OnMessage | OnTimer | OnSession | OnRequest | OnReply | OnNotification

definition recv :: "'a chan \<Rightarrow> ('a \<Rightarrow> 'a chan \<Rightarrow> 'b) \<Rightarrow> 'b option" where
  "recv c k = (case chan_buf c of [] \<Rightarrow> None | x # xs \<Rightarrow> Some (k x (c\<lparr>chan_buf := xs\<rparr>)))"

text \<open>\<^term>\<open>None\<close>: the channel is empty, the case is not ready.\<close>

definition eventHandler :: "'v go_values \<Rightarrow> ('h, 'v, 'u) user_code \<Rightarrow> pid \<Rightarrow> loop_case
    \<Rightarrow> ('h, 'v, 'u) Runtime \<Rightarrow> (unit, ('h, 'v, 'u) Runtime) outcome option" where
  "eventHandler env run p lc r =
     (case lc of
        OnMessage \<Rightarrow> recv (messageChannel (proto r p)) (\<lambda>e ch.
          handleMessage env run p e (upd_proto p (messageChannel_update (\<lambda>_. ch)) r))
      | OnTimer \<Rightarrow> recv (timerChannel (proto r p)) (\<lambda>t ch.
          handleTimer run p t (upd_proto p (timerChannel_update (\<lambda>_. ch)) r))
      | OnSession \<Rightarrow> recv (sessionEvents (proto r p)) (\<lambda>ev ch.
          safeCall run p ''session event handler'' (deliverSessionEvent run p ev)
            (upd_proto p (sessionEvents_update (\<lambda>_. ch)) r))
      | OnRequest \<Rightarrow> recv (requestEvents (proto r p)) (\<lambda>q ch.
          safeCall run p ''request handler'' (invoke_request env run (ir_handler q) (ir_req q) (ir_token q))
            (upd_proto p (requestEvents_update (\<lambda>_. ch)) r))
      | OnReply \<Rightarrow> recv (replyEvents (proto r p)) (\<lambda>rep ch.
          safeCall run p ''reply handler'' (proto_deliverReply env run p rep)
            (upd_proto p (replyEvents_update (\<lambda>_. ch)) r))
      | OnNotification \<Rightarrow> recv (notificationEvents (proto r p)) (\<lambda>n ch.
          safeCall run p ''notification handler'' (invoke_notification env run p (in_handler n) (in_n n))
            (upd_proto p (notificationEvents_update (\<lambda>_. ch)) r)))"

section \<open>Session events\<close>

primrec fanout_loop :: "sessionEvent \<Rightarrow> pid list \<Rightarrow> ('h, 'v, 'u) Runtime
    \<Rightarrow> (bool, ('h, 'v, 'u) Runtime) outcome" where
  "fanout_loop ev [] r = Return True r"
| "fanout_loop ev (p # ps) r =
     and_then (select_proto sessionEvents sessionEvents_update p ev r)
       (\<lambda>sent r. if sent then fanout_loop ev ps r else Return False r)"

definition fanoutSessionEvent :: "sessionEvent \<Rightarrow> ('h, 'v, 'u) Runtime
    \<Rightarrow> (bool, ('h, 'v, 'u) Runtime) outcome" where
  "fanoutSessionEvent ev r = fanout_loop ev [0..<length (protocols r)] r"

definition dispatchSessionEvent :: "real \<Rightarrow> SessionEvent \<Rightarrow> ('h, 'v, 'u) Runtime
    \<Rightarrow> (bool, ('h, 'v, 'u) Runtime) outcome" where
  "dispatchSessionEvent rnd ev r =
     (case ev of
        SessionConnected h \<Rightarrow>
          let r1 = sample (Counter ''protorun.session.connected'' 1 [HostAttr h]) r;
              r2 = snd (onSessionUpForRetry h r1)
          in fanoutSessionEvent \<lparr>se_kind = sessionConnectedEvent, se_host = h, se_attempts = 0\<rparr> r2
      | SessionDisconnected h \<Rightarrow>
          let r1 = sample (Counter ''protorun.session.disconnected'' 1 [HostAttr h]) r
          in (case onSessionDownForRetry rnd h r1 of
                ((giveUp, attempts), r2) \<Rightarrow>
                  if giveUp
                  then let r3 = sample (Counter ''protorun.session.given_up'' 1 [HostAttr h, AttemptsAttr attempts]) r2
                       in and_then (fanoutSessionEvent
                              \<lparr>se_kind = sessionGivenUpEvent, se_host = h, se_attempts = attempts\<rparr> r3)
                            (\<lambda>ok r4. if ok
                               then fanoutSessionEvent \<lparr>se_kind = sessionDisconnectedEvent, se_host = h, se_attempts = 0\<rparr> r4
                               else Return False r4)
                  else fanoutSessionEvent \<lparr>se_kind = sessionDisconnectedEvent, se_host = h, se_attempts = 0\<rparr> r2)
      | SessionFailed h \<Rightarrow>
          let r1 = sample (Counter ''protorun.session.failed'' 1 [HostAttr h]) r
          in (case onSessionDownForRetry rnd h r1 of
                ((giveUp, attempts), r2) \<Rightarrow>
                  if giveUp
                  then let r3 = sample (Counter ''protorun.session.given_up'' 1 [HostAttr h, AttemptsAttr attempts]) r2
                       in fanoutSessionEvent \<lparr>se_kind = sessionGivenUpEvent, se_host = h, se_attempts = attempts\<rparr> r3
                  else Return True r2)
      | SessionVersionMismatch h v \<Rightarrow> Return True r)"

lemmas loop_defs [go_defs] =
  call_user_def reportPanic_def strictWatchdog_def run_WatchdogFire_def safeCall_def invoke_handler_def
  invoke_request_def invoke_reply_def invoke_notification_def handleMessage_def handleTimer_def
  deliverSessionEvent_def proto_deliverReply_def recv_def eventHandler_def fanoutSessionEvent_def
  dispatchSessionEvent_def

end
