(* ===== verification/Lifecycle.thy ===== *)
theory Lifecycle
  imports Event_Loop
begin

text \<open>
  Starting and stopping (\<^verbatim>\<open>runtime.go\<close>, \<^verbatim>\<open>protocol.go\<close>, \<^verbatim>\<open>shutdown.go\<close>) and the
  interleaving of everything that runs in a runtime: \<open>api_step\<close> is one call of the context's API or
  one change of the user's own memory, \<open>rt_step\<close> one atomic step of a goroutine of the runtime.
\<close>

section \<open>Starting\<close>

definition ErrNoNetworkLayer :: go_error where
  "ErrNoNetworkLayer = Sentinel ''protorun: network layer not registered''"

definition ErrAlreadyCancelled :: go_error where
  "ErrAlreadyCancelled = Sentinel ''protorun: cannot start a runtime that has been cancelled''"

definition ensureContext :: "pid \<Rightarrow> ('h, 'v, 'u) Runtime \<Rightarrow> (unit, ('h, 'v, 'u) Runtime) outcome" where
  "ensureContext p r =
     (if has_ctx (proto r p) then Return () r
      else if \<not> bound (proto r p)
      then Panic ''runtime: protocol used before being registered with a Runtime'' r
      else Return () (upd_proto p (\<lambda>q. q\<lparr>has_ctx := True\<rparr>) r))"

definition proto_Start :: "('h, 'v, 'u) user_code \<Rightarrow> pid \<Rightarrow> ('h, 'v, 'u) Runtime
    \<Rightarrow> (unit, ('h, 'v, 'u) Runtime) outcome" where
  "proto_Start run p r =
     and_then (ensureContext p r) (\<lambda>_ r.
     and_then (call_user run p (impl_Start (protocol (proto r p))) CtxArg (setPhase phaseRegistering p r)) (\<lambda>_ r.
       Return () (upd_proto p (\<lambda>q. q\<lparr>loop_started := True\<rparr>) (setPhase phaseRegistered p r))))"

definition proto_Init :: "('h, 'v, 'u) user_code \<Rightarrow> pid \<Rightarrow> ('h, 'v, 'u) Runtime
    \<Rightarrow> (unit, ('h, 'v, 'u) Runtime) outcome" where
  "proto_Init run p r =
     and_then (ensureContext p r) (\<lambda>_ r.
     and_then (call_user run p (impl_Init (protocol (proto r p))) CtxArg (setPhase phaseInitializing p r)) (\<lambda>_ r.
       Return () (setPhase phaseRunning p r)))"

primrec each_protocol :: "(pid \<Rightarrow> ('h, 'v, 'u) Runtime \<Rightarrow> (unit, ('h, 'v, 'u) Runtime) outcome)
    \<Rightarrow> pid list \<Rightarrow> ('h, 'v, 'u) Runtime \<Rightarrow> (unit, ('h, 'v, 'u) Runtime) outcome" where
  "each_protocol f [] r = Return () r"
| "each_protocol f (p # ps) r = and_then (f p r) (\<lambda>_ r. each_protocol f ps r)"

definition startProtocols :: "('h, 'v, 'u) user_code \<Rightarrow> ('h, 'v, 'u) Runtime
    \<Rightarrow> (unit, ('h, 'v, 'u) Runtime) outcome" where
  "startProtocols run r = each_protocol (proto_Start run) [0..<length (protocols r)] r"

definition initProtocols :: "('h, 'v, 'u) user_code \<Rightarrow> ('h, 'v, 'u) Runtime
    \<Rightarrow> (unit, ('h, 'v, 'u) Runtime) outcome" where
  "initProtocols run r = each_protocol (proto_Init run) [0..<length (protocols r)] r"

text \<open>The last step starts the session-event pump and the dispatcher.\<close>

definition rt_start :: "('h, 'v, 'u) user_code \<Rightarrow> ('h, 'v, 'u) Runtime
    \<Rightarrow> (go_error option, ('h, 'v, 'u) Runtime) outcome" where
  "rt_start run r =
     (if \<not> networkLayer r then Return (Some ErrNoNetworkLayer) r
      else if sessionLayer r = None then Return (Some ErrNoSessionLayer) r
      else if rt_done r then Return (Some ErrAlreadyCancelled) r
      else and_then (startProtocols run r) (\<lambda>_ r.
           and_then (initProtocols run r) (\<lambda>_ r.
             Return None (r\<lparr>rt_loops := True\<rparr>))))"

section \<open>Stopping\<close>

text \<open>\<^verbatim>\<open>Cancel\<close> up to the wait for the goroutines.\<close>

definition stop_timers :: "('h, 'v, 'u) Runtime \<Rightarrow> ('h, 'v, 'u) Runtime" where
  "stop_timers r =
     r\<lparr>armed := armed r |` (- ran (ongoingTimers r)), ongoingTimers := Map.empty,
       tickers := map (\<lambda>k. let tk = tickers r ! k in
                          if k \<in> ran (ongoingPeriodicTimers r) then tk\<lparr>tick_cancelled := True\<rparr> else tk)
                    [0..<length (tickers r)],
       ongoingPeriodicTimers := Map.empty\<rparr>"

definition Cancel :: "('h, 'v, 'u) Runtime \<Rightarrow> ('h, 'v, 'u) Runtime" where
  "Cancel r =
     (let r1 = r\<lparr>protocols := map (\<lambda>q. q\<lparr>proto_phase := phaseCancelled\<rparr>) (protocols r)\<rparr>;
          r2 = r1\<lparr>rt_done := True\<rparr>
      in retryTeardown (stop_timers r2))"

definition ErrShutdownTimeout :: go_error where
  "ErrShutdownTimeout = Sentinel ''protorun: shutdown timeout''"

definition defaultShutdownTimeout :: int where "defaultShutdownTimeout = 30 * second"

text \<open>\<open>drained\<close> is how long after the cancellation the last goroutine ended, if it did.\<close>

definition Shutdown :: "int \<Rightarrow> int option \<Rightarrow> ('h, 'v, 'u) Runtime \<Rightarrow> go_error option \<times> ('h, 'v, 'u) Runtime" where
  "Shutdown timeout drained r =
     (let t = (if timeout \<le> 0 then defaultShutdownTimeout else timeout)
      in (case drained of
            Some d \<Rightarrow> if d < t then None else Some ErrShutdownTimeout
          | None \<Rightarrow> Some ErrShutdownTimeout,
          Cancel r))"

text \<open>\<^verbatim>\<open>Run\<close>, with whether a signal arrived; without one it waits for the context.\<close>

definition Run :: "('h, 'v, 'u) user_code \<Rightarrow> bool \<Rightarrow> ('h, 'v, 'u) Runtime
    \<Rightarrow> (go_error option, ('h, 'v, 'u) Runtime) outcome" where
  "Run run signal r =
     and_then (rt_start run r) (\<lambda>err r.
       case err of
         Some e \<Rightarrow> Return (Some e) r
       | None \<Rightarrow> if rt_done r then Return None r
                 else if signal then Return None (Cancel r)
                 else Block r)"

section \<open>Steps\<close>

primrec run_callback :: "'v callback \<Rightarrow> ('h, 'v, 'u) Runtime \<Rightarrow> (unit, ('h, 'v, 'u) Runtime) outcome" where
  "run_callback (RetryFire host) r = Return () (run_RetryFire host r)"
| "run_callback (TimeoutFire token) r = run_TimeoutFire token r"
| "run_callback (TimerFire p timer) r = and_then (run_TimerFire p timer r) (\<lambda>_ r. Return () r)"
| "run_callback (WatchdogFire p site) r = Return () (run_WatchdogFire p site r)"

definition completes :: "('a, 's) outcome \<Rightarrow> 's \<Rightarrow> bool" where
  "completes res s \<longleftrightarrow> (case res of Return _ t \<Rightarrow> t = s | Panic _ t \<Rightarrow> t = s | Block _ \<Rightarrow> False)"

text \<open>One call of the API by protocol \<open>p\<close> that does not wait, from a handler or a goroutine of the
  user's own.\<close>

inductive api_step :: "'v go_values \<Rightarrow> ('h, 'v, 'u) Runtime \<Rightarrow> ('h, 'v, 'u) Runtime \<Rightarrow> bool" for env where
  memory: "api_step env r (r\<lparr>user := u\<rparr>)"
| codec: "completes (RegisterCodec env p M mar unm r) r' \<Longrightarrow> api_step env r r'"
| handler: "completes (RegisterHandler env p M fn r) r' \<Longrightarrow> api_step env r r'"
| request_handler: "completes (RegisterRequestHandler env p Req fn r) r' \<Longrightarrow> api_step env r r'"
| subscribe: "completes (SubscribeNotification env p N fn r) r' \<Longrightarrow> api_step env r r'"
| unsubscribe: "completes (UnsubscribeNotification env p N r) r' \<Longrightarrow> api_step env r r'"
| timer_handler: "api_step env r (ctx_RegisterTimerHandler p tm fn r)"
| connect: "completes (ctx_Connect p host r) r' \<Longrightarrow> api_step env r r'"
| connect_retry: "completes (ctx_ConnectWithRetry p host r) r' \<Longrightarrow> api_step env r r'"
| disconnect: "completes (ctx_Disconnect p host r) r' \<Longrightarrow> api_step env r r'"
| send: "completes (ctx_Send env p msg host r) r' \<Longrightarrow> api_step env r r'"
| setup_timer: "api_step env r (ctx_SetupTimer p tm d r)"
| setup_periodic: "api_step env r (ctx_SetupPeriodicTimer p tm d r)"
| cancel_timer: "api_step env r (ctx_CancelTimer p i r)"
| send_request: "completes (SendRequestWithTimeout env p Req Rep req d fn r) r' \<Longrightarrow> api_step env r r'"
| reply: "completes (responder_Reply rid v r) r' \<Longrightarrow> api_step env r r'"
| fail: "completes (responder_Fail rid e r) r' \<Longrightarrow> api_step env r r'"
| publish: "completes (PublishNotification env order p N n r) r' \<Longrightarrow> api_step env r r'"

text \<open>The steps of a runtime by itself, and those by which its dispatcher and its session-event pump take
  something from the session layer.\<close>

inductive rt_local :: "'v go_values \<Rightarrow> ('h, 'v, 'u) user_code \<Rightarrow> ('h, 'v, 'u) Runtime \<Rightarrow> ('h, 'v, 'u) Runtime \<Rightarrow> bool"
  for env run where
  starts: "rt_start run r = Return err r' \<Longrightarrow> rt_local env run r r'"
| turn: "p < length (protocols r) \<Longrightarrow> loop_started (proto r p) \<Longrightarrow>
    eventHandler env run p lc r = Some (Return () r') \<Longrightarrow> rt_local env run r r'"
| time: "0 \<le> d \<Longrightarrow> rt_local env run r (r\<lparr>rt_now := rt_now r + d\<rparr>)"
| fires: "rt_local env run r (fire t r)"
| callback: "spawned r = fs @ f # gs \<Longrightarrow> run_callback f (r\<lparr>spawned := fs @ gs\<rparr>) = Return () r' \<Longrightarrow>
    rt_local env run r r'"
| ticks: "k < length (tickers r) \<Longrightarrow> tick k r = Return b r' \<Longrightarrow> rt_local env run r r'"
| goroutine: "api_step env r r' \<Longrightarrow> rt_local env run r r'"
| cancels: "rt_local env run r (Cancel r)"

inductive rt_step :: "'v go_values \<Rightarrow> ('h, 'v, 'u) user_code \<Rightarrow> ('h, 'v, 'u) Runtime \<Rightarrow> ('h, 'v, 'u) Runtime \<Rightarrow> bool"
  for env run where
  alone: "rt_local env run r r' \<Longrightarrow> rt_step env run r r'"
| dispatch: "rt_loops r \<Longrightarrow> processMessage bs from r = Return () r' \<Longrightarrow> rt_step env run r r'"
| pump: "rt_loops r \<Longrightarrow> dispatchSessionEvent rnd ev r = Return b r' \<Longrightarrow> rt_step env run r r'"

abbreviation api_steps :: "'v go_values \<Rightarrow> ('h, 'v, 'u) Runtime \<Rightarrow> ('h, 'v, 'u) Runtime \<Rightarrow> bool" where
  "api_steps env \<equiv> (api_step env)\<^sup>*\<^sup>*"

abbreviation rt_steps :: "'v go_values \<Rightarrow> ('h, 'v, 'u) user_code \<Rightarrow> ('h, 'v, 'u) Runtime \<Rightarrow> ('h, 'v, 'u) Runtime \<Rightarrow> bool" where
  "rt_steps env run \<equiv> (rt_step env run)\<^sup>*\<^sup>*"

text \<open>A schedule, to run a runtime step by step.\<close>

datatype act = ActStart | ActTurn pid loop_case | ActMessage "byte list" Host | ActSession SessionEvent

primrec returned :: "('a, 's) outcome \<Rightarrow> 's option" where
  "returned (Return a s) = Some s" | "returned (Block s) = None" | "returned (Panic m s) = None"

primrec run_act :: "'v go_values \<Rightarrow> ('h, 'v, 'u) user_code \<Rightarrow> act \<Rightarrow> ('h, 'v, 'u) Runtime \<Rightarrow> ('h, 'v, 'u) Runtime option" where
  "run_act env run ActStart r = returned (rt_start run r)"
| "run_act env run (ActTurn p lc) r =
     (if p < length (protocols r) \<and> loop_started (proto r p)
      then Option.bind (eventHandler env run p lc r) returned else None)"
| "run_act env run (ActMessage bs from) r = (if rt_loops r then returned (processMessage bs from r) else None)"
| "run_act env run (ActSession ev) r = (if rt_loops r then returned (dispatchSessionEvent 0 ev r) else None)"

primrec run_acts :: "'v go_values \<Rightarrow> ('h, 'v, 'u) user_code \<Rightarrow> act list \<Rightarrow> ('h, 'v, 'u) Runtime \<Rightarrow> ('h, 'v, 'u) Runtime option" where
  "run_acts env run [] r = Some r"
| "run_acts env run (a # as) r = Option.bind (run_act env run a r) (run_acts env run as)"

lemma returned_Some: "returned x = Some s \<longleftrightarrow> (\<exists>a. x = Return a s)"
  by (cases x) auto

lemma run_act_step: "run_act env run a r = Some s \<Longrightarrow> rt_step env run r s"
  by (cases a) (auto simp: returned_Some bind_eq_Some_conv intro: rt_step.intros rt_local.intros split: if_splits)

lemma run_acts_steps: "run_acts env run as r = Some s \<Longrightarrow> rt_steps env run r s"
  by (induction as arbitrary: r)
     (auto simp: bind_eq_Some_conv intro: run_act_step converse_rtranclp_into_rtranclp)

lemmas lifecycle_defs [go_defs] =
  ensureContext_def proto_Start_def proto_Init_def startProtocols_def initProtocols_def rt_start_def
  stop_timers_def Cancel_def Shutdown_def Run_def

lemma completes_simps [simp]:
  "completes (Return a t) s = (t = s)" "completes (Panic m t) s = (t = s)" "\<not> completes (Block t) s"
  by (simp_all add: completes_def)

lemma completes_and_then:
  "completes (and_then x k) s \<Longrightarrow> (\<exists>a t. x = Return a t \<and> completes (k a t) s) \<or> (\<exists>m. x = Panic m s)"
  by (cases x) auto

text \<open>Code made of API calls.\<close>

definition api_code :: "'v go_values \<Rightarrow> ('h, 'v, 'u) Runtime \<Rightarrow> ('a, ('h, 'v, 'u) Runtime) outcome \<Rightarrow> bool" where
  "api_code env r x \<longleftrightarrow> (\<forall>s. completes x s \<longrightarrow> api_steps env r s)"

lemma api_code_simps [simp]: "api_code env r (Return a r)" "api_code env r (Panic m r)" "api_code env r (Block s)"
  by (simp_all add: api_code_def)

lemma api_code_and_then:
  "api_code env r x \<Longrightarrow> (\<And>a s. api_code env s (k a s)) \<Longrightarrow> api_code env r (and_then x k)"
  by (cases x) (auto simp: api_code_def intro: rtranclp_trans)

lemma api_code_memory: "api_code env (r\<lparr>user := u\<rparr>) x \<Longrightarrow> api_code env r x"
  by (auto simp: api_code_def intro: converse_rtranclp_into_rtranclp api_step.memory)

lemma api_code_calls:
  "api_code env r (RegisterCodec env p M mar unm r)" "api_code env r (RegisterHandler env p M fn r)"
  "api_code env r (RegisterRequestHandler env p Req fn r)" "api_code env r (SubscribeNotification env p N fn r)"
  "api_code env r (ctx_Connect p host r)" "api_code env r (ctx_ConnectWithRetry p host r)"
  "api_code env r (ctx_Disconnect p host r)" "api_code env r (ctx_Send env p msg host r)"
  "api_code env r (SendRequestWithTimeout env p Req Rep req d fn r)"
  "api_code env r (responder_Reply rid v r)" "api_code env r (responder_Fail rid e r)"
  "api_code env r (PublishNotification env order p N n r)"
  by (auto simp: api_code_def intro: api_step.intros r_into_rtranclp)

lemma api_code_timers:
  "api_code env r (Return a (ctx_SetupTimer p tm d r))" "api_code env r (Return a (ctx_SetupPeriodicTimer p tm d r))"
  "api_code env r (Return a (ctx_CancelTimer p i r))" "api_code env r (Return a (ctx_RegisterTimerHandler p tm fn r))"
  by (auto simp: api_code_def intro: api_step.intros r_into_rtranclp
      simp del: ctx_SetupTimer_def ctx_SetupPeriodicTimer_def ctx_CancelTimer_def)

text \<open>An error of a call is logged; \<open>logged\<close> forgets it.\<close>

definition logged :: "('e, 's) outcome \<Rightarrow> (unit, 's) outcome" where
  "logged x = and_then x (\<lambda>_ s. Return () s)"

lemma api_code_logged: "api_code env r x \<Longrightarrow> api_code env r (logged x)"
  unfolding logged_def by (rule api_code_and_then) simp_all

end
