(* ===== verification/Runtime_Invariants.thy ===== *)
theory Runtime_Invariants
  imports Lifecycle
begin

text \<open>
  Invariants of a running runtime. \<open>hosted_protocols\<close> is the contract of user code: it reaches the
  runtime through the API only. Under it every interleaving of event loops, dispatcher, pump, timer
  callbacks, user goroutines and cancellation keeps \<open>rt_inv\<close>: armed timers have an owner, the router
  is well formed, a pending request always has an answer on its way, and a request is completed at
  most once.
\<close>

section \<open>Calm operations\<close>

definition completions :: "('h, 'v, 'u) Runtime \<Rightarrow> ('h, 'v) observation list" where
  "completions r = filter (\<lambda>x. case x of Completed _ _ \<Rightarrow> True | Called _ _ _ \<Rightarrow> False) (calls r)"

text \<open>The number of requests sent so far, and that the 64-bit counters cannot have wrapped.\<close>

definition sent_count :: "('h, 'v, 'u) Runtime \<Rightarrow> nat" where
  "sent_count r = length (filter (\<lambda>x. case x of Counter n _ _ \<Rightarrow> n = ''protorun.ipc.request.sent''
     | Histogram _ _ _ \<Rightarrow> False) (metrics r))"

definition few_sent :: "('h, 'v, 'u) Runtime \<Rightarrow> bool" where
  "few_sent r \<longleftrightarrow> sent_count r < 2 ^ 64 - 1"

text \<open>Most operations leave the timers, the router and the request bookkeeping alone, up to adding
  replies to a channel.\<close>

definition same_requests :: "('h, 'v) protoProtocol \<Rightarrow> ('h, 'v) protoProtocol \<Rightarrow> bool" where
  "same_requests q q' \<longleftrightarrow> pending q' = pending q \<and> nextRequestID q' = nextRequestID q \<and>
     set (chan_buf (replyEvents q)) \<subseteq> set (chan_buf (replyEvents q'))"

definition calm :: "('h, 'v, 'u) Runtime \<Rightarrow> ('h, 'v, 'u) Runtime \<Rightarrow> bool" where
  "calm r r' \<longleftrightarrow>
     list_all2 same_requests (protocols r) (protocols r') \<and>
     armed r' = armed r \<and> nextHandle r' = nextHandle r \<and> spawned r' = spawned r \<and>
     connectionRetries r' = connectionRetries r \<and> ongoingTimers r' = ongoingTimers r \<and>
     ipc r' = ipc r \<and> completions r' = completions r \<and> rt_done r' = rt_done r \<and>
     sent_count r \<le> sent_count r' \<and> length (responders r) \<le> length (responders r')"

lemma same_requests_refl [simp]: "same_requests q q"
  by (simp add: same_requests_def)

lemma same_requests_trans: "same_requests a b \<Longrightarrow> same_requests b c \<Longrightarrow> same_requests a c"
  by (auto simp: same_requests_def)

lemma calm_refl [simp]: "calm r r"
  by (simp add: calm_def list_all2_refl)

lemma list_all2_same_requests_trans:
  "list_all2 same_requests as bs \<Longrightarrow> list_all2 same_requests bs cs \<Longrightarrow> list_all2 same_requests as cs"
  by (rule list_all2_trans [OF same_requests_trans])

lemma calm_trans: "calm r s \<Longrightarrow> calm s t \<Longrightarrow> calm r t"
  unfolding calm_def using list_all2_same_requests_trans [of "protocols r" "protocols s" "protocols t"] by simp

lemma calm_upd_proto: "(\<And>q. same_requests q (f q)) \<Longrightarrow> calm r (upd_proto p f r)"
  by (cases "p < length (protocols r)")
     (auto simp: calm_def upd_proto_def completions_def sent_count_def list_all2_conv_all_nth nth_list_update)

lemma calm_fields [simp]:
  "calm r (r\<lparr>user := u\<rparr>)" "calm r (r\<lparr>wireIDCache := c\<rparr>)" "calm r (r\<lparr>codecs := cs\<rparr>)"
  "calm r (r\<lparr>sessionLayer := sl\<rparr>)" "calm r (r\<lparr>rt_now := n\<rparr>)" "calm r (r\<lparr>rt_loops := b\<rparr>)"
  "calm r (r\<lparr>tickers := ts\<rparr>)" "calm r (r\<lparr>ongoingPeriodicTimers := pt\<rparr>)"
  "length (responders r) \<le> length rs \<Longrightarrow> calm r (r\<lparr>responders := rs\<rparr>)"
  "calm r (sample x r)" "calm r (session_request i r)"
  "calm r (r\<lparr>calls := calls r @ [Called p h arg]\<rparr>)"
  by (simp_all add: calm_def completions_def sent_count_def sample_def session_request_def list_all2_refl)

lemma calm_select_proto:
  assumes "\<And>q. same_requests q (upd (\<lambda>_. chan_put x (ch q)) q)"
    and "completes (select_proto ch upd p x r) s"
  shows "calm r s"
proof -
  have "s = r \<or> s = upd_proto p (upd (\<lambda>_. chan_put x (ch (proto r p)))) r"
    using assms(2) select_proto_outcome [of ch upd p x r]
    by (cases "select_proto ch upd p x r") auto
  moreover have "upd_proto p (upd (\<lambda>_. chan_put x (ch (proto r p)))) r
      = upd_proto p (\<lambda>q. upd (\<lambda>_. chan_put x (ch q)) q) r"
    by (simp add: upd_proto_def)
  ultimately show ?thesis using calm_upd_proto [of "\<lambda>q. upd (\<lambda>_. chan_put x (ch q)) q"] assms(1) by auto
qed

lemma calm_select_channels:
  "completes (select_proto messageChannel messageChannel_update p e r) s \<Longrightarrow> calm r s"
  "completes (select_proto timerChannel timerChannel_update p t r) s \<Longrightarrow> calm r s"
  "completes (select_proto sessionEvents sessionEvents_update p ev r) s \<Longrightarrow> calm r s"
  "completes (select_proto requestEvents requestEvents_update p q r) s \<Longrightarrow> calm r s"
  "completes (select_proto notificationEvents notificationEvents_update p n r) s \<Longrightarrow> calm r s"
  "completes (select_proto replyEvents replyEvents_update p rep r) s \<Longrightarrow> calm r s"
  by (erule calm_select_proto [rotated], force simp: same_requests_def)+

lemma completes_require:
  "completes (and_then (require g r) k) s \<Longrightarrow> s = r \<or> completes (k () r) s"
  by (auto simp: require_def split: option.splits)

lemma completes_with_WireID:
  "completes (with_WireID env T r k) s \<Longrightarrow> s = r \<or> (\<exists>w t. T = Some t \<and> completes (k w t) s)"
  by (auto simp: with_WireID_def split: option.splits)

text \<open>A computation that is calm whenever it completes.\<close>

definition calm_code :: "('h, 'v, 'u) Runtime \<Rightarrow> ('a, ('h, 'v, 'u) Runtime) outcome \<Rightarrow> bool" where
  "calm_code r res \<longleftrightarrow> (\<forall>s. completes res s \<longrightarrow> calm r s)"

lemma calm_code_simps [simp]:
  "calm_code r (Return a s) = calm r s" "calm_code r (Panic m s) = calm r s" "calm_code r (Block s)"
  by (auto simp: calm_code_def)

lemma calm_code_and_then:
  "calm_code r x \<Longrightarrow> (\<And>a s. x = Return a s \<Longrightarrow> calm_code s (k a s)) \<Longrightarrow> calm_code r (and_then x k)"
  by (cases x) (auto simp: calm_code_def intro: calm_trans)

lemma calm_code_weaken: "calm r s \<Longrightarrow> calm_code s x \<Longrightarrow> calm_code r x"
  by (auto simp: calm_code_def intro: calm_trans)

lemma calm_code_select [simp]:
  "calm_code r (select_proto messageChannel messageChannel_update p e r)"
  "calm_code r (select_proto timerChannel timerChannel_update p t r)"
  "calm_code r (select_proto sessionEvents sessionEvents_update p ev r)"
  "calm_code r (select_proto requestEvents requestEvents_update p q r)"
  "calm_code r (select_proto notificationEvents notificationEvents_update p n r)"
  "calm_code r (select_proto replyEvents replyEvents_update p rep r)"
  by (simp_all add: calm_code_def calm_select_channels)

lemma calm_code_require [simp]:
  "calm_code r (require g r)" "calm_code r (require_register p a r)" "calm_code r (require_active p a r)"
  by (simp_all add: require_def require_register_def require_active_def split: option.splits)

lemma calm_code_with_WireID: "(\<And>w t. calm_code r (k w t)) \<Longrightarrow> calm_code r (with_WireID env T r k)"
  by (auto simp: with_WireID_def split: option.splits)

lemma calm_deliverReply [simp]: "calm_code r (deliverReply token rep err r)"
  unfolding deliverReply_def by (rule calm_code_and_then) simp_all

lemma calm_respond [simp]: "calm_code r (respond rid rep err r)"
  by (auto simp: respond_def intro!: calm_code_weaken [OF _ calm_deliverReply] split: prod.splits)

lemma calm_publish_loop [simp]: "calm_code r (publish_loop w n subs r)"
proof (induction subs arbitrary: r)
  case (Cons sub subs)
  show ?case unfolding publish_loop.simps
    by (rule calm_code_and_then)
       (auto intro: calm_code_weaken [OF calm_fields(10) Cons.IH] simp del: calm_fields)
qed simp

lemma calm_publish: "calm_code r (PublishNotification env order p N n r)"
  unfolding PublishNotification_def ctx_publishNotification_def publishNotification_def Let_def
  by (intro calm_code_with_WireID calm_code_and_then calm_code_require)
     (rule calm_code_weaken [OF calm_fields(10) calm_publish_loop])

lemma calm_send: "calm_code r (ctx_Send env p msg host r)"
  unfolding ctx_Send_def sendMessage_def Let_def
  by (rule calm_code_and_then)
     (auto simp: intro!: calm_trans [OF calm_fields(2) calm_fields(11)] split: option.splits sum.splits)

lemma calm_codec: "calm_code r (RegisterCodec env p M mar unm r)"
  unfolding RegisterCodec_def registerCodec_def
  by (intro calm_code_with_WireID calm_code_and_then calm_code_require)
     (auto intro!: calm_trans [OF calm_upd_proto calm_fields(3)] simp: same_requests_def)

lemma calm_handler: "calm_code r (RegisterHandler env p M fn r)"
  unfolding RegisterHandler_def registerHandler_def
  by (intro calm_code_with_WireID calm_code_and_then calm_code_require)
     (auto intro!: calm_upd_proto simp: same_requests_def)

lemma calm_connect: "calm_code r (ctx_Connect p host r)"
  unfolding ctx_Connect_def by (rule calm_code_and_then) (auto simp: rt_connect_def)

lemma calm_timer_handler: "calm r (ctx_RegisterTimerHandler p tm fn r)"
  unfolding ctx_RegisterTimerHandler_def by (rule calm_upd_proto) (simp add: same_requests_def)

lemma calm_setupPeriodicTimer: "calm r (setupPeriodicTimer p tm d r)"
  by (auto simp: setupPeriodicTimer_def cancel_ticker_def calm_def completions_def sent_count_def Let_def list_all2_refl
      split: option.splits)

lemma calm_processMessage: "calm_code r (processMessage bs from r)"
proof -
  have "calm_code r (and_then (select_proto messageChannel messageChannel_update p x (sample c r)) (\<lambda>_ r. Return () r))"
    for p x c
    by (rule calm_code_weaken [OF calm_fields(10) [of r c]], rule calm_code_and_then) simp_all
  then show ?thesis
    by (simp add: processMessage_def Let_def split: option.split sum.split prod.split)
qed

lemma calm_fanout_loop [simp]: "calm_code r (fanout_loop ev ps r)"
proof (induction ps arbitrary: r)
  case (Cons p ps)
  show ?case unfolding fanout_loop.simps by (rule calm_code_and_then) (auto intro: Cons.IH)
qed simp

lemma calm_fanout [simp]: "calm_code r (fanoutSessionEvent ev r)"
  by (simp add: fanoutSessionEvent_def)

section \<open>Requests\<close>

text \<open>A timeout that will still reach its requester, and an answer on its way.\<close>

definition live_timeout :: "('h, 'v, 'u) Runtime \<Rightarrow> replyToken \<Rightarrow> bool" where
  "live_timeout r tok \<longleftrightarrow>
     rt_done r \<or> (\<exists>t due. armed r t = Some (due, TimeoutFire tok)) \<or> TimeoutFire tok \<in> set (spawned r)"

definition answer_due :: "('h, 'v, 'u) Runtime \<Rightarrow> pid \<Rightarrow> 64 word \<Rightarrow> bool" where
  "answer_due r p i \<longleftrightarrow>
     (\<exists>rep \<in> set (chan_buf (replyEvents (proto r p))). rep_requestID rep = i) \<or>
     live_timeout r \<lparr>requester = p, requestID = i\<rparr>"

text \<open>The bookkeeping is right, with no claim on the requests in \<open>X\<close> being answered.\<close>

definition ipc_ok_but :: "(pid \<times> 64 word) set \<Rightarrow> ('h, 'v, 'u) Runtime \<Rightarrow> bool" where
  "ipc_ok_but X r \<longleftrightarrow>
     (\<forall>p < length (protocols r). \<forall>i. pending (proto r p) i \<noteq> None \<longrightarrow>
        i \<le> nextRequestID (proto r p) \<and> ((p, i) \<in> X \<or> answer_due r p i)) \<and>
     (\<forall>p < length (protocols r). unat (nextRequestID (proto r p)) \<le> sent_count r) \<and>
     distinct (completions r) \<and>
     (\<forall>p i. Completed p i \<in> set (completions r) \<longrightarrow>
        p < length (protocols r) \<and> pending (proto r p) i = None \<and> i \<le> nextRequestID (proto r p))"

abbreviation ipc_ok :: "('h, 'v, 'u) Runtime \<Rightarrow> bool" where "ipc_ok \<equiv> ipc_ok_but {}"

lemma ipc_okI:
  assumes "\<And>p i. p < length (protocols r) \<Longrightarrow> pending (proto r p) i \<noteq> None \<Longrightarrow>
             i \<le> nextRequestID (proto r p) \<and> ((p, i) \<in> X \<or> answer_due r p i)"
    and "distinct (completions r)"
    and "\<And>p i. Completed p i \<in> set (completions r) \<Longrightarrow>
           p < length (protocols r) \<and> pending (proto r p) i = None \<and> i \<le> nextRequestID (proto r p)"
    and "\<And>p. p < length (protocols r) \<Longrightarrow> unat (nextRequestID (proto r p)) \<le> sent_count r"
  shows "ipc_ok_but X r"
  using assms by (simp add: ipc_ok_but_def)

lemma ipc_okD:
  assumes "ipc_ok_but X r"
  shows "p < length (protocols r) \<Longrightarrow> pending (proto r p) i \<noteq> None \<Longrightarrow> i \<le> nextRequestID (proto r p)"
    and "p < length (protocols r) \<Longrightarrow> pending (proto r p) i \<noteq> None \<Longrightarrow> (p, i) \<in> X \<or> answer_due r p i"
    and "distinct (completions r)"
    and "Completed p i \<in> set (completions r) \<Longrightarrow> p < length (protocols r)"
    and "Completed p i \<in> set (completions r) \<Longrightarrow> pending (proto r p) i = None"
    and "Completed p i \<in> set (completions r) \<Longrightarrow> i \<le> nextRequestID (proto r p)"
    and "p < length (protocols r) \<Longrightarrow> unat (nextRequestID (proto r p)) \<le> sent_count r"
  using assms by (simp_all add: ipc_ok_but_def)

lemma ipc_ok_but_answered:
  assumes "ipc_ok_but {(p, i)} r" and "pending (proto r p) i = None \<or> answer_due r p i"
  shows "ipc_ok r"
proof (rule ipc_okI)
  show "j \<le> nextRequestID (proto r q) \<and> ((q, j) \<in> {} \<or> answer_due r q j)"
    if "q < length (protocols r)" and "pending (proto r q) j \<noteq> None" for q j
    using ipc_okD(1,2) [OF assms(1) that] assms(2) that(2) by auto
qed (use ipc_okD [OF assms(1)] in auto)

definition ipc_le :: "('h, 'v, 'u) Runtime \<Rightarrow> ('h, 'v, 'u) Runtime \<Rightarrow> bool" where
  "ipc_le r r' \<longleftrightarrow> list_all2 same_requests (protocols r) (protocols r') \<and> completions r' = completions r \<and>
     (\<forall>tok. live_timeout r tok \<longrightarrow> live_timeout r' tok) \<and> sent_count r \<le> sent_count r'"

lemma same_requests_nth:
  "list_all2 same_requests ps qs \<Longrightarrow> p < length ps \<Longrightarrow>
   pending (qs ! p) = pending (ps ! p) \<and> nextRequestID (qs ! p) = nextRequestID (ps ! p) \<and>
   set (chan_buf (replyEvents (ps ! p))) \<subseteq> set (chan_buf (replyEvents (qs ! p)))"
  by (simp add: list_all2_conv_all_nth same_requests_def)

lemma ipc_ok_mono:
  assumes "ipc_le r r'" and "ipc_ok_but X r"
  shows "ipc_ok_but X r'"
proof -
  have l: "list_all2 same_requests (protocols r) (protocols r')" using assms(1) by (simp add: ipc_le_def)
  note n = same_requests_nth [OF l] list_all2_lengthD [OF l]
  have "answer_due r' p i" if "p < length (protocols r)" and "answer_due r p i" for p i
    using that n(1) [of p] assms(1) unfolding answer_due_def ipc_le_def by blast
  note due = this
  have c: "completions r' = completions r" using assms(1) by (simp add: ipc_le_def)
  show ?thesis
  proof (rule ipc_okI)
    show "i \<le> nextRequestID (proto r' p) \<and> ((p, i) \<in> X \<or> answer_due r' p i)"
      if "p < length (protocols r')" and "pending (proto r' p) i \<noteq> None" for p i
      using ipc_okD(1,2) [OF assms(2), of p i] due [of p i] n(1) [of p] n(2) that by auto
    show "unat (nextRequestID (proto r' p)) \<le> sent_count r'" if "p < length (protocols r')" for p
      using ipc_okD(7) [OF assms(2), of p] n(1) [of p] n(2) that assms(1) by (simp add: ipc_le_def)
  qed (use ipc_okD(3-6) [OF assms(2)] n c in auto)
qed

lemma calm_ipc_le: "calm r r' \<Longrightarrow> ipc_le r r'"
  by (simp add: calm_def ipc_le_def live_timeout_def)

lemma ipc_le_timers:
  "protocols r' = protocols r \<Longrightarrow> completions r' = completions r \<Longrightarrow> rt_done r' = rt_done r \<Longrightarrow>
   set (spawned r) \<subseteq> set (spawned r') \<Longrightarrow>
   sent_count r \<le> sent_count r' \<Longrightarrow>
   (\<And>t due tok. armed r t = Some (due, TimeoutFire tok) \<Longrightarrow> armed r' t = Some (due, TimeoutFire tok)) \<Longrightarrow>
   ipc_le r r'"
  unfolding ipc_le_def live_timeout_def by (simp add: list_all2_refl) blast

section \<open>Handles\<close>

text \<open>A handle keeps its timer until it is gone for good.\<close>

definition handles_le :: "('h, 'v, 'u) Runtime \<Rightarrow> ('h, 'v, 'u) Runtime \<Rightarrow> bool" where
  "handles_le r r' \<longleftrightarrow> nextHandle r \<le> nextHandle r' \<and>
     (\<forall>t < nextHandle r. armed r' t = armed r t \<or> armed r' t = None)"

lemma handles_le_refl [simp]: "handles_le r r"
  by (simp add: handles_le_def)

lemma handles_le_trans: "handles_le r s \<Longrightarrow> handles_le s t \<Longrightarrow> handles_le r t"
  unfolding handles_le_def by (auto dest: order.strict_trans2) (metis option.distinct(1) order.strict_trans2)

lemma calm_handles_le: "calm r s \<Longrightarrow> handles_le r s"
  by (simp add: calm_def handles_le_def)

section \<open>The invariant\<close>

definition rt_inv :: "('h, 'v, 'u) Runtime \<Rightarrow> bool" where
  "rt_inv r \<longleftrightarrow> timers_ok r \<and> router_inv (ipc r) \<and> ipc_ok r"

definition keeps :: "('h, 'v, 'u) Runtime \<Rightarrow> ('h, 'v, 'u) Runtime \<Rightarrow> bool" where
  "keeps r s \<longleftrightarrow> sent_count r \<le> sent_count s \<and> (few_sent s \<longrightarrow> rt_inv r \<longrightarrow>
     rt_inv s \<and> handles_le r s \<and> length (protocols s) = length (protocols r))"

lemma keeps_refl [simp]: "keeps r r"
  by (simp add: keeps_def)

lemma keeps_trans: "keeps r s \<Longrightarrow> keeps s t \<Longrightarrow> keeps r t"
  unfolding keeps_def few_sent_def using handles_le_trans [of r s t] by auto

lemma calm_keeps: "calm r s \<Longrightarrow> keeps r s"
proof -
  assume c: "calm r s"
  then have "timers_ok s = timers_ok r" "ipc s = ipc r" "length (protocols s) = length (protocols r)"
    using timers_ok_cong [of s r] by (auto simp: calm_def dest: list_all2_lengthD)
  then show ?thesis
    using c calm_handles_le [OF c] ipc_ok_mono [OF calm_ipc_le [OF c]]
    by (simp add: keeps_def rt_inv_def) (simp add: calm_def)
qed

definition keeping :: "('h, 'v, 'u) Runtime \<Rightarrow> ('a, ('h, 'v, 'u) Runtime) outcome \<Rightarrow> bool" where
  "keeping r x \<longleftrightarrow> (\<forall>s. completes x s \<longrightarrow> keeps r s)"

lemma keeping_simps [simp]:
  "keeping r (Return a s) = keeps r s" "keeping r (Panic m s) = keeps r s" "keeping r (Block s)"
  by (auto simp: keeping_def)

lemma keeping_and_then:
  "keeping r x \<Longrightarrow> (\<And>a s. keeping s (k a s)) \<Longrightarrow> keeping r (and_then x k)"
  by (cases x) (auto simp: keeping_def intro: keeps_trans)

lemma keeping_weaken: "keeps r s \<Longrightarrow> keeping s x \<Longrightarrow> keeping r x"
  by (auto simp: keeping_def intro: keeps_trans)

lemma calm_keeping: "calm_code r x \<Longrightarrow> keeping r x"
  by (simp add: calm_code_def keeping_def calm_keeps)

lemma calm_completes: "calm_code r x \<Longrightarrow> completes x s \<Longrightarrow> keeps r s"
  by (simp add: calm_code_def calm_keeps)

lemma keepingD: "keeping r x \<Longrightarrow> completes x s \<Longrightarrow> keeps r s"
  by (simp add: keeping_def)

section \<open>The API keeps it\<close>

lemma keepsI:
  assumes "timers_ok r \<Longrightarrow> timers_ok s" and "router_inv (ipc r) \<Longrightarrow> router_inv (ipc s)"
    and "timers_ok r \<Longrightarrow> ipc_le r s" and "handles_le r s" and "sent_count r \<le> sent_count s"
  shows "keeps r s"
  unfolding keeps_def rt_inv_def using assms ipc_ok_mono [of r s "{}"]
  by (auto simp: ipc_le_def list_all2_lengthD)

lemma keeping_guard:
  "keeping r (k () r) \<Longrightarrow> keeping r (and_then (require_register p a r) k)"
  "keeping r (k () r) \<Longrightarrow> keeping r (and_then (require_active p a r) k)"
  by (auto simp: require_register_def require_active_def require_def split: option.splits)

lemma keeping_with_WireID: "(\<And>w t. keeping r (k w t)) \<Longrightarrow> keeping r (with_WireID env T r k)"
  by (auto simp: with_WireID_def split: option.splits)

text \<open>A change of the router alone.\<close>

lemma keeps_ipc: "(router_inv (ipc r) \<Longrightarrow> router_inv i) \<Longrightarrow> keeps r (r\<lparr>ipc := i\<rparr>)"
  by (rule keepsI)
     (auto simp: timers_ok_cong [of "r\<lparr>ipc := i\<rparr>" r] handles_le_def completions_def sent_count_def
       intro!: ipc_le_timers)

lemma keeping_request_handler: "keeping r (RegisterRequestHandler env p Req fn r)"
proof -
  have k: "keeps r (r\<lparr>ipc := snd (RegisterRequestRoute w p c (ipc r))\<rparr>)" for w c
    by (intro keeps_ipc router_inv_register)
  show ?thesis
    unfolding RegisterRequestHandler_def registerRequestHandler_def
    by (intro keeping_with_WireID keeping_guard)
       (use k in \<open>auto simp: RegisterRequestRoute_def Let_def split: option.splits\<close>)
qed

lemma keeping_subscribe: "keeping r (SubscribeNotification env p N fn r)"
  unfolding SubscribeNotification_def ctx_subscribeNotification_def rt_subscribeNotification_def
  by (intro keeping_with_WireID keeping_guard) (simp add: keeps_ipc router_inv_subscribe)

lemma keeping_unsubscribe: "keeping r (UnsubscribeNotification env p N r)"
  unfolding UnsubscribeNotification_def ctx_unsubscribeNotification_def rt_unsubscribeNotification_def
  by (intro keeping_with_WireID) (simp add: keeps_ipc router_inv_unsubscribe)

text \<open>The timer operations stop only timers they own, never a request timeout.\<close>

lemma keeps_timer_op:
  assumes "timers_ok r \<Longrightarrow> timers_ok s" and "handles_le r s"
    and "protocols s = protocols r" and "calls s = calls r" and "rt_done s = rt_done r"
    and "set (spawned r) \<subseteq> set (spawned s)" and "ipc s = ipc r" and "metrics s = metrics r"
    and "\<And>t due tok. timers_ok r \<Longrightarrow> armed r t = Some (due, TimeoutFire tok) \<Longrightarrow> armed s t = Some (due, TimeoutFire tok)"
  shows "keeps r s"
  by (rule keepsI) (use assms in \<open>auto simp: completions_def sent_count_def intro!: ipc_le_timers\<close>)

lemma keeps_setupTimer: "keeps r (setupTimer p tm d r)"
proof (rule keeps_timer_op)
  show "armed (setupTimer p tm d r) t = Some (due, TimeoutFire tok)"
    if "timers_ok r" and "armed r t = Some (due, TimeoutFire tok)" for t due tok
    using that timers_okD(6) [OF that(1) _ that(2)] timers_ok_fresh(1) [OF that(1)]
    by (auto simp: setupTimer_def AfterFunc_def stop_opt_def Stop_def split: option.splits)
  show "timers_ok r \<Longrightarrow> timers_ok (setupTimer p tm d r)" by (rule timers_ok_setupTimer)
qed (auto simp: handles_le_def setupTimer_def AfterFunc_def stop_opt_def Stop_def
      split: option.splits)

lemma keeps_cancelTimer: "keeps r (cancelTimer i r)"
proof (rule keeps_timer_op)
  show "armed (cancelTimer i r) t = Some (due, TimeoutFire tok)"
    if "timers_ok r" and "armed r t = Some (due, TimeoutFire tok)" for t due tok
    using that timers_okD(6) [OF that(1) _ that(2)]
    by (auto simp: cancelTimer_def cancel_ticker_def Stop_def split: option.splits)
  show "timers_ok r \<Longrightarrow> timers_ok (cancelTimer i r)" by (rule timers_ok_cancelTimer)
qed (auto simp: handles_le_def cancelTimer_def cancel_ticker_def Stop_def
      split: option.splits)

lemma keeps_untrack:
  assumes "connectionRetries r host = Some st"
    and "s = (stop_opt (rs_timer st) r)\<lparr>connectionRetries := map_delete host (connectionRetries r)\<rparr>"
  shows "keeps r s"
  unfolding assms(2)
proof (rule keeps_timer_op)
  show "armed ((stop_opt (rs_timer st) r)\<lparr>connectionRetries := map_delete host (connectionRetries r)\<rparr>) t
      = Some (due, TimeoutFire tok)"
    if "timers_ok r" and "armed r t = Some (due, TimeoutFire tok)" for t due tok
    using that timers_okD(4) [OF that(1) assms(1) _ that(2)]
    by (auto simp: stop_opt_def Stop_def split: option.splits)
  show "timers_ok r \<Longrightarrow>
      timers_ok ((stop_opt (rs_timer st) r)\<lparr>connectionRetries := map_delete host (connectionRetries r)\<rparr>)"
    by (rule timers_ok_untrack [OF _ assms(1)])
qed (auto simp: handles_le_def stop_opt_def Stop_def split: option.splits)

lemma keeps_stopRetryFor: "keeps r (stopRetryFor host r)"
  by (cases "connectionRetries r host") (simp_all add: stopRetryFor_def keeps_untrack)

lemma keeps_onSessionUp: "keeps r (snd (onSessionUpForRetry host r))"
  by (cases "connectionRetries r host") (simp_all add: onSessionUpForRetry_def keeps_untrack)

lemma keeps_onSessionDown: "keeps r (snd (onSessionDownForRetry rnd host r))"
proof (cases "connectionRetries r host")
  case None
  then show ?thesis by (simp add: onSessionDownForRetry_def)
next
  case (Some st)
  show ?thesis
  proof (rule keeps_timer_op)
    show "armed (snd (onSessionDownForRetry rnd host r)) t = Some (due, TimeoutFire tok)"
      if "timers_ok r" and "armed r t = Some (due, TimeoutFire tok)" for t due tok
      using that timers_okD(4) [OF that(1) Some _ that(2)] timers_ok_fresh(1) [OF that(1)]
      unfolding onSessionDownForRetry_tracked [OF Some refl]
      by (auto simp: AfterFunc_def stop_opt_def Stop_def split: option.splits)
    show "timers_ok r \<Longrightarrow> timers_ok (snd (onSessionDownForRetry rnd host r))"
      by (rule timers_ok_onSessionDownForRetry)
  qed (auto simp: onSessionDownForRetry_tracked [OF Some refl] handles_le_def
        AfterFunc_def stop_opt_def Stop_def split: option.splits)
qed

lemma keeping_pair: "keeps r (snd x) \<Longrightarrow> keeping r (case x of (e, s) \<Rightarrow> Return e s)"
  by (cases x) simp

lemma keeps_rt_connect: "keeps r (snd (rt_connect host r))"
  by (simp add: rt_connect_def calm_keeps)

lemma keeping_disconnect: "keeping r (ctx_Disconnect p host r)"
proof -
  have "keeps r (snd (rt_disconnect host r))"
    by (simp add: rt_disconnect_def Let_def keeps_stopRetryFor
        keeps_trans [OF keeps_stopRetryFor calm_keeps [OF calm_fields(11)]])
  then show ?thesis unfolding ctx_Disconnect_def by (intro keeping_guard keeping_pair)
qed

lemma keeping_connect_retry: "keeping r (ctx_ConnectWithRetry p host r)"
proof -
  let ?s = "r\<lparr>connectionRetries := (connectionRetries r)
      (host \<mapsto> \<lparr>rs_policy = withDefaults (retryPolicy r), rs_attempt = 0, rs_timer = None\<rparr>)\<rparr>"
  have "keeps r ?s" if None: "connectionRetries r host = None"
  proof (rule keeps_timer_op)
    assume ok: "timers_ok r"
    show "timers_ok ?s" using timers_ok_connectWithRetry [OF ok, of host] None
      by (simp add: connectWithRetry_def)
  qed (simp_all add: handles_le_def)
  then have "keeps r (snd (connectWithRetry host r))"
    by (simp add: connectWithRetry_def keeps_trans [OF _ keeps_rt_connect])
  then show ?thesis unfolding ctx_ConnectWithRetry_def by (intro keeping_guard keeping_pair)
qed

text \<open>Sending a request enters it in the table and sends its answer on its way: the timeout when there
  is a handler, the error reply when there is none.\<close>

lemma enter_request_sel [simp]:
  "armed (enter_request p w d c r) = armed r" "nextHandle (enter_request p w d c r) = nextHandle r"
  "spawned (enter_request p w d c r) = spawned r" "rt_done (enter_request p w d c r) = rt_done r"
  "ipc (enter_request p w d c r) = ipc r" "completions (enter_request p w d c r) = completions r"
  "length (protocols (enter_request p w d c r)) = length (protocols r)"
  "connectionRetries (enter_request p w d c r) = connectionRetries r"
  "ongoingTimers (enter_request p w d c r) = ongoingTimers r"
  "sent_count (enter_request p w d c r) = Suc (sent_count r)"
  by (simp_all add: enter_request_def Let_def upd_proto_def sample_def completions_def sent_count_def)

lemma proto_enter_request:
  assumes "p < length (protocols r)"
  shows "replyEvents (proto (enter_request p w d c r) q) = replyEvents (proto r q)"
    and "nextRequestID (proto (enter_request p w d c r) q) =
      (if q = p then nextRequestID (proto r p) + 1 else nextRequestID (proto r q))"
    and "pending (proto (enter_request p w d c r) q) i \<noteq> None \<longleftrightarrow>
      q = p \<and> i = nextRequestID (proto r p) + 1 \<or> pending (proto r q) i \<noteq> None"
  using assms by (auto simp: enter_request_def Let_def upd_proto_def sample_def nth_list_update)

lemma enter_request_ok:
  assumes "ipc_ok r" and "p < length (protocols r)" and "nextRequestID (proto r p) \<noteq> - 1"
  shows "ipc_ok_but {(p, nextRequestID (proto r p) + 1)} (enter_request p w d c r)"
proof -
  let ?s = "enter_request p w d c r"
  have lt: "i < nextRequestID (proto r p) + 1" if "i \<le> nextRequestID (proto r p)" for i
    using word_less_inc [OF assms(3) that] .
  have due: "answer_due ?s q i = answer_due r q i" for q i
    by (simp add: answer_due_def live_timeout_def proto_enter_request [OF assms(2)])
  note d = ipc_okD [OF assms(1)] and e = proto_enter_request [OF assms(2), of w d c]
  show ?thesis
  proof (rule ipc_okI)
    show "i \<le> nextRequestID (proto ?s q) \<and> ((q, i) \<in> {(p, nextRequestID (proto r p) + 1)} \<or> answer_due ?s q i)"
      if "q < length (protocols ?s)" and "pending (proto ?s q) i \<noteq> None" for q i
      using that d(1) [of q i] d(2) [of q i] lt [of i] unfolding e(2,3) due by (auto intro: less_imp_le)
    show "q < length (protocols ?s) \<and> pending (proto ?s q) i = None \<and> i \<le> nextRequestID (proto ?s q)"
      if "Completed q i \<in> set (completions ?s)" for q i
      using that d(4-6) [of q i] lt [of i] e(2) [of q] e(3) [of q i] by (auto intro: less_imp_le)
    show "unat (nextRequestID (proto ?s q)) \<le> sent_count ?s" if "q < length (protocols ?s)" for q
      using that d(7) [of q] unat_word_inc [OF assms(3)] by (auto simp: e(2))
  qed (use d(3) in simp)
qed

lemma timers_ok_enter_request [simp]: "timers_ok (enter_request p w d c r) = timers_ok r"
  by (rule timers_ok_cong) simp_all

lemma handles_le_AfterFunc: "handles_le r (snd (AfterFunc d f r))"
  by (simp add: handles_le_def AfterFunc_def)

text \<open>Arming a timer that is not a retry.\<close>

lemma timers_ok_AfterFunc:
  assumes "timers_ok r" and "\<And>h. f \<noteq> RetryFire h"
  shows "timers_ok (snd (AfterFunc d f r))"
  unfolding timers_ok_def AfterFunc_def
  using timers_okD [OF assms(1)] timers_ok_fresh [OF assms(1)] assms(2)
  by (auto intro: less_SucI)

lemma ipc_le_AfterFunc: "timers_ok r \<Longrightarrow> ipc_le r (snd (AfterFunc d f r))"
  by (rule ipc_le_timers) (auto simp: AfterFunc_def completions_def sent_count_def timers_ok_fresh(1))

lemma deliverReply_due:
  assumes "completes (deliverReply \<lparr>requester = p, requestID = i\<rparr> rep err r) s" and "p < length (protocols r)"
  shows "answer_due s p i"
proof (cases "select_send (rt_done r) (rt_preferDone r) \<lparr>rep_requestID = i, rep_rep = rep, rep_err = err\<rparr> (replyEvents (proto r p))")
  case (Sent c)
  then show ?thesis using assms
    by (auto simp: deliverReply_def select_proto_def answer_due_def dest: select_send_Sent)
next
  case CtxDone
  then have "rt_done r" by (auto simp: select_send_def split: if_splits)
  with CtxDone show ?thesis using assms
    by (auto simp: deliverReply_def select_proto_def answer_due_def live_timeout_def)
next
  case Waits
  then show ?thesis using assms by (simp add: deliverReply_def select_proto_def)
qed

lemma sent_count_AfterFunc [simp]: "sent_count (snd (AfterFunc d f r)) = sent_count r"
  by (simp add: AfterFunc_def sent_count_def)

lemma keeps_AfterFunc: "(\<And>h. f \<noteq> RetryFire h) \<Longrightarrow> keeps r (snd (AfterFunc d f r))"
  by (rule keepsI)
     (simp_all add: timers_ok_AfterFunc ipc_le_AfterFunc handles_le_AfterFunc, simp add: AfterFunc_def)

text \<open>What \<open>sendRequest\<close> does after the request is in the table.\<close>

lemma sendRequest_rest:
  assumes "completes (sendRequest p w req d c r) s"
    and "e = enter_request p w d c r" and "tok = \<lparr>requester = p, requestID = nextRequestID (proto r p) + 1\<rparr>"
  shows "completes (deliverReply tok None (Some ErrNoRequestHandler) e) s \<or>
         calm (snd (AfterFunc d (TimeoutFire tok) e)) s"
proof (cases "Route (ipc e) w")
  case None
  then show ?thesis using assms by (simp add: sendRequest_def Let_def)
next
  case (Some route)
  let ?t = "snd (AfterFunc d (TimeoutFire tok) e)"
  have "calm_code ?t (and_then (select_proto requestEvents requestEvents_update q x ?t) (\<lambda>_ r. Return () r))"
    for q x by (rule calm_code_and_then) simp_all
  moreover have "sendRequest p w req d c r = and_then (select_proto requestEvents requestEvents_update
      (route_proto route) \<lparr>ir_req = req, ir_token = tok, ir_handler = route_handler route\<rparr> ?t) (\<lambda>_ r. Return () r)"
    using Some by (simp add: sendRequest_def Let_def AfterFunc_def assms(2,3))
  ultimately show ?thesis using assms(1) by (simp add: calm_code_def)
qed

text \<open>From a state in which everything but one request is in order to one in which that request has
  its answer on the way.\<close>

lemma answered_inv:
  assumes "timers_ok t" and "router_inv (ipc t)" and "ipc_ok_but {(p, i)} t" and "calm t s" and "answer_due s p i"
  shows "rt_inv s \<and> handles_le t s \<and> length (protocols s) = length (protocols t)"
proof -
  have "ipc_ok s"
    using ipc_ok_mono [OF calm_ipc_le [OF assms(4)] assms(3)] assms(5) ipc_ok_but_answered by blast
  moreover have "timers_ok s = timers_ok t" "ipc s = ipc t" "length (protocols s) = length (protocols t)"
    using timers_ok_cong [of s t] assms(4) by (auto simp: calm_def dest: list_all2_lengthD)
  ultimately show ?thesis using assms calm_handles_le [OF assms(4)] by (simp add: rt_inv_def)
qed

lemma sent_count_mono: "calm r s \<Longrightarrow> sent_count r \<le> sent_count s"
  by (simp add: calm_def)

lemma keeps_sendRequest:
  assumes "completes (sendRequest p w req d c r) s"
  shows "keeps r s"
proof -
  let ?i = "nextRequestID (proto r p) + 1" and ?e = "enter_request p w d c r"
  let ?tok = "\<lparr>requester = p, requestID = ?i\<rparr>"
  let ?t = "snd (AfterFunc d (TimeoutFire ?tok) ?e)"
  consider (none) "completes (deliverReply ?tok None (Some ErrNoRequestHandler) ?e) s" "calm ?e s" | (some) "calm ?t s"
    using sendRequest_rest [OF assms refl refl] calm_deliverReply [unfolded calm_code_def] by blast
  note cases = this
  have sent: "Suc (sent_count r) \<le> sent_count s"
    using cases sent_count_mono [of ?e s] sent_count_mono [of ?t s] by cases simp_all
  show ?thesis
  proof (cases "p < length (protocols r)")
    case False
    have "calm r ?e"
    proof -
      have same: "upd_proto p f u = u" if "length (protocols u) = length (protocols r)" for f and u :: "('a, 'b, 'd) Runtime"
        using False that by (simp add: upd_proto_def list_update_beyond)
      have "enter_request p w d c r = sample (Counter ''protorun.ipc.request.sent'' 1 [WireIDAttr w]) r"
        unfolding enter_request_def Let_def by (simp add: same)
      then show ?thesis by simp
    qed
    moreover have "keeps ?e ?t" by (rule keeps_AfterFunc) simp
    ultimately have "keeps r ?e" "keeps r ?t" using calm_keeps keeps_trans by blast+
    then show ?thesis using cases by cases (auto intro: keeps_trans [OF _ calm_keeps])
  next
    case True
    have "rt_inv s \<and> handles_le r s \<and> length (protocols s) = length (protocols r)" if inv: "rt_inv r" and "few_sent s"
    proof -
      have ok: "ipc_ok r" using inv by (simp add: rt_inv_def)
      have "unat (nextRequestID (proto r p)) < 2 ^ 64 - 1"
        using ipc_okD(7) [OF ok True] sent that(2) by (simp add: few_sent_def)
      then have "nextRequestID (proto r p) \<noteq> - 1" by (auto simp: unsigned_minus_1_eq_mask mask_eq_exp_minus_1)
      then have e: "timers_ok ?e" "router_inv (ipc ?e)" "ipc_ok_but {(p, ?i)} ?e"
        using inv enter_request_ok [OF ok True] by (auto simp: rt_inv_def)
      from cases show ?thesis
      proof cases
        case none
        have "answer_due s p ?i" using deliverReply_due [OF none(1)] True by simp
        then show ?thesis using answered_inv [OF e none(2)] by (simp add: handles_le_def)
      next
        case some
        have t: "timers_ok ?t" "router_inv (ipc ?t)" "ipc_ok_but {(p, ?i)} ?t"
          using timers_ok_AfterFunc [OF e(1)] e(2) ipc_ok_mono [OF ipc_le_AfterFunc [OF e(1)] e(3)]
          by (simp_all add: AfterFunc_def)
        have "armed s = armed ?t" using some by (simp add: calm_def)
        then have "answer_due s p ?i" by (auto simp: answer_due_def live_timeout_def AfterFunc_def)
        then have k: "rt_inv s \<and> handles_le ?t s \<and> length (protocols s) = length (protocols ?t)"
          by (rule answered_inv [OF t some])
        have "handles_le r ?t" by (simp add: handles_le_def AfterFunc_def)
        with k show ?thesis using handles_le_trans [of r ?t s] by (simp add: AfterFunc_def)
      qed
    qed
    then show ?thesis using sent by (simp add: keeps_def)
  qed
qed

theorem api_step_keeps: "api_step env r s \<Longrightarrow> keeps r s"
proof (induction rule: api_step.induct)
  case (memory r u)
  show ?case by (simp add: calm_keeps)
next
  case (codec p M mar unm r r')
  then show ?case by (blast intro: calm_completes [OF calm_codec])
next
  case (handler p M fn r r')
  then show ?case by (blast intro: calm_completes [OF calm_handler])
next
  case (request_handler p Req fn r r')
  then show ?case by (blast intro: keepingD [OF keeping_request_handler])
next
  case (subscribe p N fn r r')
  then show ?case by (blast intro: keepingD [OF keeping_subscribe])
next
  case (unsubscribe p N r r')
  then show ?case by (blast intro: keepingD [OF keeping_unsubscribe])
next
  case (timer_handler r p tm fn)
  then show ?case by (simp add: calm_timer_handler calm_keeps)
next
  case (connect p host r r')
  then show ?case by (blast intro: calm_completes [OF calm_connect])
next
  case (connect_retry p host r r')
  then show ?case by (blast intro: keepingD [OF keeping_connect_retry])
next
  case (disconnect p host r r')
  then show ?case by (blast intro: keepingD [OF keeping_disconnect])
next
  case (send p msg host r r')
  then show ?case by (blast intro: calm_completes [OF calm_send])
next
  case (send_request p Req Rep req d fn r r')
  then show ?case
    by (auto simp: SendRequestWithTimeout_def Let_def ctx_sendRequest_def require_active_def keeps_sendRequest
        dest!: completes_with_WireID completes_require)
next
  case (reply rid v r r')
  then show ?case unfolding responder_Reply_def by (blast intro: calm_completes [OF calm_respond])
next
  case (fail rid e r r')
  then show ?case unfolding responder_Fail_def by (blast intro: calm_completes [OF calm_respond])
next
  case (publish order p N n r r')
  then show ?case by (blast intro: calm_completes [OF calm_publish])
qed (simp_all add: keeps_setupTimer keeps_cancelTimer calm_setupPeriodicTimer calm_keeps)

lemma api_steps_keeps: "api_steps env r s \<Longrightarrow> keeps r s"
  by (induction rule: rtranclp_induct) (auto intro: keeps_trans api_step_keeps)

section \<open>The watchdog\<close>

definition inv_but :: "(pid \<times> 64 word) set \<Rightarrow> ('h, 'v, 'u) Runtime \<Rightarrow> bool" where
  "inv_but X r \<longleftrightarrow> timers_ok r \<and> router_inv (ipc r) \<and> ipc_ok_but X r"

definition kept :: "('h, 'v, 'u) Runtime \<Rightarrow> ('h, 'v, 'u) Runtime \<Rightarrow> bool" where
  "kept r s \<longleftrightarrow> sent_count r \<le> sent_count s \<and> (few_sent s \<longrightarrow>
     rt_inv s \<and> handles_le r s \<and> length (protocols s) = length (protocols r))"

lemma rt_inv_but: "rt_inv r = inv_but {} r"
  by (simp add: rt_inv_def inv_but_def)

lemma keeps_kept: "keeps r s = (sent_count r \<le> sent_count s \<and> (rt_inv r \<longrightarrow> kept r s))"
  by (auto simp: keeps_def kept_def)

lemma kept_keeps: "kept r s \<Longrightarrow> keeps s t \<Longrightarrow> kept r t"
  using handles_le_trans [of r s t] by (auto simp: kept_def keeps_def few_sent_def)

definition stops_watchdog :: "nat option \<Rightarrow> ('h, 'v, 'u) Runtime \<Rightarrow> bool" where
  "stops_watchdog w r \<longleftrightarrow>
     (\<forall>t. w = Some t \<longrightarrow> t < nextHandle r \<and> (\<forall>due f. armed r t = Some (due, f) \<longrightarrow> (\<exists>p site. f = WatchdogFire p site)))"

lemma strictWatchdog_inv:
  assumes "strictWatchdog p site r = (w, r1)" and "inv_but X r"
  shows "inv_but X r1 \<and> handles_le r r1 \<and> protocols r1 = protocols r \<and> stops_watchdog w r1 \<and>
    sent_count r1 = sent_count r"
proof (cases "\<not> bound (proto r p) \<or> \<not> strict r \<or> strictHandlerTimeout r \<le> 0")
  case True
  then show ?thesis using assms by (auto simp: strictWatchdog_def stops_watchdog_def)
next
  case False
  let ?a = "AfterFunc (strictHandlerTimeout r) (WatchdogFire p site) r"
  have r1: "r1 = snd ?a" "w = Some (fst ?a)"
    using False assms(1) by (auto simp: strictWatchdog_def split: prod.splits)
  have ok: "timers_ok r" using assms(2) by (simp add: inv_but_def)
  show ?thesis
    using assms(2) timers_ok_AfterFunc [OF ok, of "WatchdogFire p site"]
      ipc_ok_mono [OF ipc_le_AfterFunc [OF ok], of X "strictHandlerTimeout r" "WatchdogFire p site"]
      handles_le_AfterFunc [of r]
    unfolding r1 by (simp add: inv_but_def stops_watchdog_def) (simp add: AfterFunc_def)
qed

lemma stops_watchdog_mono: "stops_watchdog w r \<Longrightarrow> handles_le r s \<Longrightarrow> stops_watchdog w s"
  unfolding stops_watchdog_def handles_le_def by (metis option.distinct(1) order.strict_trans2)

lemma keeps_stop_watchdog:
  assumes "stops_watchdog w r"
  shows "keeps r (stop_opt w r)"
proof (cases w)
  case (Some t)
  have "keeps r (Stop t r)"
  proof (rule keeps_timer_op)
    show "timers_ok r \<Longrightarrow> timers_ok (Stop t r)" by (auto simp: timers_ok_def Stop_def)
    show "armed (Stop t r) u = Some (due, TimeoutFire tok)"
      if "timers_ok r" "armed r u = Some (due, TimeoutFire tok)" for u due tok
      using that assms Some by (auto simp: Stop_def stops_watchdog_def)
  qed (simp_all add: handles_le_def Stop_def)
  then show ?thesis by (simp add: Some stop_opt_def)
qed (simp add: stop_opt_def)

section \<open>User code and the event loops\<close>

text \<open>The contract of user code.\<close>

locale hosted_protocols =
  fixes env :: "'v go_values" and run :: "('h, 'v, 'u) user_code"
  assumes api_only: "completes (run h arg r) s \<Longrightarrow> api_steps env r s"
begin

lemma keeping_call_user: "keeping r (call_user run p h arg r)"
  unfolding call_user_def keeping_def
  using keeps_trans [OF calm_keeps [OF calm_fields(12)] api_steps_keeps [OF api_only]] by blast

lemma keeping_reportPanic: "keeping r (reportPanic run p site rec r)"
proof -
  have "keeping s (case call_user run p h arg s of Return _ t \<Rightarrow> Return () t | Block t \<Rightarrow> Block t | Panic _ t \<Rightarrow> Return () t)"
    for s h arg
    using keeping_call_user [of s p h arg] by (cases "call_user run p h arg s") auto
  then have "keeping r (case call_user run p h arg s of Return _ t \<Rightarrow> Return () t | Block t \<Rightarrow> Block t | Panic _ t \<Rightarrow> Return () t)"
    if "keeps r s" for s h arg
    using that keeping_weaken by blast
  then show ?thesis unfolding reportPanic_def Let_def by (auto simp: calm_keeps split: option.splits)
qed

lemma keeping_invoke_handler: "keeping r (invoke_handler env run p c raw from r)"
  by (auto simp: invoke_handler_def keeping_call_user split: closure.splits)

lemma keeping_invoke_reply: "keeping r (invoke_reply env run p c rep err r)"
  by (auto simp: invoke_reply_def keeping_call_user split: closure.splits option.splits)

lemma keeping_invoke_notification: "keeping r (invoke_notification env run p c raw r)"
  by (auto simp: invoke_notification_def keeping_call_user split: closure.splits)

lemma keeping_deliverSessionEvent: "keeping r (deliverSessionEvent run p ev r)"
  by (auto simp: deliverSessionEvent_def keeping_call_user Let_def split: sessionEventType.splits option.splits)

lemma keeping_invoke_request: "keeping r (invoke_request env run c raw token r)"
proof -
  have "keeping s (case call_user run p h arg s of Return _ t \<Rightarrow> Return () t | Block t \<Rightarrow> Block t
      | Panic rec t \<Rightarrow> and_then (reportPanic run p site rec t) (\<lambda>_ u. responder_Fail rid e u))"
    for s p h arg rid e site
  proof -
    have "keeping t (and_then (reportPanic run p site rec t) (\<lambda>_ u. responder_Fail rid e u))" for t rec
      by (rule keeping_and_then) (simp_all add: keeping_reportPanic responder_Fail_def calm_keeping)
    then show ?thesis
      using keeping_call_user [of s p h arg] by (cases "call_user run p h arg s") (auto intro: keeping_weaken)
  qed
  note k = this
  show ?thesis
  proof (cases c)
    case (RequestFn p Req fn)
    then show ?thesis
      by (simp add: invoke_request_unfold Let_def calm_keeping keeping_weaken [OF calm_keeps [OF calm_fields(9)] k])
  qed (simp_all add: invoke_request_def)
qed

text \<open>How a call under \<open>safeCall\<close> that completes is composed.\<close>

lemma safeCall_parts:
  assumes "completes (safeCall run p site fn r) s" and "strictWatchdog p site r = (w, r1)"
  shows "\<exists>u t. completes (fn r1) u \<and> (t = u \<or> (\<exists>m. completes (reportPanic run p site m u) t)) \<and>
    (s = t \<or> s = stop_opt w t)"
proof -
  let ?body = "case fn r1 of Return _ t \<Rightarrow> Return () t | Block t \<Rightarrow> Block t | Panic rec t \<Rightarrow> reportPanic run p site rec t"
  have "completes (and_then ?body (\<lambda>_ s. Return () (stop_opt w s))) s"
    using assms by (simp add: safeCall_def)
  then obtain t where t: "completes ?body t" "s = t \<or> s = stop_opt w t"
    by (cases ?body) auto
  then have "\<exists>u. completes (fn r1) u \<and> (t = u \<or> (\<exists>m. completes (reportPanic run p site m u) t))"
    by (cases "fn r1") auto
  with t(2) show ?thesis by blast
qed

lemma safeCall_mono:
  assumes "completes (safeCall run p site fn r) s" and "\<And>t u. completes (fn t) u \<Longrightarrow> sent_count t \<le> sent_count u"
  shows "sent_count r \<le> sent_count s"
proof -
  obtain w r1 where w: "strictWatchdog p site r = (w, r1)" by (rule prod.exhaust)
  obtain u t where u: "completes (fn r1) u" "t = u \<or> (\<exists>m. completes (reportPanic run p site m u) t)"
      "s = t \<or> s = stop_opt w t"
    using safeCall_parts [OF assms(1) w] by blast
  have "sent_count r1 = sent_count r"
    using w by (auto simp: strictWatchdog_def AfterFunc_def sent_count_def split: if_splits)
  moreover have "sent_count u \<le> sent_count t"
    using u(2) keepingD [OF keeping_reportPanic] by (auto simp: keeps_def)
  moreover have "sent_count s = sent_count t"
    using u(3) by (auto simp: stop_opt_def Stop_def sent_count_def split: option.splits)
  ultimately show ?thesis using assms(2) [OF u(1)] by linarith
qed

lemma safeCall_kept:
  assumes "inv_but X r" and "completes (safeCall run p site fn r) s"
    and "\<And>t u. inv_but X t \<Longrightarrow> protocols t = protocols r \<Longrightarrow> completes (fn t) u \<Longrightarrow> kept t u"
  shows "kept r s"
proof -
  obtain w r1 where w: "strictWatchdog p site r = (w, r1)" by (rule prod.exhaust)
  note i = strictWatchdog_inv [OF w assms(1)]
  obtain u t where u: "completes (fn r1) u" "t = u \<or> (\<exists>m. completes (reportPanic run p site m u) t)"
      "s = t \<or> s = stop_opt w t"
    using safeCall_parts [OF assms(2) w] by blast
  have "kept r1 u" using assms(3) [OF _ _ u(1)] i by blast
  then have k: "kept r1 t" using u(2) kept_keeps keepingD [OF keeping_reportPanic] by blast
  have sent: "sent_count (stop_opt w t) = sent_count t"
    by (simp add: stop_opt_def Stop_def sent_count_def split: option.splits)
  have "kept r1 (stop_opt w t)"
  proof (cases "few_sent t")
    case True
    then have "stops_watchdog w t" using k i stops_watchdog_mono by (simp add: kept_def) blast
    then show ?thesis using kept_keeps [OF k keeps_stop_watchdog] by blast
  next
    case False
    then show ?thesis using k by (simp add: kept_def sent few_sent_def)
  qed
  then have "kept r1 s" using k u(3) by blast
  then show ?thesis using i handles_le_trans [of r r1 s] by (simp add: kept_def)
qed

lemma keeping_safeCall:
  assumes "\<And>t. keeping t (fn t)"
  shows "keeping r (safeCall run p site fn r)"
proof -
  have "keeps t u" if "completes (fn t) u" for t u using assms that by (simp add: keeping_def)
  note k = this
  have "kept r s" if "rt_inv r" "completes (safeCall run p site fn r) s" for s
    using safeCall_kept [of "{}" r p site fn s] that k by (auto simp: rt_inv_but keeps_kept)
  moreover have "sent_count r \<le> sent_count s" if "completes (safeCall run p site fn r) s" for s
    by (rule safeCall_mono [OF that]) (use k in \<open>simp add: keeps_def\<close>)
  ultimately show ?thesis by (simp add: keeping_def keeps_kept)
qed

lemma keeping_handleMessage: "keeping r (handleMessage env run p e r)"
  unfolding handleMessage_def Let_def
  by (simp add: calm_keeps keeping_weaken [OF calm_keeps [OF calm_fields(2)] keeping_safeCall [OF keeping_invoke_handler]]
      split: option.split)

lemma keeping_handleTimer: "keeping r (handleTimer run p tm r)"
  unfolding handleTimer_def by (auto intro!: keeping_safeCall keeping_call_user split: option.splits)

text \<open>The turn that takes a reply from the channel: its request is no longer answered by the channel,
  and no longer pending either.\<close>

lemma proto_deliverReply_kept:
  assumes "inv_but {(p, rep_requestID rep)} t" and "p < length (protocols t)"
    and "completes (proto_deliverReply env run p rep t) s"
  shows "kept t s"
proof (cases "pending (proto t p) (rep_requestID rep)")
  case None
  then have "kept t t"
    using assms(1) ipc_ok_but_answered by (auto simp: kept_def rt_inv_def inv_but_def)
  moreover have "s = sample (Counter ''protorun.ipc.reply.dropped_late'' 1 []) t"
    using assms(3) None by (simp add: proto_deliverReply_def)
  ultimately show ?thesis using kept_keeps [OF _ calm_keeps [OF calm_fields(10)]] by simp
next
  case (Some pr)
  let ?i = "rep_requestID rep"
  obtain u where u: "completes (invoke_reply env run p (cb pr) (rep_rep rep) (rep_err rep) u) s"
      "protocols u = (protocols t)[p := (proto t p)\<lparr>pending := map_delete ?i (pending (proto t p))\<rparr>]"
      "armed u = armed t" "nextHandle u = nextHandle t" "spawned u = spawned t" "ipc u = ipc t"
      "connectionRetries u = connectionRetries t" "ongoingTimers u = ongoingTimers t" "rt_done u = rt_done t"
      "completions u = completions t @ [Completed p ?i]" "sent_count u = sent_count t"
    using assms(3) Some
    by (simp add: proto_deliverReply_def Let_def sample_def upd_proto_def completions_def sent_count_def)
  have ok: "ipc_ok_but {(p, ?i)} t" using assms(1) by (simp add: inv_but_def)
  note d = ipc_okD [OF ok]
  have due: "answer_due u q j = answer_due t q j" for q j
    by (auto simp: answer_due_def live_timeout_def u nth_list_update assms(2))
  have "ipc_ok u"
  proof (rule ipc_okI)
    show "j \<le> nextRequestID (proto u q) \<and> ((q, j) \<in> {} \<or> answer_due u q j)"
      if "q < length (protocols u)" "pending (proto u q) j \<noteq> None" for q j
      using that d(1) [of q j] d(2) [of q j] due [of q j]
      by (auto simp: u nth_list_update assms(2) split: if_splits)
    show "distinct (completions u)" using d(3,5) Some by (auto simp: u(10))
    show "q < length (protocols u) \<and> pending (proto u q) j = None \<and> j \<le> nextRequestID (proto u q)"
      if "Completed q j \<in> set (completions u)" for q j
      using that d(4-6) [of q j] d(1) [of p ?i] assms(2) Some
      by (auto simp: u nth_list_update split: if_splits)
    show "unat (nextRequestID (proto u q)) \<le> sent_count u" if "q < length (protocols u)" for q
      using that d(7) [of q] by (auto simp: u nth_list_update assms(2))
  qed
  then have "kept t u"
    using assms(1) timers_ok_cong [of u t] u by (simp add: kept_def rt_inv_def inv_but_def handles_le_def)
  then show ?thesis using kept_keeps keepingD [OF keeping_invoke_reply u(1)] by blast
qed

lemma proto_deliverReply_mono:
  assumes "completes (proto_deliverReply env run p rep t) s"
  shows "sent_count t \<le> sent_count s"
proof (cases "pending (proto t p) (rep_requestID rep)")
  case None
  then show ?thesis using assms by (auto simp: proto_deliverReply_def sample_def sent_count_def)
next
  case (Some pr)
  then obtain u where "completes (invoke_reply env run p (cb pr) (rep_rep rep) (rep_err rep) u) s"
      "sent_count u = sent_count t"
    using assms by (simp add: proto_deliverReply_def Let_def sample_def upd_proto_def sent_count_def)
  then show ?thesis using keepingD [OF keeping_invoke_reply] by (metis keeps_def)
qed

lemma take_reply:
  assumes "rt_inv r" and "p < length (protocols r)"
    and "chan_buf (replyEvents (proto r p)) = rep # reps" and "chan_buf ch = reps"
  shows "inv_but {(p, rep_requestID rep)} (upd_proto p (replyEvents_update (\<lambda>_. ch)) r)" (is "inv_but ?X ?s")
proof -
  have ok: "ipc_ok r" using assms(1) by (simp add: rt_inv_def)
  note d = ipc_okD [OF ok]
  have due: "answer_due ?s q j" if "answer_due r q j" and "(q, j) \<notin> ?X" for q j
    using that assms(2-4) by (auto simp: answer_due_def live_timeout_def upd_proto_def nth_list_update)
  have same: "pending (proto ?s q) = pending (proto r q)" "nextRequestID (proto ?s q) = nextRequestID (proto r q)" for q
    using assms(2) by simp_all
  have c: "completions ?s = completions r" "ipc ?s = ipc r" by (simp_all add: completions_def upd_proto_def)
  have "ipc_ok_but ?X ?s"
  proof (rule ipc_okI)
    show "j \<le> nextRequestID (proto ?s q) \<and> ((q, j) \<in> ?X \<or> answer_due ?s q j)"
      if "q < length (protocols ?s)" "pending (proto ?s q) j \<noteq> None" for q j
      using that d(1) [of q j] d(2) [of q j] due [of q j] unfolding same by auto
    show "unat (nextRequestID (proto ?s q)) \<le> sent_count ?s" if "q < length (protocols ?s)" for q
      using d(7) [of q] that unfolding same by (simp add: sent_count_def upd_proto_def)
  qed (use d(3-6) in \<open>simp_all add: same c\<close>)
  then show ?thesis using assms(1) by (simp add: inv_but_def rt_inv_def c)
qed

lemma keeping_turn:
  assumes "eventHandler env run p lc r = Some x" and "p < length (protocols r)"
  shows "keeping r x"
proof (cases lc)
  case OnReply
  then obtain rep reps where reps: "chan_buf (replyEvents (proto r p)) = rep # reps"
    and x: "x = safeCall run p ''reply handler'' (proto_deliverReply env run p rep)
      (upd_proto p (replyEvents_update (\<lambda>_. (replyEvents (proto r p))\<lparr>chan_buf := reps\<rparr>)) r)"
    using assms(1) by (auto simp: eventHandler_def recv_def split: list.splits)
  let ?r1 = "upd_proto p (replyEvents_update (\<lambda>_. (replyEvents (proto r p))\<lparr>chan_buf := reps\<rparr>)) r"
  have "kept r s" if inv: "rt_inv r" and s: "completes x s" for s
  proof -
    have i: "inv_but {(p, rep_requestID rep)} ?r1"
      using take_reply [OF inv assms(2) reps, of "(replyEvents (proto r p))\<lparr>chan_buf := reps\<rparr>"] by simp
    have "kept ?r1 s"
      using safeCall_kept [OF i s [unfolded x] proto_deliverReply_kept] assms(2) by simp
    then show ?thesis by (simp add: kept_def handles_le_def upd_proto_def sent_count_def)
  qed
  moreover have "sent_count r \<le> sent_count s" if "completes x s" for s
    using safeCall_mono [OF that [unfolded x] proto_deliverReply_mono] by (simp add: upd_proto_def sent_count_def)
  ultimately show ?thesis by (simp add: keeping_def keeps_kept)
next
  case OnMessage
  have "keeps r (upd_proto p (messageChannel_update (\<lambda>_. ch)) r)" for ch
    by (intro calm_keeps calm_upd_proto) (simp add: same_requests_def)
  then show ?thesis using OnMessage assms(1)
    by (auto simp: eventHandler_def recv_def intro: keeping_weaken [OF _ keeping_handleMessage] split: list.splits)
next
  case OnTimer
  have "keeps r (upd_proto p (timerChannel_update (\<lambda>_. ch)) r)" for ch
    by (intro calm_keeps calm_upd_proto) (simp add: same_requests_def)
  then show ?thesis using OnTimer assms(1)
    by (auto simp: eventHandler_def recv_def intro: keeping_weaken [OF _ keeping_handleTimer] split: list.splits)
next
  case OnSession
  have "keeps r (upd_proto p (sessionEvents_update (\<lambda>_. ch)) r)" for ch
    by (intro calm_keeps calm_upd_proto) (simp add: same_requests_def)
  then show ?thesis using OnSession assms(1)
    by (auto simp: eventHandler_def recv_def intro: keeping_weaken [OF _ keeping_safeCall [OF keeping_deliverSessionEvent]] split: list.splits)
next
  case OnRequest
  have "keeps r (upd_proto p (requestEvents_update (\<lambda>_. ch)) r)" for ch
    by (intro calm_keeps calm_upd_proto) (simp add: same_requests_def)
  then show ?thesis using OnRequest assms(1)
    by (auto simp: eventHandler_def recv_def intro: keeping_weaken [OF _ keeping_safeCall [OF keeping_invoke_request]] split: list.splits)
next
  case OnNotification
  have "keeps r (upd_proto p (notificationEvents_update (\<lambda>_. ch)) r)" for ch
    by (intro calm_keeps calm_upd_proto) (simp add: same_requests_def)
  then show ?thesis using OnNotification assms(1)
    by (auto simp: eventHandler_def recv_def intro: keeping_weaken [OF _ keeping_safeCall [OF keeping_invoke_notification]] split: list.splits)
qed

lemma calm_ensureContext: "calm_code r (ensureContext p r)"
  by (simp add: ensureContext_def calm_upd_proto same_requests_def)

lemma calm_setPhase: "calm r (setPhase ph p r)"
  unfolding setPhase_def by (rule calm_upd_proto) (simp add: same_requests_def)

lemma keeping_proto_Start: "keeping r (proto_Start run p r)"
  unfolding proto_Start_def
proof (intro keeping_and_then)
  show "keeping r (ensureContext p r)" by (rule calm_keeping [OF calm_ensureContext])
  show "keeping s (call_user run p h a (setPhase phaseRegistering p s))" for s h a
    by (rule keeping_weaken [OF calm_keeps [OF calm_setPhase] keeping_call_user])
  show "keeping s (Return () (upd_proto p (\<lambda>q. q\<lparr>loop_started := True\<rparr>) (setPhase phaseRegistered p s)))" for s
    by (simp add: calm_keeps calm_trans [OF calm_setPhase calm_upd_proto] same_requests_def)
qed

lemma keeping_proto_Init: "keeping r (proto_Init run p r)"
  unfolding proto_Init_def
proof (intro keeping_and_then)
  show "keeping r (ensureContext p r)" by (rule calm_keeping [OF calm_ensureContext])
  show "keeping s (call_user run p h a (setPhase phaseInitializing p s))" for s h a
    by (rule keeping_weaken [OF calm_keeps [OF calm_setPhase] keeping_call_user])
  show "keeping s (Return () (setPhase phaseRunning p s))" for s by (simp add: calm_keeps calm_setPhase)
qed

lemma keeping_each: "(\<And>p s. keeping s (f p s)) \<Longrightarrow> keeping r (each_protocol f ps r)"
  by (induction ps arbitrary: r) (auto intro!: keeping_and_then)

lemma keeping_start: "keeping r (rt_start run r)"
  unfolding rt_start_def startProtocols_def initProtocols_def
  by (auto intro!: keeping_and_then keeping_each keeping_proto_Start keeping_proto_Init simp: calm_keeps)

end

section \<open>The other goroutines\<close>

lemma keeping_dispatchSessionEvent: "keeping r (dispatchSessionEvent rnd ev r)"
proof -
  have up: "keeping r (fanoutSessionEvent e (snd (onSessionUpForRetry h (sample x r))))" for e h x
    by (rule keeping_weaken [OF keeps_trans [OF calm_keeps [OF calm_fields(10)] keeps_onSessionUp] calm_keeping [OF calm_fanout]])
  have down: "keeps r (snd (onSessionDownForRetry rnd h (sample x r)))" for h x
    by (rule keeps_trans [OF calm_keeps [OF calm_fields(10)] keeps_onSessionDown])
  have fan1: "keeping s (fanoutSessionEvent e s)" for s e by (rule calm_keeping [OF calm_fanout])
  have fan2: "keeping s (fanoutSessionEvent e (sample x s))" for s e x
    by (rule keeping_weaken [OF calm_keeps [OF calm_fields(10)] fan1])
  have fan3: "keeping s (and_then (fanoutSessionEvent e (sample x s))
      (\<lambda>ok t. if ok then fanoutSessionEvent e' t else Return False t))" for s e e' x
    by (rule keeping_and_then [OF fan2]) (simp add: fan1)
  show ?thesis
  proof (cases ev)
    case (SessionDisconnected h)
    obtain g a s where s: "onSessionDownForRetry rnd h (sample (Counter ''protorun.session.disconnected'' 1 [HostAttr h]) r) = ((g, a), s)"
      by (metis prod.exhaust)
    then have "keeps r s" using down by (metis snd_conv)
    then show ?thesis using s by (simp add: dispatchSessionEvent_def SessionDisconnected Let_def keeping_weaken [OF _ fan1] keeping_weaken [OF _ fan3])
  next
    case (SessionFailed h)
    obtain g a s where s: "onSessionDownForRetry rnd h (sample (Counter ''protorun.session.failed'' 1 [HostAttr h]) r) = ((g, a), s)"
      by (metis prod.exhaust)
    then have "keeps r s" using down by (metis snd_conv)
    then show ?thesis using s by (simp add: dispatchSessionEvent_def SessionFailed Let_def keeping_weaken [OF _ fan2])
  qed (simp_all add: dispatchSessionEvent_def up)
qed

lemma keeps_fire: "keeps r (fire t r)"
proof (rule keepsI)
  show "timers_ok r \<Longrightarrow> timers_ok (fire t r)" by (rule timers_ok_fire)
  have "live_timeout (fire t r) tok" if "live_timeout r tok" for tok
    using that unfolding live_timeout_def fire_def
    by (cases "armed r t", simp, cases "the (armed r t)") (simp, metis option.inject prod.inject)
  then show "ipc_le r (fire t r)"
    by (auto simp: ipc_le_def fire_def completions_def sent_count_def list_all2_refl split: option.splits)
qed (auto simp: sent_count_def fire_def handles_le_def split: option.splits)

lemma keeps_Cancel: "keeps r (Cancel r)"
proof -
  let ?c = "Cancel r"
  have sel: "nextHandle ?c = nextHandle r" "ipc ?c = ipc r" "completions ?c = completions r" "rt_done ?c" "sent_count ?c = sent_count r"
    "protocols ?c = map (\<lambda>q. q\<lparr>proto_phase := phaseCancelled\<rparr>) (protocols r)"
    by (simp_all add: Cancel_def Let_def retryTeardown_def stop_timers_def completions_def sent_count_def)
  have arm: "armed ?c t = armed r t \<or> armed ?c t = None" for t
    by (simp add: Cancel_def Let_def retryTeardown_def stop_timers_def restrict_map_def)
  have t: "timers_ok (stop_timers (r\<lparr>protocols := ps, rt_done := True\<rparr>))" if "timers_ok r" for ps
    using that by (auto simp: timers_ok_def stop_timers_def restrict_map_def)
  show ?thesis
  proof (rule keepsI)
    show "timers_ok r \<Longrightarrow> timers_ok ?c" by (simp add: Cancel_def Let_def timers_ok_retryTeardown t)
    show "ipc_le r ?c"
      by (auto simp: ipc_le_def sel live_timeout_def list_all2_conv_all_nth same_requests_def)
    show "handles_le r ?c" using arm by (simp add: handles_le_def sel)
  qed (simp_all add: sel)
qed

lemma keeping_tick: "keeping r (tick k r)"
proof -
  have "calm r (end_ticker k r)" by (simp add: end_ticker_def)
  moreover have "calm r (upd_proto p (timerChannel_update (\<lambda>_. c)) r)" for p c
    by (rule calm_upd_proto) (simp add: same_requests_def)
  ultimately show ?thesis by (simp add: tick_def Let_def calm_keeps split: select_result.split)
qed

text \<open>A started callback leaves the list of goroutines when it has run.\<close>

lemma run_callback_keeps:
  assumes "spawned r = fs @ f # gs" and "run_callback f (r\<lparr>spawned := fs @ gs\<rparr>) = Return () s"
  shows "keeps r s"
proof -
  let ?r = "r\<lparr>spawned := fs @ gs\<rparr>"
  have drop: "keeps r ?r" if "\<And>tok. f \<noteq> TimeoutFire tok"
  proof (rule keepsI)
    show "ipc_le r ?r"
      using assms(1) that by (auto simp: ipc_le_def live_timeout_def completions_def sent_count_def list_all2_refl)
    show "timers_ok r \<Longrightarrow> timers_ok ?r" by (subst timers_ok_cong [of _ r]) simp_all
  qed (simp_all add: handles_le_def sent_count_def)
  show ?thesis
  proof (cases f)
    case (RetryFire h)
    then show ?thesis using assms(2) keeps_trans [OF drop keeps_rt_connect]
      by (auto simp: run_RetryFire_def drop)
  next
    case (WatchdogFire p site)
    then show ?thesis using assms(2) keeps_trans [OF drop calm_keeps [OF calm_fields(10)]]
      by (auto simp: run_WatchdogFire_def)
  next
    case (TimerFire p tm)
    let ?u = "?r\<lparr>ongoingTimers := map_delete (TimerID tm) (ongoingTimers ?r)\<rparr>"
    have "keeps ?r ?u"
      by (rule keeps_timer_op) (auto simp: timers_ok_def handles_le_def)
    moreover obtain b where "select_proto timerChannel timerChannel_update p tm ?u = Return b s"
      using assms(2) TimerFire by (auto simp: run_TimerFire_def and_then_Return_iff)
    then have "keeps ?u s" using calm_keeps [OF calm_select_channels(2)] by (metis completes_simps(1))
    ultimately show ?thesis using drop keeps_trans TimerFire by blast
  next
    case (TimeoutFire tok)
    then have c: "completes (deliverReply tok None (Some ErrRequestTimeout) ?r) s"
      using assms(2) by (simp add: run_TimeoutFire_def)
    have calm: "calm ?r s" using c calm_deliverReply [unfolded calm_code_def] by blast
    have sent: "sent_count ?r = sent_count r" by (simp add: sent_count_def)
    have "kept r s" if inv: "rt_inv r"
    proof -
      have "ipc_ok_but {(requester tok, requestID tok)} ?r"
      proof (rule ipc_okI)
        show "i \<le> nextRequestID (proto ?r p) \<and> ((p, i) \<in> {(requester tok, requestID tok)} \<or> answer_due ?r p i)"
          if "p < length (protocols ?r)" "pending (proto ?r p) i \<noteq> None" for p i
          using that ipc_okD(1,2) [of "{}" r p i] inv assms(1) TimeoutFire
          by (auto simp: rt_inv_def answer_due_def live_timeout_def)
      qed (use inv ipc_okD(3-7) [of "{}" r] in \<open>auto simp: rt_inv_def completions_def sent_count_def\<close>)
      then have but: "ipc_ok_but {(requester tok, requestID tok)} s"
        by (rule ipc_ok_mono [OF calm_ipc_le [OF calm]])
      have "pending (proto s (requester tok)) (requestID tok) = None \<or> answer_due s (requester tok) (requestID tok)
          \<or> \<not> requester tok < length (protocols s)"
        using deliverReply_due [of "requester tok" "requestID tok" None _ ?r s] c calm
        by (cases tok) (auto simp: calm_def list_all2_lengthD)
      then have "ipc_ok s" using but unfolding ipc_ok_but_def by (auto 0 3)
      then show ?thesis using inv timers_ok_cong [of s r] calm
        by (auto simp: kept_def rt_inv_def handles_le_def calm_def sent dest: list_all2_lengthD)
    qed
    then show ?thesis using sent_count_mono [OF calm] by (simp add: keeps_kept sent)
  qed
qed

lemma rt_local_keeps:
  assumes "hosted_protocols env run" and "rt_local env run r s"
  shows "keeps r s"
  using assms(2)
proof (cases rule: rt_local.cases)
  case (starts err)
  then show ?thesis using keepingD [OF hosted_protocols.keeping_start [OF assms(1)]] by (metis completes_simps(1))
next
  case (turn p lc)
  then show ?thesis using hosted_protocols.keeping_turn [OF assms(1) turn(3,1)] by simp
next
  case (callback fs f gs)
  then show ?thesis using run_callback_keeps by blast
next
  case (ticks k b)
  then show ?thesis using keepingD [OF keeping_tick] by (metis completes_simps(1))
next
  case goroutine
  then show ?thesis by (rule api_step_keeps)
qed (simp_all add: keeps_fire keeps_Cancel calm_keeps)

theorem rt_step_keeps:
  assumes "hosted_protocols env run" and "rt_step env run r s"
  shows "keeps r s"
  using assms(2)
proof (cases rule: rt_step.cases)
  case alone
  then show ?thesis by (rule rt_local_keeps [OF assms(1)])
next
  case (dispatch bs sender)
  then show ?thesis using calm_completes [OF calm_processMessage] by (metis completes_simps(1))
next
  case (pump rnd ev b)
  then show ?thesis using keepingD [OF keeping_dispatchSessionEvent] by (metis completes_simps(1))
qed

lemma rt_steps_inv:
  assumes "hosted_protocols env run" and "rt_steps env run r s" and "rt_inv r" and "few_sent s"
  shows "rt_inv s" and "length (protocols s) = length (protocols r)"
proof -
  from assms(2) have "keeps r s"
    by (induction rule: rtranclp_induct) (auto intro: keeps_trans rt_step_keeps [OF assms(1)])
  then show "rt_inv s" "length (protocols s) = length (protocols r)" using assms(3,4) by (simp_all add: keeps_def)
qed

end
