(* ===== verification/Logging.thy ===== *)
theory Logging
  imports Go_Prelude
begin

text \<open>
  \<^verbatim>\<open>pkg/protorun/logging.go\<close>, the logger a configuration describes and its filter on components, and
  \<^verbatim>\<open>cmd/pingpong/config\<close>, which reads such a configuration. Of \<^verbatim>\<open>log/slog\<close> the model has attributes,
  records and handlers: a built-in handler has a minimal level, remembers the attributes and groups it was
  given and writes each record it handles; what is written is the result of \<open>Handle\<close>. The YAML decoder
  is third-party code and an argument.
\<close>

section \<open>Attributes, records and handlers of log/slog\<close>

datatype slog_Value = StringValue string | OtherValue nat

record slog_Attr =
  attr_Key :: string
  attr_Value :: slog_Value

record slog_Record =
  rec_Level :: int
  rec_Message :: string
  rec_Attrs :: "slog_Attr list"

abbreviation (input) LevelDebug :: int where "LevelDebug \<equiv> - 4"
abbreviation (input) LevelInfo :: int where "LevelInfo \<equiv> 0"
abbreviation (input) LevelWarn :: int where "LevelWarn \<equiv> 4"
abbreviation (input) LevelError :: int where "LevelError \<equiv> 8"

datatype log_format = TextHandler | JSONHandler

datatype enrichment = Attrs "slog_Attr list" | Group string

text \<open>A written line: its format, what the logger was enriched with, and the record.\<close>

type_synonym log_line = "log_format \<times> enrichment list \<times> slog_Record"

text \<open>\<open>Filter\<close> is \<^verbatim>\<open>componentFilterHandler\<close>: the next handler, the allowed components, and the
  logger-level component.\<close>

datatype slog_Handler =
    Builtin log_format int "enrichment list"
  | Filter slog_Handler "string list" string

section \<open>The component filter\<close>

definition NewComponentFilterHandler :: "slog_Handler \<Rightarrow> string list \<Rightarrow> slog_Handler" where
  "NewComponentFilterHandler nxt allowedComponents = Filter nxt allowedComponents ''''"

primrec Enabled :: "slog_Handler \<Rightarrow> int \<Rightarrow> bool" where
  "Enabled (Builtin f level es) l = (level \<le> l)"
| "Enabled (Filter nxt allowed component) l = Enabled nxt l"

text \<open>The callback of \<^verbatim>\<open>Record.Attrs\<close> over the record's attributes, stopped at the first component:
  (\<^verbatim>\<open>hasComponent\<close>, \<^verbatim>\<open>allowed\<close>).\<close>

fun scan_attrs :: "string list \<Rightarrow> slog_Attr list \<Rightarrow> bool \<times> bool" where
  "scan_attrs allowed [] = (False, False)"
| "scan_attrs allowed (a # as) =
     (if attr_Key a = ''component''
      then (case attr_Value a of
              StringValue c \<Rightarrow> (True, c \<in> set allowed)
            | OtherValue _ \<Rightarrow> (False, False))
      else scan_attrs allowed as)"

primrec Handle :: "slog_Handler \<Rightarrow> slog_Record \<Rightarrow> log_line list" where
  "Handle (Builtin f level es) r = [(f, es, r)]"
| "Handle (Filter nxt allowed component) r =
     (if component \<noteq> '''' then (if component \<notin> set allowed then [] else Handle nxt r)
      else case scan_attrs allowed (rec_Attrs r) of
             (hasComponent, ok) \<Rightarrow> if hasComponent \<and> \<not> ok then [] else Handle nxt r)"

fun attrs_component :: "slog_Attr list \<Rightarrow> string \<Rightarrow> string" where
  "attrs_component [] component = component"
| "attrs_component (a # as) component =
     (case (attr_Key a = ''component'', attr_Value a) of
        (True, StringValue c) \<Rightarrow> c
      | _ \<Rightarrow> attrs_component as component)"

primrec WithAttrs :: "slog_Handler \<Rightarrow> slog_Attr list \<Rightarrow> slog_Handler" where
  "WithAttrs (Builtin f level es) as = Builtin f level (es @ [Attrs as])"
| "WithAttrs (Filter nxt allowed component) as = Filter (WithAttrs nxt as) allowed (attrs_component as component)"

primrec WithGroup :: "slog_Handler \<Rightarrow> string \<Rightarrow> slog_Handler" where
  "WithGroup (Builtin f level es) g = Builtin f level (es @ [Group g])"
| "WithGroup (Filter nxt allowed component) g = Filter (WithGroup nxt g) allowed component"

section \<open>Loggers from a configuration\<close>

record LoggingConfig =
  cfg_Level :: string
  cfg_Components :: "string list"
  cfg_Format :: string

definition ParseLogLevel :: "string \<Rightarrow> int" where
  "ParseLogLevel level =
     (if level = ''debug'' then LevelDebug
      else if level = ''warn'' then LevelWarn
      else if level = ''error'' then LevelError
      else LevelInfo)"

definition NewLoggerFromConfig :: "LoggingConfig \<Rightarrow> slog_Handler" where
  "NewLoggerFromConfig cfg =
     (let level = ParseLogLevel (cfg_Level cfg);
          handler = (if cfg_Format cfg = ''json'' then Builtin JSONHandler level [] else Builtin TextHandler level [])
      in if length (cfg_Components cfg) > 0 then NewComponentFilterHandler handler (cfg_Components cfg) else handler)"

text \<open>A logger derived with \<^verbatim>\<open>With\<close> and \<^verbatim>\<open>WithGroup\<close>, and a record logged with it.\<close>

primrec enrich :: "enrichment \<Rightarrow> slog_Handler \<Rightarrow> slog_Handler" where
  "enrich (Attrs as) h = WithAttrs h as" | "enrich (Group g) h = WithGroup h g"

definition log_with :: "slog_Handler \<Rightarrow> slog_Record \<Rightarrow> log_line list" where
  "log_with h r = (if Enabled h (rec_Level r) then Handle h r else [])"

section \<open>The configuration file of the example\<close>

record HostConfig =
  hc_IP :: string
  hc_Port :: int

record RuntimeConfig =
  cfg_Self :: HostConfig
  cfg_Peer :: HostConfig
  cfg_ChannelBuffer :: int

record loggingFile =
  lf_Level :: string
  lf_Components :: "string list"
  lf_Format :: string

record configFile =
  file_Logging :: loggingFile
  file_Runtime :: RuntimeConfig

record Config =
  conf_Logging :: LoggingConfig
  conf_Runtime :: RuntimeConfig

text \<open>\<open>open_file\<close> is the result of \<^verbatim>\<open>os.Open\<close>, as the result of reading the file to its end; \<open>yaml\<close> is the
  decoder.\<close>

definition LoadConfig :: "(byte list \<Rightarrow> configFile result) \<Rightarrow> (string \<Rightarrow> byte list result result) \<Rightarrow> string
    \<Rightarrow> Config result" where
  "LoadConfig yaml open_file path =
     (case open_file path of
        Inl err \<Rightarrow> Inl err
      | Inr (Inl err) \<Rightarrow> Inl err
      | Inr (Inr data) \<Rightarrow>
          (case yaml data of
             Inl err \<Rightarrow> Inl err
           | Inr raw \<Rightarrow>
               Inr \<lparr>conf_Logging = \<lparr>cfg_Level = lf_Level (file_Logging raw),
                                    cfg_Components = lf_Components (file_Logging raw),
                                    cfg_Format = lf_Format (file_Logging raw)\<rparr>,
                    conf_Runtime = file_Runtime raw\<rparr>))"

section \<open>What the filter lets through\<close>

text \<open>The component an entry belongs to: the one the logger carries, or the first of the entry's own;
  \<open>None\<close> when it has none, or one that is not a string.\<close>

definition logger_component :: "enrichment list \<Rightarrow> string" where
  "logger_component es = fold (\<lambda>e c. case e of Attrs as \<Rightarrow> attrs_component as c | Group g \<Rightarrow> c) es ''''"

definition entry_component :: "enrichment list \<Rightarrow> slog_Record \<Rightarrow> string option" where
  "entry_component es r =
     (if logger_component es \<noteq> '''' then Some (logger_component es)
      else case List.find (\<lambda>a. attr_Key a = ''component'') (rec_Attrs r) of
             Some a \<Rightarrow> (case attr_Value a of StringValue c \<Rightarrow> Some c | OtherValue _ \<Rightarrow> None)
           | None \<Rightarrow> None)"

lemma scan_attrs_find:
  "scan_attrs allowed as =
     (case List.find (\<lambda>a. attr_Key a = ''component'') as of
        Some a \<Rightarrow> (case attr_Value a of StringValue c \<Rightarrow> (True, c \<in> set allowed) | OtherValue _ \<Rightarrow> (False, False))
      | None \<Rightarrow> (False, False))"
  by (induction as) auto

lemma enrich_Builtin: "fold enrich es (Builtin f level ds) = Builtin f level (ds @ es)"
proof (induction es arbitrary: ds)
  case (Cons e es)
  then show ?case by (cases e) simp_all
qed simp

lemma enrich_Filter:
  "fold enrich es (Filter nxt allowed c) = Filter (fold enrich es nxt) allowed
     (fold (\<lambda>e c. case e of Attrs as \<Rightarrow> attrs_component as c | Group g \<Rightarrow> c) es c)"
proof (induction es arbitrary: nxt c)
  case (Cons e es)
  then show ?case by (cases e) simp_all
qed simp

section \<open>Properties\<close>

text \<open>C28. What a configured logger writes: a record logged through any chain of \<^verbatim>\<open>With\<close> and \<^verbatim>\<open>WithGroup\<close>
  is written exactly once, with the chain and its own attributes intact and in the configured format, when
  its level reaches the configured one and either no components are configured, or its component is among
  them, or it has no component at all; otherwise nothing is written. In particular a component filter does
  not drop entries without a component.\<close>

theorem logger_writes_exactly:
  "log_with (fold enrich es (NewLoggerFromConfig cfg)) r =
     (if ParseLogLevel (cfg_Level cfg) \<le> rec_Level r \<and>
         (cfg_Components cfg = [] \<or>
          (case entry_component es r of None \<Rightarrow> True | Some c \<Rightarrow> c \<in> set (cfg_Components cfg)))
      then [(if cfg_Format cfg = ''json'' then JSONHandler else TextHandler, es, r)] else [])"
proof (cases "cfg_Components cfg")
  case Nil
  then show ?thesis by (simp add: NewLoggerFromConfig_def log_with_def Let_def enrich_Builtin)
next
  case (Cons d ds)
  show ?thesis
    by (simp add: Cons NewLoggerFromConfig_def NewComponentFilterHandler_def log_with_def Let_def enrich_Filter enrich_Builtin
        entry_component_def logger_component_def scan_attrs_find split: option.split slog_Value.split)
qed

end
