(* ===== verification/Ping_Pong.thy ===== *)
theory Ping_Pong
  imports Runtime_Invariants Logging
begin

text \<open>
  The example \<^verbatim>\<open>cmd/pingpong\<close>: its two message types, its protocol as user code over the API, and
  the node \<^verbatim>\<open>main\<close> builds. It is the first program that meets the contract \<open>hosted_protocols\<close>, so
  the invariants of the runtime hold for it.
\<close>

section \<open>Messages\<close>

datatype pp_value = PingMessage "64 word" | PongMessage "64 word"

definition NewPingMessage :: "64 word \<Rightarrow> pp_value" where "NewPingMessage sq = PingMessage sq"
definition NewPongMessage :: "64 word \<Rightarrow> pp_value" where "NewPongMessage sq = PongMessage sq"

definition pingType :: go_type where
  "pingType = \<lparr>ty_id = 0, ty_String = ''*protocol.PingMessage'', ty_Pointer = True\<rparr>"

definition pongType :: go_type where
  "pongType = \<lparr>ty_id = 1, ty_String = ''*protocol.PongMessage'', ty_Pointer = True\<rparr>"

primrec pp_TypeOf :: "pp_value \<Rightarrow> go_type" where
  "pp_TypeOf (PingMessage n) = pingType"
| "pp_TypeOf (PongMessage n) = pongType"

definition pp_env :: "pp_value go_values" where
  "pp_env = \<lparr>TypeOf = pp_TypeOf, WireName = (\<lambda>_. None),
             Fresh = (\<lambda>t. if t = pingType then PingMessage 0 else PongMessage 0)\<rparr>"

text \<open>\<^verbatim>\<open>BinaryCodec\<close> on the two types: the single field.\<close>

primrec pp_Seq :: "pp_value \<Rightarrow> 64 word" where
  "pp_Seq (PingMessage n) = n" | "pp_Seq (PongMessage n) = n"

definition pp_Marshal :: "pp_value \<Rightarrow> byte list result" where
  "pp_Marshal m = BinaryCodec_Marshal [U64 (pp_Seq m)]"

definition pp_Unmarshal :: "(64 word \<Rightarrow> pp_value) \<Rightarrow> byte list \<Rightarrow> pp_value result" where
  "pp_Unmarshal mk bs =
     (case BinaryCodec_Unmarshal True [W64] bs of
        Inl e \<Rightarrow> Inl e
      | Inr fs \<Rightarrow> Inr (mk (case fs of U64 n # _ \<Rightarrow> n | _ \<Rightarrow> 0)))"

section \<open>The protocol\<close>

datatype pp_fn = PStart | PInit | POnSessionConnected | POnSessionDisconnected | HandlePing | HandlePong

record PingPongProtocol =
  pp_peer :: Host
  pp_seq :: "64 word"

type_synonym pp_runtime = "(pp_fn, pp_value, PingPongProtocol) Runtime"

definition NewPingPongProtocol :: "Host \<Rightarrow> PingPongProtocol" where
  "NewPingPongProtocol peer = \<lparr>pp_peer = peer, pp_seq = 0\<rparr>"

definition pp_impl :: "pp_fn Protocol" where
  "pp_impl = \<lparr>impl_type = ''*protocol.PingPongProtocol'', impl_Start = PStart, impl_Init = PInit,
     impl_OnSessionConnected = Some POnSessionConnected,
     impl_OnSessionDisconnected = Some POnSessionDisconnected, impl_OnSessionGivenUp = None,
     impl_OnPanic = None\<rparr>"

definition pp_Start :: "pid \<Rightarrow> pp_runtime \<Rightarrow> (unit, pp_runtime) outcome" where
  "pp_Start me r =
     and_then (RegisterCodec pp_env me (Some pingType) pp_Marshal (pp_Unmarshal PingMessage) r) (\<lambda>_ r.
     and_then (RegisterCodec pp_env me (Some pongType) pp_Marshal (pp_Unmarshal PongMessage) r) (\<lambda>_ r.
     and_then (RegisterHandler pp_env me (Some pingType) HandlePing r) (\<lambda>_ r.
       RegisterHandler pp_env me (Some pongType) HandlePong r)))"

definition pp_Init :: "pid \<Rightarrow> pp_runtime \<Rightarrow> (unit, pp_runtime) outcome" where
  "pp_Init me r = logged (ctx_Connect me (pp_peer (user r)) r)"

definition pp_next_ping :: "pid \<Rightarrow> pp_runtime \<Rightarrow> (unit, pp_runtime) outcome" where
  "pp_next_ping me r =
     (let r1 = r\<lparr>user := (user r)\<lparr>pp_seq := pp_seq (user r) + 1\<rparr>\<rparr>
      in logged (ctx_Send pp_env me (NewPingMessage (pp_seq (user r1))) (pp_peer (user r1)) r1))"

definition pp_OnSessionConnected :: "pid \<Rightarrow> Host \<Rightarrow> pp_runtime \<Rightarrow> (unit, pp_runtime) outcome" where
  "pp_OnSessionConnected me h r = (if h \<noteq> pp_peer (user r) then Return () r else pp_next_ping me r)"

text \<open>It only logs.\<close>

definition pp_OnSessionDisconnected :: "Host \<Rightarrow> pp_runtime \<Rightarrow> (unit, pp_runtime) outcome" where
  "pp_OnSessionDisconnected h r = Return () r"

declare pp_OnSessionDisconnected_def [simp]

definition pp_HandlePing :: "pid \<Rightarrow> pp_value \<Rightarrow> Host \<Rightarrow> pp_runtime \<Rightarrow> (unit, pp_runtime) outcome" where
  "pp_HandlePing me ping from r = logged (ctx_Send pp_env me (NewPongMessage (pp_Seq ping)) (pp_peer (user r)) r)"

definition pp_HandlePong :: "pid \<Rightarrow> pp_value \<Rightarrow> Host \<Rightarrow> pp_runtime \<Rightarrow> (unit, pp_runtime) outcome" where
  "pp_HandlePong me pong from r = pp_next_ping me r"

fun pp_run :: "pid \<Rightarrow> (pp_fn, pp_value, PingPongProtocol) user_code" where
  "pp_run me PStart CtxArg r = pp_Start me r"
| "pp_run me PInit CtxArg r = pp_Init me r"
| "pp_run me POnSessionConnected (HostArg h) r = pp_OnSessionConnected me h r"
| "pp_run me POnSessionDisconnected (HostArg h) r = pp_OnSessionDisconnected h r"
| "pp_run me HandlePing (MessageArg m from) r = pp_HandlePing me m from r"
| "pp_run me HandlePong (MessageArg m from) r = pp_HandlePong me m from r"
| "pp_run me _ _ r = Return () r"

text \<open>The node \<^verbatim>\<open>main\<close> builds and runs; \<open>pd\<close> as in \<open>New\<close>.\<close>

definition pp_node :: "Host \<Rightarrow> Host \<Rightarrow> bool \<Rightarrow> pp_runtime" where
  "pp_node myself peer pd = Register pp_impl (New myself [WithTCPTransport] (NewPingPongProtocol peer) pd)"

text \<open>\<^verbatim>\<open>main\<close> up to \<^verbatim>\<open>Run\<close>, with the values of the flags and what \<^verbatim>\<open>LoadConfig\<close> needs: the value it
  panics with, or the logger and the runtime.\<close>

definition pp_main :: "(byte list \<Rightarrow> configFile result) \<Rightarrow> (string \<Rightarrow> byte list result result) \<Rightarrow> string
    \<Rightarrow> string \<Rightarrow> int \<Rightarrow> string \<Rightarrow> int \<Rightarrow> bool \<Rightarrow> (string + go_error) + slog_Handler \<times> pp_runtime" where
  "pp_main yaml open_file configPath selfIP selfPort peerIP peerPort pd =
     (if configPath = '''' then Inl (Inl ''config file is required (use -config path/to/config.yaml)'')
      else if selfPort = 0 then Inl (Inl ''self-port is required (use -self-port N)'')
      else if peerPort = 0 then Inl (Inl ''peer-port is required (use -peer-port N)'')
      else case LoadConfig yaml open_file configPath of
             Inl err \<Rightarrow> Inl (Inr err)
           | Inr cfg \<Rightarrow> Inr (NewLoggerFromConfig (conf_Logging cfg),
                           pp_node (NewHost selfPort selfIP) (NewHost peerPort peerIP) pd))"

section \<open>It meets the contract\<close>

lemma api_code_pp: "api_code pp_env r (pp_run me f arg r)"
proof -
  have next_ping: "api_code pp_env r (pp_next_ping me r)" for r
    unfolding pp_next_ping_def Let_def
    by (rule api_code_memory, rule api_code_logged, rule api_code_calls)
  show ?thesis
    by (cases "(me, f, arg, r)" rule: pp_run.cases)
       (auto simp: pp_Start_def pp_Init_def pp_OnSessionConnected_def pp_HandlePing_def pp_HandlePong_def
         intro!: api_code_and_then api_code_logged api_code_calls next_ping)
qed

interpretation ping_pong: hosted_protocols pp_env "pp_run me" for me
  using api_code_pp by unfold_locales (simp add: api_code_def)

end
