(* ===== verification/Runtime_Properties.thy ===== *)
theory Runtime_Properties
  imports Ping_Pong
begin

text \<open>
  What the runtime promises to the protocols it hosts: requests are answered and completed at most
  once, panics stay inside the event loop, notifications and session events reach every protocol they
  are for, strict mode rejects calls out of phase, and cancellation leaves nothing waiting.
\<close>

section \<open>Initial states\<close>

definition framework_options :: "(('h, 'v, 'u) Runtime \<Rightarrow> ('h, 'v, 'u) Runtime) set" where
  "framework_options = {WithTCPTransport} \<union> range WithChannelBuffer \<union> range WithRetryPolicy \<union>
     range WithDefaultRequestTimeout \<union> range WithStrict \<union> range WithStrictHandlerTimeout \<union>
     {WithTransport layer session | layer session. True}"

definition unused :: "('h, 'v, 'u) Runtime \<Rightarrow> bool" where
  "unused r \<longleftrightarrow> armed r = Map.empty \<and> connectionRetries r = Map.empty \<and> ongoingTimers r = Map.empty \<and>
     ipc r = newIPCRouter \<and> calls r = [] \<and>
     (\<forall>q \<in> set (protocols r). pending q = Map.empty \<and> nextRequestID q = 0)"

lemma unused_option: "opt \<in> framework_options \<Longrightarrow> unused r \<Longrightarrow> unused (opt r)"
  by (auto simp: framework_options_def unused_def WithTCPTransport_def WithChannelBuffer_def WithRetryPolicy_def
      WithDefaultRequestTimeout_def WithStrict_def WithStrictHandlerTimeout_def WithTransport_def Let_def
      split: if_splits)

lemma unused_options: "set opts \<subseteq> framework_options \<Longrightarrow> unused r \<Longrightarrow> unused (fold (\<lambda>opt r. opt r) opts r)"
  by (induction opts arbitrary: r) (auto intro: unused_option)

lemma unused_Register: "unused r \<Longrightarrow> unused (Register impl r)"
  by (simp add: unused_def Register_def registerProtocol_def newProtoProtocol_def Let_def)

lemma unused_New: "set opts \<subseteq> framework_options \<Longrightarrow> unused (New me opts mem pd)"
  unfolding New_def by (rule unused_options) (simp_all add: unused_def)

lemma unused_initial: "set opts \<subseteq> framework_options \<Longrightarrow> unused (fold Register impls (New me opts mem pd))"
proof (induction impls rule: rev_induct)
  case (snoc impl impls)
  then show ?case by (simp add: unused_Register)
qed (simp add: unused_New)

lemma unused_inv: "unused r \<Longrightarrow> rt_inv r"
  by (auto simp: unused_def rt_inv_def timers_ok_def router_inv_new ipc_ok_but_def completions_def)

lemma length_protocols_initial: "length (protocols (fold Register impls r)) = length (protocols r) + length impls"
  by (induction impls arbitrary: r) (simp_all add: Register_def registerProtocol_def)

section \<open>Requests\<close>

lemma count_list_distinct: "distinct xs \<Longrightarrow> count_list xs x \<le> 1"
  by (induction xs) (auto simp: count_notin)

lemma count_completions: "distinct (completions r) \<Longrightarrow> count_list (calls r) (Completed p i) \<le> 1"
proof -
  assume "distinct (completions r)"
  have "count_list (filter P xs) x = count_list xs x" if "P x" for P xs and x :: "('a, 'b) observation"
    using that by (induction xs) auto
  then have "count_list (calls r) (Completed p i) = count_list (completions r) (Completed p i)"
    by (simp add: completions_def)
  also have "\<dots> \<le> 1" using \<open>distinct (completions r)\<close> by (rule count_list_distinct)
  finally show ?thesis .
qed



section \<open>Panics\<close>

lemma reportPanic_not_Panic: "reportPanic run p site rec r \<noteq> Panic m s"
  by (auto simp: reportPanic_def Let_def split: option.splits outcome.splits)

lemma safeCall_not_Panic: "safeCall run p site fn r \<noteq> Panic m s"
proof -
  obtain w r1 where w: "strictWatchdog p site r = (w, r1)" by (rule prod.exhaust)
  show ?thesis
  proof (cases "fn r1")
    case (Panic rec t)
    then show ?thesis using reportPanic_not_Panic [of run p site rec t]
      by (cases "reportPanic run p site rec t") (simp_all add: safeCall_def w)
  qed (simp_all add: safeCall_def w)
qed


text \<open>C20. A panicking request handler fails its request: the panic is counted, \<^verbatim>\<open>OnPanic\<close> (when the
  protocol has one and it returns) has run before, and the requester gets exactly one reply whose error
  is both \<^verbatim>\<open>ErrResponderFailed\<close> and \<^verbatim>\<open>ErrHandlerPanicked\<close>, labelled \<^verbatim>\<open>handler_panicked\<close>
  (live runtime, room in the requester's channel, responder not used before the panic).\<close>

theorem panicking_handler_fails_request:
  assumes "TypeOf env raw = Req"
    and "call_user run q h (RequestArg raw (length (responders r)))
           (r\<lparr>responders := responders r @ [(token, False)]\<rparr>) = Panic rec s"
    and "reportPanic run q ''request handler'' rec s = Return () t"
    and "responders t ! length (responders r) = (token, False)"
    and "\<not> rt_done t" and "\<not> chan_full (replyEvents (proto t (requester token)))"
    and "requester token < length (protocols t)"
  shows "\<exists>u e. invoke_request env run (RequestFn q Req h) raw token r = Return () u \<and>
           chan_buf (replyEvents (proto u (requester token))) =
             chan_buf (replyEvents (proto t (requester token))) @
               [\<lparr>rep_requestID = requestID token, rep_rep = None, rep_err = Some e\<rparr>] \<and>
           errors_Is e ErrResponderFailed \<and> errors_Is e ErrHandlerPanicked \<and>
           replyResultLabel (Some e) = ''handler_panicked''"
  using assms
  by (simp add: invoke_request_def responder_Fail_def respond_def deliverReply_def select_proto_room Let_def
      upd_proto_def replyResultLabel_def ErrResponderFailed_def ErrHandlerPanicked_def ErrRequestTimeout_def
      ErrNoRequestHandler_def)

theorem panicking_handler_fails_request_witness:
  "\<exists>u. invoke_request \<lparr>TypeOf = (\<lambda>_. pingType), WireName = (\<lambda>_. None), Fresh = (\<lambda>_. 0)\<rparr>
         (\<lambda>_ _ r. Panic ''boom'' r) (RequestFn 0 pingType 5) 7 \<lparr>requester = 0, requestID = 3\<rparr> one_proto = Return () u \<and>
       length (chan_buf (replyEvents (proto u 0))) = 1"
proof -
  let ?env = "\<lparr>TypeOf = (\<lambda>_. pingType), WireName = (\<lambda>_. None), Fresh = (\<lambda>_. 0)\<rparr> :: nat go_values"
  let ?run = "(\<lambda>_ _ r. Panic ''boom'' r) :: (nat, nat, unit) user_code" and ?tok = "\<lparr>requester = 0, requestID = 3\<rparr>"
  let ?s = "one_proto\<lparr>responders := [(?tok, False)], calls := [Called 0 5 (RequestArg 7 0)]\<rparr>"
  let ?t = "sample (Counter ''protorun.handler.panic'' 1 [WhereAttr ''request handler'', ProtocolAttr ''*idle'']) ?s"
  have r: "responders one_proto = []" "calls one_proto = []" by (simp_all add: one_proto_defs)
  have p: "protocol (proto one_proto 0) = idle_impl" "bound (proto one_proto 0)"
      "chan_buf (replyEvents (proto one_proto 0)) = []" "\<not> chan_full (replyEvents (proto one_proto 0))"
    by (simp_all add: one_proto_defs)
  have 1: "call_user ?run 0 5 (RequestArg 7 (length (responders one_proto)))
      (one_proto\<lparr>responders := responders one_proto @ [(?tok, False)]\<rparr>) = Panic ''boom'' ?s"
    by (simp add: call_user_def r)
  have 2: "reportPanic ?run 0 ''request handler'' ''boom'' ?s = Return () ?t"
    using p by (simp add: reportPanic_def Let_def idle_impl_def)
  show ?thesis
    using panicking_handler_fails_request [of ?env 7 pingType, OF _ 1 2] p
    by (auto simp: r sample_def)
qed

section \<open>Fan-out\<close>

lemma publish_loop_delivers:
  assumes "distinct (map fst subs)" and "\<not> rt_done r"
    and "\<forall>(p, h) \<in> set subs. p < length (protocols r) \<and> \<not> chan_full (notificationEvents (proto r p))"
  shows "\<exists>s. publish_loop w n subs r = Return () s \<and>
    (\<forall>p < length (protocols r). chan_buf (notificationEvents (proto s p)) = chan_buf (notificationEvents (proto r p)) @
       (case map_of subs p of None \<Rightarrow> [] | Some h \<Rightarrow> [\<lparr>in_n = n, in_handler = h\<rparr>]))"
  using assms
proof (induction subs arbitrary: r)
  case (Cons sub subs)
  obtain p h where sub: "sub = (p, h)" by (rule prod.exhaust)
  let ?r = "sample (Counter ''protorun.notification.delivered'' 1 [WireIDAttr w])
    (upd_proto p (notificationEvents_update (\<lambda>_. chan_put \<lparr>in_n = n, in_handler = h\<rparr> (notificationEvents (proto r p)))) r)"
  have p: "p < length (protocols r)" using Cons.prems sub by auto
  have notin: "map_of subs p = None" using Cons.prems(1) sub by (auto simp: map_of_eq_None_iff)
  have "\<exists>s. publish_loop w n subs ?r = Return () s \<and>
    (\<forall>q < length (protocols ?r). chan_buf (notificationEvents (proto s q)) = chan_buf (notificationEvents (proto ?r q)) @
       (case map_of subs q of None \<Rightarrow> [] | Some h \<Rightarrow> [\<lparr>in_n = n, in_handler = h\<rparr>]))"
    by (rule Cons.IH) (use Cons.prems sub p in \<open>force+\<close>)
  then show ?case using Cons.prems sub p notin by (auto simp: select_proto_room)
qed simp

text \<open>C26. A notification reaches every subscriber once: with a live runtime and room in the
  subscribers' channels, publishing appends the notification exactly once to the channel of each
  protocol subscribed at that moment, with the handler of its latest subscription, and to no other
  channel, whatever order the subscribers are visited in.\<close>

theorem notification_reaches_subscribers:
  assumes "router_inv (ipc r)" and "\<And>xs. mset (order xs) = mset xs" and "\<not> rt_done r"
    and "\<forall>p h. subscription (ipc r) w p = Some h \<longrightarrow>
           p < length (protocols r) \<and> \<not> chan_full (notificationEvents (proto r p))"
  shows "\<exists>s. publishNotification order w n r = Return () s \<and>
    (\<forall>p < length (protocols r). chan_buf (notificationEvents (proto s p)) = chan_buf (notificationEvents (proto r p)) @
       (case subscription (ipc r) w p of None \<Rightarrow> [] | Some h \<Rightarrow> [\<lparr>in_n = n, in_handler = h\<rparr>]))"
proof -
  let ?r = "sample (Counter ''protorun.notification.published'' 1 [WireIDAttr w]) r"
  let ?subs = "SnapshotSubscribers order (ipc r) w"
  note snap = set_snapshot [OF assms(1,2)]
  have map: "map_of ?subs p = subscription (ipc r) w p" for p
  proof (cases "subscription (ipc r) w p")
    case None
    then have "(p, h) \<notin> set ?subs" for h by (simp add: snap(1))
    then show ?thesis using None by (auto simp: map_of_eq_None_iff)
  next
    case (Some h)
    then show ?thesis using snap by (simp add: map_of_eq_Some_iff)
  qed
  have "\<exists>s. publish_loop w n ?subs ?r = Return () s \<and>
    (\<forall>p < length (protocols ?r). chan_buf (notificationEvents (proto s p)) = chan_buf (notificationEvents (proto ?r p)) @
       (case map_of ?subs p of None \<Rightarrow> [] | Some h \<Rightarrow> [\<lparr>in_n = n, in_handler = h\<rparr>]))"
    by (rule publish_loop_delivers) (use snap assms in auto)
  then show ?thesis by (simp add: publishNotification_def Let_def map)
qed

theorem notification_reaches_subscribers_witness:
  "\<exists>s. publishNotification (\<lambda>xs. xs) 9 (4 :: nat)
         (one_proto\<lparr>ipc := Subscribe 9 0 (NotificationFn pingType 5) newIPCRouter\<rparr>) = Return () s \<and>
       chan_buf (notificationEvents (proto s 0)) = [\<lparr>in_n = 4, in_handler = NotificationFn pingType 5\<rparr>]"
proof -
  let ?r = "one_proto\<lparr>ipc := Subscribe 9 0 (NotificationFn pingType 5) newIPCRouter\<rparr>"
  have room: "\<not> chan_full (notificationEvents (proto one_proto 0))" "chan_buf (notificationEvents (proto one_proto 0)) = []"
    by (simp_all add: one_proto_defs)
  have inv: "router_inv (ipc ?r)" by (simp add: router_inv_subscribe router_inv_new)
  have sub: "subscription (ipc ?r) 9 p = (if p = 0 then Some (NotificationFn pingType 5) else None)" for p
    by (simp add: subscription_subscribe)
  have rest: "\<forall>p h. subscription (ipc ?r) 9 p = Some h \<longrightarrow>
      p < length (protocols ?r) \<and> \<not> chan_full (notificationEvents (proto ?r p))"
    unfolding sub using room by simp
  obtain s where
    s: "publishNotification (\<lambda>xs. xs) 9 4 ?r = Return () s"
    "\<forall>p < length (protocols ?r). chan_buf (notificationEvents (proto s p)) = chan_buf (notificationEvents (proto ?r p)) @
       (case subscription (ipc ?r) 9 p of None \<Rightarrow> [] | Some h \<Rightarrow> [\<lparr>in_n = 4, in_handler = h\<rparr>])"
    using notification_reaches_subscribers [where order = "\<lambda>xs. xs" and n = 4 and w = 9, OF inv refl _ rest] by auto
  from s(2) have "chan_buf (notificationEvents (proto s 0)) = [\<lparr>in_n = 4, in_handler = NotificationFn pingType 5\<rparr>]"
    unfolding sub using room by simp
  with s(1) show ?thesis by blast
qed

lemma fanout_loop_delivers:
  assumes "distinct ps" and "\<not> rt_done r"
    and "\<forall>p \<in> set ps. p < length (protocols r) \<and> \<not> chan_full (sessionEvents (proto r p))"
  shows "\<exists>s. fanout_loop ev ps r = Return True s \<and> connectionRetries s = connectionRetries r \<and> metrics s = metrics r \<and>
    (\<forall>p < length (protocols r). chan_buf (sessionEvents (proto s p)) =
       chan_buf (sessionEvents (proto r p)) @ (if p \<in> set ps then [ev] else []))"
  using assms
proof (induction ps arbitrary: r)
  case (Cons p ps)
  let ?r = "upd_proto p (sessionEvents_update (\<lambda>_. chan_put ev (sessionEvents (proto r p)))) r"
  have p: "p < length (protocols r)" using Cons.prems by auto
  have "\<exists>s. fanout_loop ev ps ?r = Return True s \<and> connectionRetries s = connectionRetries ?r \<and> metrics s = metrics ?r \<and>
    (\<forall>q < length (protocols ?r). chan_buf (sessionEvents (proto s q)) =
       chan_buf (sessionEvents (proto ?r q)) @ (if q \<in> set ps then [ev] else []))"
    by (rule Cons.IH) (use Cons.prems p in auto)
  then show ?case using Cons.prems p by (auto simp: select_proto_room)
qed simp

lemma onSessionUp_sel:
  "protocols (snd (onSessionUpForRetry h r)) = protocols r" "rt_done (snd (onSessionUpForRetry h r)) = rt_done r"
  "connectionRetries (snd (onSessionUpForRetry h r)) h = None"
  by (simp_all add: onSessionUpForRetry_def stop_opt_def Stop_def split: option.splits)

text \<open>C27. An established session is announced to every protocol: in a live runtime whose session
  channels have room, each registered protocol gets exactly one connected event for the host, and the
  host's retry state is cleared.\<close>

theorem connected_reaches_every_protocol:
  assumes "\<not> rt_done r" and "\<And>p. p < length (protocols r) \<Longrightarrow> \<not> chan_full (sessionEvents (proto r p))"
  shows "\<exists>s. dispatchSessionEvent rnd (SessionConnected h) r = Return True s \<and> connectionRetries s h = None \<and>
    (\<forall>p < length (protocols r). chan_buf (sessionEvents (proto s p)) = chan_buf (sessionEvents (proto r p)) @
       [\<lparr>se_kind = sessionConnectedEvent, se_host = h, se_attempts = 0\<rparr>])"
proof -
  let ?r = "snd (onSessionUpForRetry h (sample (Counter ''protorun.session.connected'' 1 [HostAttr h]) r))"
  have "\<exists>s. fanout_loop \<lparr>se_kind = sessionConnectedEvent, se_host = h, se_attempts = 0\<rparr> [0..<length (protocols r)] ?r
      = Return True s \<and> connectionRetries s = connectionRetries ?r \<and> metrics s = metrics ?r \<and>
    (\<forall>p < length (protocols ?r). chan_buf (sessionEvents (proto s p)) = chan_buf (sessionEvents (proto ?r p)) @
       (if p \<in> set [0..<length (protocols r)] then [\<lparr>se_kind = sessionConnectedEvent, se_host = h, se_attempts = 0\<rparr>] else []))"
    by (rule fanout_loop_delivers) (use assms in \<open>auto simp: onSessionUp_sel\<close>)
  then show ?thesis by (auto simp: dispatchSessionEvent_def fanoutSessionEvent_def Let_def onSessionUp_sel)
qed

theorem connected_reaches_every_protocol_witness:
  "\<exists>s. dispatchSessionEvent 0 (SessionConnected (NewHost 2 ''b'')) one_proto = Return True s \<and>
       chan_buf (sessionEvents (proto s 0)) = [\<lparr>se_kind = sessionConnectedEvent, se_host = NewHost 2 ''b'', se_attempts = 0\<rparr>]"
proof -
  have "\<not> chan_full (sessionEvents (proto one_proto 0))" "chan_buf (sessionEvents (proto one_proto 0)) = []"
    by (simp_all add: one_proto_defs)
  then show ?thesis using connected_reaches_every_protocol [of one_proto 0 "NewHost 2 ''b''"] by auto
qed

text \<open>A failed connection without retry state is not announced to anyone: no protocol's channel
  changes and nothing is retried, only the counter \<^verbatim>\<open>protorun.session.failed\<close> moves.\<close>

theorem failure_without_retry_unreported:
  assumes "connectionRetries r h = None"
  shows "dispatchSessionEvent rnd (SessionFailed h) r =
           Return True (sample (Counter ''protorun.session.failed'' 1 [HostAttr h]) r)"
  using assms by (simp add: dispatchSessionEvent_def onSessionDownForRetry_def Let_def)

theorem failure_without_retry_unreported_witness:
  "dispatchSessionEvent 0 (SessionFailed (NewHost 2 ''b'')) one_proto =
     Return True (sample (Counter ''protorun.session.failed'' 1 [HostAttr (NewHost 2 ''b'')]) one_proto)"
  by (rule failure_without_retry_unreported) (simp add: one_proto_defs)

section \<open>A request and its reply\<close>

lemma safeCall_lenient:
  "\<not> strict r \<Longrightarrow> safeCall run p site fn r =
     (case fn r of Return _ s \<Rightarrow> Return () s | Block s \<Rightarrow> Block s | Panic rec s \<Rightarrow> reportPanic run p site rec s)"
  by (simp add: safeCall_def strictWatchdog_def stop_opt_def split: outcome.split)

lemmas request_turns = sendRequest_def enter_request_def Let_def AfterFunc_def select_proto_room chan_full_def chan_put_def
  eventHandler_def recv_def safeCall_lenient invoke_request_def responder_Reply_def respond_def
  deliverReply_def proto_deliverReply_def invoke_reply_def

text \<open>C14. A request makes the round trip: with room in the two mailboxes, a request to a protocol whose handler
  replies puts the request in the handler's mailbox; the handler's turn puts the reply in the requester's;
  and the requester's turn calls the request's own callback with exactly that reply and no error, with the
  request no longer pending and recorded as completed.\<close>

theorem request_reply_roundtrip:
  assumes "p < length (protocols r)" and "q < length (protocols r)" and "\<not> strict r" and "\<not> rt_done r"
    and route: "Route (ipc r) w = Some \<lparr>route_proto = q, route_handler = RequestFn q Req fn\<rparr>"
    and types: "TypeOf env req = Req" "TypeOf env v = Rep"
    and chans: "chan_buf (requestEvents (proto r q)) = []" "0 < chan_cap (requestEvents (proto r q))"
      "chan_buf (replyEvents (proto r p)) = []" "0 < chan_cap (replyEvents (proto r p))"
    and handler: "\<forall>rid s. run fn (RequestArg req rid) s = responder_Reply rid v s"
  shows "\<exists>r1 r2 r3. sendRequest p w req d (ReplyFn Rep onReply) r = Return () r1 \<and>
     eventHandler env run q OnRequest r1 = Some (Return () r2) \<and>
     eventHandler env run p OnReply r2 =
       Some (case call_user run p onReply (ReplyArg (Some v) None) r3 of
               Return _ s \<Rightarrow> Return () s | Block s \<Rightarrow> Block s | Panic m s \<Rightarrow> reportPanic run p ''reply handler'' m s) \<and>
     pending (proto r3 p) (nextRequestID (proto r p) + 1) = None \<and> user r3 = user r \<and>
     calls r3 = calls r @ [Called q fn (RequestArg req (length (responders r))), Completed p (nextRequestID (proto r p) + 1)]"
proof -
  let ?fin = "\<lambda>r3. case call_user run p onReply (ReplyArg (Some v) None) r3 of
      Return _ s \<Rightarrow> Return () s | Block s \<Rightarrow> Block s | Panic m s \<Rightarrow> reportPanic run p ''reply handler'' m s"
  let ?n = "nextRequestID (proto r p) + 1"
  have "\<exists>r3. Option.bind (returned (sendRequest p w req d (ReplyFn Rep onReply) r)) (\<lambda>r1.
      Option.bind (Option.bind (eventHandler env run q OnRequest r1) returned) (\<lambda>r2.
        eventHandler env run p OnReply r2)) = Some (?fin r3) \<and>
      pending (proto r3 p) ?n = None \<and> user r3 = user r \<and>
      calls r3 = calls r @ [Called q fn (RequestArg req (length (responders r))), Completed p ?n]"
  proof -
    have call: "call_user run q fn (RequestArg req rid) s = responder_Reply rid v (s\<lparr>calls := calls s @ [Called q fn (RequestArg req rid)]\<rparr>)"
      for rid s using handler by (simp add: call_user_def)
    show ?thesis
    proof (cases "p = q")
      case True
      show ?thesis using assms(1-11) unfolding True by (simp add: request_turns call) (rule exI, rule conjI, rule refl, simp)
    next
      case False
      show ?thesis using False assms(1-11) by (simp add: request_turns call) (rule exI, rule conjI, rule refl, simp)
    qed
  qed
  then show ?thesis by (auto simp: bind_eq_Some_conv returned_Some)
qed

theorem request_reply_roundtrip_witness:
  "\<exists>r1. sendRequest 0 9 (5 :: nat) 30 (ReplyFn pingType 8)
     (one_proto\<lparr>ipc := snd (RegisterRequestRoute 9 0 (RequestFn 0 pingType 6) newIPCRouter)\<rparr>) = Return () r1"
proof -
  let ?r = "one_proto\<lparr>ipc := snd (RegisterRequestRoute 9 0 (RequestFn 0 pingType 6) newIPCRouter)\<rparr>"
  let ?env = "\<lparr>TypeOf = (\<lambda>_. pingType), WireName = (\<lambda>_. None), Fresh = (\<lambda>_. 0)\<rparr>"
  let ?run = "\<lambda>fn arg s. case arg of RequestArg _ rid \<Rightarrow> responder_Reply rid (7 :: nat) s | _ \<Rightarrow> Return () s"
  show ?thesis
    using request_reply_roundtrip [of 0 ?r 0 9 pingType 6 ?env 5 7 pingType ?run 30 8]
    by (simp add: one_proto_defs Route_def RegisterRequestRoute_def) blast
qed

text \<open>C16. The timeout of a request outlives its answer: the timer is not stopped when the reply comes. After a
  request was answered in time and its callback has returned, the timer still fires at the deadline, its
  goroutine puts a timeout reply into the requester's mailbox, and the requester's turn on it counts a late
  reply although nothing raced; the callback is not called again.\<close>

theorem answered_request_counted_late:
  assumes "p < length (protocols r)" and "q < length (protocols r)" and "\<not> strict r" and "\<not> rt_done r"
    and route: "Route (ipc r) w = Some \<lparr>route_proto = q, route_handler = RequestFn q Req fn\<rparr>"
    and types: "TypeOf env req = Req" "TypeOf env v = Rep"
    and chans: "chan_buf (requestEvents (proto r q)) = []" "0 < chan_cap (requestEvents (proto r q))"
      "chan_buf (replyEvents (proto r p)) = []" "0 < chan_cap (replyEvents (proto r p))"
    and handler: "\<forall>rid s. run fn (RequestArg req rid) s = responder_Reply rid v s"
    and callback: "\<forall>s. run onReply (ReplyArg (Some v) None) s = Return () s"
  shows "\<exists>r1 r2 r3 r4 r5. sendRequest p w req d (ReplyFn Rep onReply) r = Return () r1 \<and>
     eventHandler env run q OnRequest r1 = Some (Return () r2) \<and>
     eventHandler env run p OnReply r2 = Some (Return () r3) \<and>
     Called p onReply (ReplyArg (Some v) None) \<in> set (calls r3) \<and>
     fire (nextHandle r) (r3\<lparr>rt_now := rt_now r + d\<rparr>) = r4 \<and>
     spawned r4 = spawned r @ [TimeoutFire \<lparr>requester = p, requestID = nextRequestID (proto r p) + 1\<rparr>] \<and>
     Option.bind (returned (run_callback (last (spawned r4)) (r4\<lparr>spawned := butlast (spawned r4)\<rparr>))) (eventHandler env run p OnReply)
       = Some (Return () r5) \<and>
     metrics r5 = metrics r3 @ [Counter ''protorun.ipc.reply.dropped_late'' 1 []] \<and> calls r5 = calls r3"
proof -
  have call: "call_user run q fn (RequestArg req rid) s = responder_Reply rid v (s\<lparr>calls := calls s @ [Called q fn (RequestArg req rid)]\<rparr>)"
    "call_user run p onReply (ReplyArg (Some v) None) s = Return () (s\<lparr>calls := calls s @ [Called p onReply (ReplyArg (Some v) None)]\<rparr>)"
    for rid s using handler callback by (simp_all add: call_user_def)
  show ?thesis
  proof (cases "p = q")
    case True
    show ?thesis using assms(1-11) unfolding True by (simp add: request_turns fire_def run_TimeoutFire_def sample_def call [unfolded True])
  next
    case False
    show ?thesis using False assms(1-11) by (simp add: request_turns fire_def run_TimeoutFire_def sample_def call)
  qed
qed

theorem answered_request_counted_late_witness:
  "\<exists>r1 r2 r3. sendRequest 0 9 (5 :: nat) 30 (ReplyFn pingType 8)
       (one_proto\<lparr>ipc := snd (RegisterRequestRoute 9 0 (RequestFn 0 pingType 6) newIPCRouter)\<rparr>) = Return () r1 \<and>
     eventHandler \<lparr>TypeOf = (\<lambda>_. pingType), WireName = (\<lambda>_. None), Fresh = (\<lambda>_. 0)\<rparr>
       (\<lambda>fn arg s. case arg of RequestArg _ rid \<Rightarrow> responder_Reply rid 7 s | _ \<Rightarrow> Return () s) 0 OnRequest r1 = Some (Return () r2) \<and>
     eventHandler \<lparr>TypeOf = (\<lambda>_. pingType), WireName = (\<lambda>_. None), Fresh = (\<lambda>_. 0)\<rparr>
       (\<lambda>fn arg s. case arg of RequestArg _ rid \<Rightarrow> responder_Reply rid 7 s | _ \<Rightarrow> Return () s) 0 OnReply r2 = Some (Return () r3) \<and>
     spawned (fire 0 (r3\<lparr>rt_now := 30\<rparr>)) = [TimeoutFire \<lparr>requester = 0, requestID = 1\<rparr>]"
proof -
  let ?r = "one_proto\<lparr>ipc := snd (RegisterRequestRoute 9 0 (RequestFn 0 pingType 6) newIPCRouter)\<rparr>"
  let ?env = "\<lparr>TypeOf = (\<lambda>_. pingType), WireName = (\<lambda>_. None), Fresh = (\<lambda>_. 0)\<rparr>"
  let ?run = "\<lambda>fn arg s. case arg of RequestArg _ rid \<Rightarrow> responder_Reply rid (7 :: nat) s | _ \<Rightarrow> Return () s"
  have facts: "\<not> strict ?r" "Route (ipc ?r) 9 = Some \<lparr>route_proto = 0, route_handler = RequestFn 0 pingType 6\<rparr>"
    "chan_buf (requestEvents (proto ?r 0)) = []" "0 < chan_cap (requestEvents (proto ?r 0))"
    "chan_buf (replyEvents (proto ?r 0)) = []" "0 < chan_cap (replyEvents (proto ?r 0))" "nextRequestID (proto ?r 0) = 0"
    by (simp_all add: one_proto_defs Route_def RegisterRequestRoute_def)
  obtain r1 r2 r3 where "sendRequest 0 9 5 30 (ReplyFn pingType 8) ?r = Return () r1"
    "eventHandler ?env ?run 0 OnRequest r1 = Some (Return () r2)" "eventHandler ?env ?run 0 OnReply r2 = Some (Return () r3)"
    "spawned (fire (nextHandle ?r) (r3\<lparr>rt_now := rt_now ?r + 30\<rparr>)) = spawned ?r @ [TimeoutFire \<lparr>requester = 0, requestID = nextRequestID (proto ?r 0) + 1\<rparr>]"
    using answered_request_counted_late [of 0 ?r 0 9 pingType 6 ?env 5 7 pingType ?run 8 30] facts by auto
  then show ?thesis using facts(7) by auto
qed

section \<open>Stopping\<close>

definition waits :: "('a, 's) outcome \<Rightarrow> bool" where
  "waits x \<longleftrightarrow> (\<exists>s. x = Block s)"

lemma waits_simps [simp]: "\<not> waits (Return a s)" "\<not> waits (Panic m s)" "waits (Block s)"
  by (simp_all add: waits_def)

lemma waits_and_then [simp]: "waits (and_then x k) \<longleftrightarrow> waits x \<or> (\<exists>a s. x = Return a s \<and> waits (k a s))"
  by (cases x) simp_all

lemma select_proto_done:
  "rt_done r \<Longrightarrow> \<not> waits (select_proto ch upd p x r)"
  "select_proto ch upd p x r = Return b s \<Longrightarrow> rt_done s = rt_done r"
  by (auto simp: waits_def select_proto_done_never_waits) (auto simp: select_proto_def split: select_result.splits)

lemma publish_loop_done: "rt_done r \<Longrightarrow> \<not> waits (publish_loop w n subs r)"
proof (induction subs arbitrary: r)
  case (Cons sub subs)
  then show ?case by (auto simp: select_proto_done(1) dest: select_proto_done(2))
qed simp

lemma fanout_loop_done: "rt_done r \<Longrightarrow> \<not> waits (fanout_loop ev ps r)"
  "fanout_loop ev ps r = Return b s \<Longrightarrow> rt_done s = rt_done r"
proof (induction ps arbitrary: r)
  case (Cons p ps)
  { case 1 with Cons.IH show ?case by (auto simp: select_proto_done(1) dest: select_proto_done(2)) }
  { case 2 with Cons.IH show ?case by (auto simp: and_then_Return_iff dest: select_proto_done(2) split: if_splits) }
qed simp_all

lemma onSessionDown_done: "onSessionDownForRetry rnd h r = (x, s) \<Longrightarrow> rt_done s = rt_done r"
  by (auto simp: onSessionDownForRetry_def stop_opt_def Stop_def AfterFunc_def Let_def split: option.splits if_splits)

lemma done_never_waits:
  assumes "rt_done r"
  shows "\<not> waits (deliverReply token rep err r)" "\<not> waits (sendRequest p w req d onReply r)"
    "\<not> waits (publishNotification order w n r)" "\<not> waits (processMessage bs from r)"
    "\<not> waits (dispatchSessionEvent rnd ev r)" "\<not> waits (run_callback f r)"
proof -
  show reply: "\<not> waits (deliverReply token rep err r)" for token rep err
    using assms by (simp add: deliverReply_def select_proto_done)
  show "\<not> waits (sendRequest p w req d onReply r)"
    using assms by (simp add: sendRequest_def deliverReply_def enter_request_def AfterFunc_def Let_def select_proto_done split: option.split)
  show "\<not> waits (publishNotification order w n r)"
    using assms by (simp add: publishNotification_def Let_def publish_loop_done)
  show "\<not> waits (processMessage bs from r)"
    using assms by (simp add: processMessage_def Let_def select_proto_done split: option.split prod.split sum.split)
  show "\<not> waits (dispatchSessionEvent rnd ev r)"
    using assms
    by (auto simp: dispatchSessionEvent_def fanoutSessionEvent_def Let_def onSessionUp_sel fanout_loop_done(1) split: SessionEvent.split prod.split
        dest!: fanout_loop_done(2) onSessionDown_done)
  show "\<not> waits (run_callback f r)"
    using assms reply by (cases f) (simp_all add: run_TimeoutFire_def run_TimerFire_def select_proto_done)
qed

text \<open>C13. Cancelling frees everything: after \<^verbatim>\<open>Cancel\<close> the timer tables and the retry table are empty, no
  timer of a table and no reconnect attempt is armed, and from then on no send of the framework waits,
  however full the mailboxes are: replies, requests, notifications, inbound messages, session events and the
  functions of timers that had already fired all return.\<close>

theorem cancel_frees_everything:
  fixes r :: "('h, 'v, 'u) Runtime"
  assumes "timers_ok r"
  shows "let s = Cancel r in
     rt_done s \<and> ongoingTimers s = Map.empty \<and> ongoingPeriodicTimers s = Map.empty \<and> connectionRetries s = Map.empty \<and>
     (\<forall>i t. ongoingTimers r i = Some t \<longrightarrow> armed s t = None) \<and> (\<forall>t due h. armed s t \<noteq> Some (due, RetryFire h)) \<and>
     (\<forall>s' :: ('h, 'v, 'u) Runtime. rt_done s' \<longrightarrow>
        (\<forall>token rep err. \<not> waits (deliverReply token rep err s')) \<and>
        (\<forall>p w req d onReply. \<not> waits (sendRequest p w req d onReply s')) \<and>
        (\<forall>order w n. \<not> waits (publishNotification order w n s')) \<and> (\<forall>bs h. \<not> waits (processMessage bs h s')) \<and>
        (\<forall>rnd ev. \<not> waits (dispatchSessionEvent rnd ev s')) \<and> (\<forall>f. \<not> waits (run_callback f s')))"
proof -
  let ?s = "Cancel r"
  have s: "rt_done ?s" "ongoingTimers ?s = Map.empty" "ongoingPeriodicTimers ?s = Map.empty" "connectionRetries ?s = Map.empty"
    "armed ?s = armed r |` (- ran (ongoingTimers r)) |` (- {t. \<exists>host st. connectionRetries r host = Some st \<and> rs_timer st = Some t})"
    by (simp_all add: Cancel_def stop_timers_def retryTeardown_def Let_def)
  have "armed ?s t = None" if "ongoingTimers r i = Some t" for i t
    using that by (auto simp: s(5) restrict_map_def ran_def)
  moreover have "armed ?s t \<noteq> Some (due, RetryFire h)" for t due h
    using timers_okD(2) [OF assms, of t due h] by (auto simp: s(5) restrict_map_def split: if_splits)
  ultimately show ?thesis using s(1-4) by (simp add: Let_def done_never_waits)
qed

theorem cancel_frees_everything_witness:
  "ongoingTimers (Cancel (setupTimer 0 \<lparr>TimerID = 7, timer_value = 3\<rparr> 5 one_proto)) = Map.empty \<and>
   armed (Cancel (setupTimer 0 \<lparr>TimerID = 7, timer_value = 3\<rparr> 5 one_proto)) 0 = None"
proof -
  let ?r = "setupTimer 0 \<lparr>TimerID = 7, timer_value = 3\<rparr> 5 one_proto"
  have "timers_ok ?r" by (simp add: timers_ok_setupTimer)
  moreover have "ongoingTimers ?r 7 = Some 0" by (simp add: timer_defs AfterFunc_def one_proto_defs)
  ultimately show ?thesis using cancel_frees_everything [of ?r] by (auto simp: Let_def)
qed

text \<open>In strict mode a second owner of a request type is rejected too late: the call panics, and the
  route of the first protocol has already been replaced by the route of the second.\<close>

theorem strict_panic_replaces_route:
  assumes "strict r" and "Route (ipc r) w = Some old" and "route_proto old \<noteq> p"
    and "proto_phase (proto r p) = phaseRegistering"
  shows "\<exists>m s. registerRequestHandler p w fn r = Panic m s \<and>
     Route (ipc s) w = Some \<lparr>route_proto = p, route_handler = fn\<rparr>"
  using assms by (simp add: registerRequestHandler_def require_register_def requireRegisterPhase_def require_def
      RegisterRequestRoute_def Route_def Let_def)

theorem strict_panic_replaces_route_witness:
  "\<exists>m s. registerRequestHandler 0 9 (RequestFn 0 pingType 6)
     (upd_proto 0 (proto_phase_update (\<lambda>_. phaseRegistering)) one_proto
        \<lparr>strict := True, ipc := snd (RegisterRequestRoute 9 1 (RequestFn 1 pingType 5) newIPCRouter)\<rparr>) = Panic m s \<and>
     Route (ipc s) 9 = Some \<lparr>route_proto = 0, route_handler = RequestFn 0 pingType 6\<rparr>"
  by (rule strict_panic_replaces_route [where old = "\<lparr>route_proto = 1, route_handler = RequestFn 1 pingType 5\<rparr>"])
     (simp_all add: Route_def RegisterRequestRoute_def)

end
