(* ===== verification/Mailboxes.thy ===== *)
theory Mailboxes
  imports Runtime_Properties
begin

text \<open>
  What the runtime may do to a protocol's envelope. The locale \<open>envelope_relation\<close> has a relation between the
  envelope before and after as its parameter; its laws are the three ways the code touches one: its tables
  and flags change, a value is taken from the front of a channel, a value is put into a channel that has room.
  Every interleaving of the runtime then relates each envelope to itself. It is interpreted with the shape of
  the mailboxes and with what registration fixed.
\<close>

section \<open>Relations between envelopes\<close>

definition table_rel :: "(('h, 'v) protoProtocol \<Rightarrow> ('h, 'v) protoProtocol \<Rightarrow> bool)
    \<Rightarrow> ('h, 'v, 'u) Runtime \<Rightarrow> ('h, 'v, 'u) Runtime \<Rightarrow> bool" where
  "table_rel R r s \<longleftrightarrow> list_all2 R (protocols r) (protocols s)"

definition rel_code :: "(('h, 'v) protoProtocol \<Rightarrow> ('h, 'v) protoProtocol \<Rightarrow> bool)
    \<Rightarrow> ('h, 'v, 'u) Runtime \<Rightarrow> ('a, ('h, 'v, 'u) Runtime) outcome \<Rightarrow> bool" where
  "rel_code R r x \<longleftrightarrow> (\<forall>s. completes x s \<longrightarrow> table_rel R r s)"

text \<open>The parts of an envelope that are not bookkeeping.\<close>

definition same_boxes :: "('h, 'v) protoProtocol \<Rightarrow> ('h, 'v) protoProtocol \<Rightarrow> bool" where
  "same_boxes q q' \<longleftrightarrow> protocol q' = protocol q \<and> bound q' = bound q \<and>
     timerChannel q' = timerChannel q \<and> messageChannel q' = messageChannel q \<and> sessionEvents q' = sessionEvents q \<and>
     requestEvents q' = requestEvents q \<and> replyEvents q' = replyEvents q \<and> notificationEvents q' = notificationEvents q"

text \<open>A channel is the same, or it lost its first value, or it had room and got one more.\<close>

definition chan_moves :: "'a chan \<Rightarrow> 'a chan \<Rightarrow> bool" where
  "chan_moves c c' \<longleftrightarrow> c' = c \<or> (\<exists>x xs. chan_buf c = x # xs \<and> c' = c\<lparr>chan_buf := xs\<rparr>) \<or> (\<exists>x. \<not> chan_full c \<and> c' = chan_put x c)"

lemma chan_moves_select: "select_send d pd x c = Sent c' \<Longrightarrow> chan_moves c c'"
  by (auto simp: chan_moves_def dest: select_send_Sent)

lemma chan_moves_put: "\<not> chan_full c \<Longrightarrow> chan_moves c (chan_put x c)"
  by (auto simp: chan_moves_def)

lemma chan_moves_recv: "chan_buf c = x # xs \<Longrightarrow> chan_moves c (c\<lparr>chan_buf := xs\<rparr>)"
  by (auto simp: chan_moves_def)

lemma protocols_unchanged [simp]:
  "protocols (session_request req r) = protocols r" "protocols (stop_opt t' r) = protocols r"
  "protocols (snd (AfterFunc d f r)) = protocols r" "protocols (snd (rt_connect host r)) = protocols r"
  "protocols (snd (rt_disconnect host r)) = protocols r" "protocols (snd (connectWithRetry host r)) = protocols r"
  "protocols (setupTimer p tm d r) = protocols r" "protocols (setupPeriodicTimer p tm d r) = protocols r"
  "protocols (cancelTimer i r) = protocols r" "protocols (snd (onSessionUpForRetry h r)) = protocols r"
  "protocols (snd (onSessionDownForRetry rnd h r)) = protocols r" "protocols (run_RetryFire h r) = protocols r"
  "protocols (fire t r) = protocols r" "protocols (retryTeardown r) = protocols r" "protocols (stop_timers r) = protocols r"
  by (auto simp: session_request_def stop_opt_def Stop_def AfterFunc_def rt_connect_def rt_disconnect_def stopRetryFor_def
      connectWithRetry_def setupTimer_def setupPeriodicTimer_def cancelTimer_def cancel_ticker_def onSessionUpForRetry_def
      onSessionDownForRetry_def run_RetryFire_def fire_def retryTeardown_def stop_timers_def Let_def split: option.splits)

locale envelope_relation =
  fixes R :: "('h, 'v) protoProtocol \<Rightarrow> ('h, 'v) protoProtocol \<Rightarrow> bool"
  assumes bookkeeping: "same_boxes q q' \<Longrightarrow> R q q'"
    and R_trans: "R a b \<Longrightarrow> R b c \<Longrightarrow> R a c"
    and channels: "chan_moves (timerChannel q) t \<Longrightarrow> R q (q\<lparr>timerChannel := t\<rparr>)"
      "chan_moves (messageChannel q) m \<Longrightarrow> R q (q\<lparr>messageChannel := m\<rparr>)"
      "chan_moves (sessionEvents q) e \<Longrightarrow> R q (q\<lparr>sessionEvents := e\<rparr>)"
      "chan_moves (requestEvents q) rq \<Longrightarrow> R q (q\<lparr>requestEvents := rq\<rparr>)"
      "chan_moves (replyEvents q) rp \<Longrightarrow> R q (q\<lparr>replyEvents := rp\<rparr>)"
      "chan_moves (notificationEvents q) ne \<Longrightarrow> R q (q\<lparr>notificationEvents := ne\<rparr>)"
begin

lemma R_refl [simp]: "R q q"
  by (rule bookkeeping) (simp add: same_boxes_def)

lemma rel_same: "protocols s = protocols r \<Longrightarrow> table_rel R r s"
  by (simp add: table_rel_def list_all2_refl)

lemma rel_refl [simp]: "table_rel R r r"
  by (simp add: rel_same)

lemma rel_trans: "table_rel R r s \<Longrightarrow> table_rel R s t \<Longrightarrow> table_rel R r t"
  unfolding table_rel_def by (rule list_all2_trans [OF R_trans])

lemma rel_upd: "R (proto r p) (f (proto r p)) \<Longrightarrow> table_rel R r (upd_proto p f r)"
  by (cases "p < length (protocols r)")
     (simp_all add: table_rel_def upd_proto_def list_all2_conv_all_nth nth_list_update)

lemma rel_books: "(\<And>q. same_boxes q (f q)) \<Longrightarrow> table_rel R r (upd_proto p f r)"
  by (rule rel_upd) (simp add: bookkeeping)

lemma rel_code_simps [simp]:
  "rel_code R r (Return a s) = table_rel R r s" "rel_code R r (Panic m s) = table_rel R r s" "rel_code R r (Block s)"
  by (auto simp: rel_code_def)

lemma rel_code_and_then:
  "rel_code R r x \<Longrightarrow> (\<And>a s. rel_code R s (k a s)) \<Longrightarrow> rel_code R r (and_then x k)"
  by (cases x) (auto simp: rel_code_def intro: rel_trans)

lemma rel_code_weaken: "table_rel R r s \<Longrightarrow> rel_code R s x \<Longrightarrow> rel_code R r x"
  by (auto simp: rel_code_def intro: rel_trans)

lemma rel_code_same: "protocols s = protocols r \<Longrightarrow> rel_code R s x \<Longrightarrow> rel_code R r x"
  by (rule rel_code_weaken [OF rel_same])

lemma rel_codeD: "rel_code R r x \<Longrightarrow> completes x s \<Longrightarrow> table_rel R r s"
  by (simp add: rel_code_def)

lemma rel_code_select [simp]:
  "rel_code R r (select_proto messageChannel messageChannel_update p e r)"
  "rel_code R r (select_proto timerChannel timerChannel_update p t r)"
  "rel_code R r (select_proto sessionEvents sessionEvents_update p ev r)"
  "rel_code R r (select_proto requestEvents requestEvents_update p q r)"
  "rel_code R r (select_proto notificationEvents notificationEvents_update p n r)"
  "rel_code R r (select_proto replyEvents replyEvents_update p rep r)"
  by (auto simp: select_proto_def split: select_result.split intro!: rel_upd channels dest: chan_moves_select)

lemma rel_code_require [simp]:
  "rel_code R r (require g r)" "rel_code R r (require_register p a r)" "rel_code R r (require_active p a r)"
  by (simp_all add: require_def require_register_def require_active_def split: option.splits)

lemma rel_code_with_WireID: "(\<And>w t. rel_code R r (k w t)) \<Longrightarrow> rel_code R r (with_WireID env T r k)"
  by (auto simp: with_WireID_def split: option.splits)

section \<open>The API\<close>

lemma rel_deliverReply [simp]: "rel_code R r (deliverReply token rep err r)"
  unfolding deliverReply_def by (rule rel_code_and_then) simp_all

lemma rel_respond [simp]: "rel_code R r (respond rid rep err r)"
  by (auto simp: respond_def intro!: rel_code_same [OF _ rel_deliverReply] split: prod.splits)

lemma rel_publish_loop [simp]: "rel_code R r (publish_loop w n subs r)"
proof (induction subs arbitrary: r)
  case (Cons sub subs)
  show ?case unfolding publish_loop.simps
    by (rule rel_code_and_then) (auto intro: rel_code_same [OF _ Cons.IH])
qed simp

lemma rel_fanout [simp]: "rel_code R r (fanoutSessionEvent ev r)"
proof -
  have "rel_code R r (fanout_loop ev ps r)" for ps
  proof (induction ps arbitrary: r)
    case (Cons p ps)
    show ?case unfolding fanout_loop.simps by (rule rel_code_and_then) (auto intro: Cons.IH)
  qed simp
  then show ?thesis by (simp add: fanoutSessionEvent_def)
qed

lemma rel_processMessage: "rel_code R r (processMessage bs from r)"
proof -
  have "rel_code R r (and_then (select_proto messageChannel messageChannel_update p x (sample c r)) (\<lambda>_ r. Return () r))"
    for p x c
    by (rule rel_code_same [of "sample c r"], simp, rule rel_code_and_then) simp_all
  then show ?thesis
    by (simp add: processMessage_def Let_def rel_same split: option.split sum.split prod.split)
qed

lemma rel_pair: "table_rel R r (snd x) \<Longrightarrow> rel_code R r (case x of (e, s) \<Rightarrow> Return e s)"
  by (cases x) simp

lemma rel_sendRequest: "rel_code R r (sendRequest p w req d c r)"
proof -
  let ?e = "enter_request p w d c r" and ?tok = "\<lparr>requester = p, requestID = nextRequestID (proto r p) + 1\<rparr>"
  have enter: "table_rel R r ?e"
    unfolding enter_request_def Let_def
    by (rule rel_trans [OF rel_books rel_trans [OF rel_same rel_books]]) (simp_all add: same_boxes_def)
  show ?thesis
  proof (cases "Route (ipc ?e) w")
    case None
    then show ?thesis by (simp add: sendRequest_def Let_def rel_code_weaken [OF enter])
  next
    case (Some route)
    let ?t = "snd (AfterFunc d (TimeoutFire ?tok) ?e)"
    have "sendRequest p w req d c r = and_then (select_proto requestEvents requestEvents_update
        (route_proto route) \<lparr>ir_req = req, ir_token = ?tok, ir_handler = route_handler route\<rparr> ?t) (\<lambda>_ r. Return () r)"
      using Some by (simp add: sendRequest_def Let_def AfterFunc_def)
    moreover have "rel_code R ?t (and_then (select_proto requestEvents requestEvents_update q x ?t) (\<lambda>_ r. Return () r))" for q x
      by (rule rel_code_and_then) simp_all
    ultimately show ?thesis by (simp only:) (rule rel_code_weaken [OF enter], rule rel_code_same [of ?t], simp_all)
  qed
qed

lemma rel_books_codecs: "(\<And>q. same_boxes q (f q)) \<Longrightarrow> table_rel R r ((upd_proto p f r)\<lparr>codecs := cs\<rparr>)"
  by (rule rel_trans [OF rel_books rel_same]) simp_all

lemma api_step_rel: "api_step env r s \<Longrightarrow> table_rel R r s"
proof (induction rule: api_step.induct)
  case (codec p M mar unm r r')
  have "rel_code R r (RegisterCodec env p M mar unm r)"
    unfolding RegisterCodec_def registerCodec_def
    by (intro rel_code_with_WireID rel_code_and_then rel_code_require)
       (auto intro!: rel_books_codecs simp: same_boxes_def)
  then show ?case using codec rel_codeD by blast
next
  case (handler p M fn r r')
  have "rel_code R r (RegisterHandler env p M fn r)"
    unfolding RegisterHandler_def registerHandler_def
    by (intro rel_code_with_WireID rel_code_and_then rel_code_require) (auto intro!: rel_books simp: same_boxes_def)
  then show ?case using handler rel_codeD by blast
next
  case (request_handler p Req fn r r')
  have "rel_code R r (RegisterRequestHandler env p Req fn r)"
    unfolding RegisterRequestHandler_def registerRequestHandler_def
    by (intro rel_code_with_WireID rel_code_and_then rel_code_require) (auto simp: rel_same Let_def split: prod.splits option.splits)
  then show ?case using request_handler rel_codeD by blast
next
  case (subscribe p N fn r r')
  have "rel_code R r (SubscribeNotification env p N fn r)"
    unfolding SubscribeNotification_def ctx_subscribeNotification_def rt_subscribeNotification_def
    by (intro rel_code_with_WireID rel_code_and_then rel_code_require) (simp add: rel_same)
  then show ?case using subscribe rel_codeD by blast
next
  case (unsubscribe p N r r')
  have "rel_code R r (UnsubscribeNotification env p N r)"
    unfolding UnsubscribeNotification_def ctx_unsubscribeNotification_def rt_unsubscribeNotification_def
    by (intro rel_code_with_WireID) (simp add: rel_same)
  then show ?case using unsubscribe rel_codeD by blast
next
  case (timer_handler r p tm fn)
  show ?case unfolding ctx_RegisterTimerHandler_def by (rule rel_books) (simp add: same_boxes_def)
next
  case (connect p host r r')
  have "rel_code R r (ctx_Connect p host r)"
    unfolding ctx_Connect_def by (intro rel_code_and_then rel_code_require rel_pair) (simp add: rel_same)
  then show ?case using connect rel_codeD by blast
next
  case (connect_retry p host r r')
  have "rel_code R r (ctx_ConnectWithRetry p host r)"
    unfolding ctx_ConnectWithRetry_def by (intro rel_code_and_then rel_code_require rel_pair) (simp add: rel_same)
  then show ?case using connect_retry rel_codeD by blast
next
  case (disconnect p host r r')
  have "rel_code R r (ctx_Disconnect p host r)"
    unfolding ctx_Disconnect_def by (intro rel_code_and_then rel_code_require rel_pair) (simp add: rel_same)
  then show ?case using disconnect rel_codeD by blast
next
  case (send p msg host r r')
  have "rel_code R r (ctx_Send env p msg host r)"
    unfolding ctx_Send_def sendMessage_def Let_def
    by (intro rel_code_and_then rel_code_require) (auto intro: rel_same split: option.splits sum.splits)
  then show ?case using send rel_codeD by blast
next
  case (send_request p Req Rep req d fn r r')
  have "rel_code R r (SendRequestWithTimeout env p Req Rep req d fn r)"
    unfolding SendRequestWithTimeout_def ctx_sendRequest_def Let_def
    by (intro rel_code_with_WireID rel_code_and_then rel_code_require rel_sendRequest)
  then show ?case using send_request rel_codeD by blast
next
  case (reply rid v r r')
  then show ?case unfolding responder_Reply_def by (blast intro: rel_codeD [OF rel_respond])
next
  case (fail rid e r r')
  then show ?case unfolding responder_Fail_def by (blast intro: rel_codeD [OF rel_respond])
next
  case (publish order p N n r r')
  have "rel_code R r (PublishNotification env order p N n r)"
    unfolding PublishNotification_def ctx_publishNotification_def publishNotification_def Let_def
    by (intro rel_code_with_WireID rel_code_and_then rel_code_require) (rule rel_code_same [OF _ rel_publish_loop], simp)
  then show ?case using publish rel_codeD by blast
qed (simp_all add: rel_same)

lemma api_steps_rel: "api_steps env r s \<Longrightarrow> table_rel R r s"
  by (induction rule: rtranclp_induct) (auto intro: rel_trans api_step_rel)

section \<open>Goroutines without user code\<close>

lemma rel_dispatchSessionEvent: "rel_code R r (dispatchSessionEvent rnd ev r)"
proof -
  have fan: "rel_code R r (fanoutSessionEvent e s)" if "protocols s = protocols r" for e s and r :: "('h, 'v, 'u) Runtime"
    by (rule rel_code_same [OF that rel_fanout])
  have two: "rel_code R r (and_then (fanoutSessionEvent e s) (\<lambda>ok t. if ok then fanoutSessionEvent e' t else Return False t))"
    if "protocols s = protocols r" for e e' s
    by (rule rel_code_and_then [OF fan [OF that]]) simp
  have down: "protocols s = protocols r" if "onSessionDownForRetry rnd h (sample x r) = (g, s)" for h x g s
    using protocols_unchanged(11) [of rnd h "sample x r"] that by simp
  show ?thesis
    by (cases ev) (auto simp: dispatchSessionEvent_def Let_def intro!: fan two rel_same dest: down split: prod.splits)
qed

lemma rel_run_callback: "rel_code R r (run_callback f r)"
proof (cases f)
  case (TimerFire p tm)
  have "rel_code R r (run_TimerFire p tm r)"
    unfolding run_TimerFire_def by (rule rel_code_same [OF _ rel_code_select(2)]) simp
  with TimerFire show ?thesis by (simp add: rel_code_and_then)
qed (simp_all add: rel_same run_TimeoutFire_def run_WatchdogFire_def)

lemma rel_tick: "rel_code R r (tick k r)"
  by (auto simp: tick_def Let_def rel_same end_ticker_def split: select_result.split
      intro!: rel_upd channels chan_moves_put dest: chan_moves_select)

lemma rel_Cancel: "table_rel R r (Cancel r)"
  by (simp add: table_rel_def Cancel_def Let_def list_all2_conv_all_nth bookkeeping same_boxes_def)

end

section \<open>Event loops and user code\<close>

locale hosted_envelopes = envelope_relation R + hosted_protocols env run
  for R :: "('h, 'v) protoProtocol \<Rightarrow> ('h, 'v) protoProtocol \<Rightarrow> bool"
    and env :: "'v go_values" and run :: "('h, 'v, 'u) user_code"
begin

lemma rel_call_user: "rel_code R r (call_user run p h arg r)"
  unfolding call_user_def rel_code_def
proof (intro allI impI)
  let ?c = "r\<lparr>calls := calls r @ [Called p h arg]\<rparr>"
  fix s assume "completes (run h arg ?c) s"
  then have "table_rel R ?c s" by (intro api_steps_rel [OF api_only])
  then show "table_rel R r s" using rel_trans [OF rel_same [of ?c r]] by simp
qed

lemma rel_reportPanic: "rel_code R r (reportPanic run p site rec r)"
proof -
  have "rel_code R r (case call_user run p h arg s of Return _ t \<Rightarrow> Return () t | Block t \<Rightarrow> Block t | Panic _ t \<Rightarrow> Return () t)"
    if "protocols s = protocols r" for s h arg
    using rel_code_same [OF that rel_call_user [of s p h arg]] by (cases "call_user run p h arg s") auto
  then show ?thesis unfolding reportPanic_def Let_def by (auto simp: rel_same split: option.splits)
qed

lemma rel_invoke:
  "rel_code R r (invoke_handler env run p c raw from r)" "rel_code R r (invoke_reply env run p c rep err r)"
  "rel_code R r (invoke_notification env run p c raw r)" "rel_code R r (deliverSessionEvent run p ev r)"
  by (auto simp: invoke_handler_def invoke_reply_def invoke_notification_def deliverSessionEvent_def Let_def rel_call_user
      split: closure.splits option.splits sessionEventType.splits)

lemma rel_invoke_request: "rel_code R r (invoke_request env run c raw token r)"
proof (cases c)
  case (RequestFn p Req fn)
  have called: "rel_code R s (case call_user run p h arg s of Return _ t \<Rightarrow> Return () t | Block t \<Rightarrow> Block t
      | Panic rec t \<Rightarrow> and_then (reportPanic run p site rec t) (\<lambda>_ u. responder_Fail rid e u))" for s h arg site rid e
  proof -
    have "rel_code R t (and_then (reportPanic run p site rec t) (\<lambda>_ u. responder_Fail rid e u))" for t rec
      by (rule rel_code_and_then) (simp_all add: rel_reportPanic responder_Fail_def)
    then show ?thesis using rel_call_user [of s p h arg] by (cases "call_user run p h arg s") (auto intro: rel_code_weaken)
  qed
  show ?thesis unfolding RequestFn invoke_request_unfold Let_def
    by (simp, intro impI, rule rel_code_same [OF _ called], simp)
qed (simp_all add: invoke_request_def)

lemma rel_safeCall:
  assumes "\<And>s. rel_code R s (fn s)"
  shows "rel_code R r (safeCall run p site fn r)"
proof -
  obtain w r1 where w: "strictWatchdog p site r = (w, r1)" by (rule prod.exhaust)
  then have same: "protocols r1 = protocols r"
    by (auto simp: strictWatchdog_def AfterFunc_def split: if_splits)
  have "rel_code R r1 (case fn r1 of Return _ s \<Rightarrow> Return () s | Block s \<Rightarrow> Block s | Panic rec s \<Rightarrow> reportPanic run p site rec s)"
    using assms [of r1] by (cases "fn r1") (auto intro: rel_code_weaken rel_reportPanic)
  then show ?thesis
    unfolding safeCall_def w prod.case by (intro rel_code_same [OF same] rel_code_and_then) (simp_all add: rel_same)
qed

lemma rel_proto_deliverReply: "rel_code R r (proto_deliverReply env run p rep r)"
proof (cases "pending (proto r p) (rep_requestID rep)")
  case None
  then show ?thesis by (simp add: proto_deliverReply_def rel_same)
next
  case (Some pr)
  have books: "table_rel R r (upd_proto p (\<lambda>q. q\<lparr>pending := map_delete (rep_requestID rep) (pending q)\<rparr>) r)"
    by (rule rel_books) (simp add: same_boxes_def)
  show ?thesis unfolding proto_deliverReply_def Some option.case Let_def
    by (rule rel_code_weaken [OF books], rule rel_code_same [OF _ rel_invoke(2)]) simp
qed

lemma rel_turn:
  assumes "eventHandler env run p lc r = Some x"
  shows "rel_code R r x"
proof -
  have took: "table_rel R r (upd_proto p (timerChannel_update (\<lambda>_. (timerChannel (proto r p))\<lparr>chan_buf := ts\<rparr>)) r)"
    if "chan_buf (timerChannel (proto r p)) = t # ts" for t ts
    using that by (intro rel_upd channels chan_moves_recv)
  have msg: "table_rel R r (upd_proto p (messageChannel_update (\<lambda>_. (messageChannel (proto r p))\<lparr>chan_buf := ts\<rparr>)) r)"
    if "chan_buf (messageChannel (proto r p)) = t # ts" for t ts
    using that by (intro rel_upd channels chan_moves_recv)
  have ses: "table_rel R r (upd_proto p (sessionEvents_update (\<lambda>_. (sessionEvents (proto r p))\<lparr>chan_buf := ts\<rparr>)) r)"
    if "chan_buf (sessionEvents (proto r p)) = t # ts" for t ts
    using that by (intro rel_upd channels chan_moves_recv)
  have req: "table_rel R r (upd_proto p (requestEvents_update (\<lambda>_. (requestEvents (proto r p))\<lparr>chan_buf := ts\<rparr>)) r)"
    if "chan_buf (requestEvents (proto r p)) = t # ts" for t ts
    using that by (intro rel_upd channels chan_moves_recv)
  have rep: "table_rel R r (upd_proto p (replyEvents_update (\<lambda>_. (replyEvents (proto r p))\<lparr>chan_buf := ts\<rparr>)) r)"
    if "chan_buf (replyEvents (proto r p)) = t # ts" for t ts
    using that by (intro rel_upd channels chan_moves_recv)
  have ntf: "table_rel R r (upd_proto p (notificationEvents_update (\<lambda>_. (notificationEvents (proto r p))\<lparr>chan_buf := ts\<rparr>)) r)"
    if "chan_buf (notificationEvents (proto r p)) = t # ts" for t ts
    using that by (intro rel_upd channels chan_moves_recv)
  have hm: "rel_code R s (handleMessage env run p e s)" for s e
    unfolding handleMessage_def Let_def
    by (auto simp: rel_same intro!: rel_code_same [OF _ rel_safeCall [OF rel_invoke(1)]] split: option.splits)
  have ht: "rel_code R s (handleTimer run p t s)" for s t
    unfolding handleTimer_def by (auto intro!: rel_safeCall rel_call_user split: option.splits)
  show ?thesis using assms
    by (cases lc) (auto simp: eventHandler_def recv_def split: list.splits
        intro: rel_code_weaken [OF took ht] rel_code_weaken [OF msg hm]
          rel_code_weaken [OF ses rel_safeCall [OF rel_invoke(4)]] rel_code_weaken [OF req rel_safeCall [OF rel_invoke_request]]
          rel_code_weaken [OF rep rel_safeCall [OF rel_proto_deliverReply]] rel_code_weaken [OF ntf rel_safeCall [OF rel_invoke(3)]])
qed

lemma rel_setPhase: "table_rel R r (setPhase ph p r)"
  unfolding setPhase_def by (rule rel_books) (simp add: same_boxes_def)

lemma rel_ensureContext: "rel_code R r (ensureContext p r)"
  by (simp add: ensureContext_def rel_books same_boxes_def)

lemma rel_proto_Start: "rel_code R r (proto_Start run p r)"
  unfolding proto_Start_def
  by (intro rel_code_and_then rel_ensureContext rel_code_weaken [OF rel_setPhase rel_call_user])
     (simp add: rel_trans [OF rel_setPhase rel_books] same_boxes_def)

lemma rel_proto_Init: "rel_code R r (proto_Init run p r)"
  unfolding proto_Init_def
  by (intro rel_code_and_then rel_ensureContext rel_code_weaken [OF rel_setPhase rel_call_user]) (simp add: rel_setPhase)

lemma rel_each: "(\<And>p s. rel_code R s (f p s)) \<Longrightarrow> rel_code R r (each_protocol f ps r)"
  by (induction ps arbitrary: r) (auto intro!: rel_code_and_then)

lemma rel_start: "rel_code R r (rt_start run r)"
  unfolding rt_start_def startProtocols_def initProtocols_def
  by (auto intro!: rel_code_and_then rel_each rel_proto_Start rel_proto_Init simp: rel_same)

lemma rt_step_rel: "rt_step env run r s \<Longrightarrow> table_rel R r s"
proof (induction rule: rt_step.induct)
  case (alone r r')
  then show ?case
  proof (induction rule: rt_local.induct)
    case (starts r err r')
    then show ?case using rel_start [of r] by simp
  next
    case (turn p r lc r')
    then show ?case using rel_turn [OF turn(3)] by simp
  next
    case (callback r fs f gs r')
    then show ?case using rel_code_same [OF _ rel_run_callback, of "r\<lparr>spawned := fs @ gs\<rparr>" r f] by simp
  next
    case (ticks k r b r')
    then show ?case using rel_tick [of r k] by simp
  next
    case (goroutine r r')
    then show ?case by (rule api_step_rel)
  qed (simp_all add: rel_same rel_Cancel)
next
  case (dispatch r bs "from" r')
  then show ?case using rel_processMessage [of r bs "from"] by simp
next
  case (pump r rnd ev b r')
  then show ?case using rel_dispatchSessionEvent [of r rnd ev] by simp
qed

lemma rt_steps_rel: "rt_steps env run r s \<Longrightarrow> table_rel R r s"
  by (induction rule: rtranclp_induct) (auto intro: rel_trans rt_step_rel)

end

section \<open>The mailboxes\<close>

text \<open>Capacity and fill of the six channels.\<close>

definition mailboxes :: "('h, 'v) protoProtocol \<Rightarrow> (nat \<times> nat) list" where
  "mailboxes q =
     [(chan_cap (timerChannel q), length (chan_buf (timerChannel q))),
      (chan_cap (messageChannel q), length (chan_buf (messageChannel q))),
      (chan_cap (sessionEvents q), length (chan_buf (sessionEvents q))),
      (chan_cap (requestEvents q), length (chan_buf (requestEvents q))),
      (chan_cap (replyEvents q), length (chan_buf (replyEvents q))),
      (chan_cap (notificationEvents q), length (chan_buf (notificationEvents q)))]"

definition envelope_kept :: "('h, 'v) protoProtocol \<Rightarrow> ('h, 'v) protoProtocol \<Rightarrow> bool" where
  "envelope_kept q q' \<longleftrightarrow> protocol q' = protocol q \<and> bound q' = bound q \<and>
     list_all2 (\<lambda>b b'. fst b' = fst b \<and> (snd b \<le> fst b \<longrightarrow> snd b' \<le> fst b)) (mailboxes q) (mailboxes q')"

lemma chan_moves_fits:
  "chan_moves c c' \<Longrightarrow> chan_cap c' = chan_cap c \<and> (length (chan_buf c) \<le> chan_cap c \<longrightarrow> length (chan_buf c') \<le> chan_cap c)"
  by (auto simp: chan_moves_def chan_full_def)

interpretation boxes: envelope_relation envelope_kept
  by unfold_locales (auto simp: envelope_kept_def mailboxes_def same_boxes_def dest: chan_moves_fits)

interpretation pp_boxes: hosted_envelopes envelope_kept pp_env "pp_run me" for me
  by unfold_locales

definition configured_capacity :: "('h, 'v, 'u) Runtime \<Rightarrow> nat" where
  "configured_capacity r = nat (if protoChannelBuffer r \<le> 0 then defaultProtoChannelBuffer else protoChannelBuffer r)"

lemma protocols_option: "opt \<in> framework_options \<Longrightarrow> protocols (opt r) = protocols r"
  by (auto simp: framework_options_def WithTCPTransport_def WithChannelBuffer_def WithRetryPolicy_def
      WithDefaultRequestTimeout_def WithStrict_def WithStrictHandlerTimeout_def WithTransport_def Let_def)

lemma protocols_New: "set opts \<subseteq> framework_options \<Longrightarrow> protocols (New me opts u pd) = []"
proof -
  have "protocols (fold (\<lambda>opt r. opt r) os r) = protocols r" if "set os \<subseteq> framework_options"
    for os and r :: "('a, 'b, 'c) Runtime"
    using that by (induction os arbitrary: r) (simp_all add: protocols_option)
  then show "set opts \<subseteq> framework_options \<Longrightarrow> protocols (New me opts u pd) = []" by (simp add: New_def)
qed

lemma protocols_registered:
  "protocols (fold Register impls r) = protocols r @ map (\<lambda>impl. (newProtoProtocol impl (protoChannelBuffer r))\<lparr>bound := True\<rparr>) impls"
  by (induction impls arbitrary: r) (simp_all add: Register_def registerProtocol_def)

section \<open>Properties\<close>

text \<open>C21. The table of protocols is well formed in every reachable state: it holds the registered protocols in
  the order of registration, each bound to the runtime, and the six mailboxes of each have the configured
  capacity (sixteen unless \<^verbatim>\<open>WithChannelBuffer\<close> says otherwise), which is positive, and never hold more.\<close>

theorem protocol_table_well_formed:
  assumes "hosted_protocols env run" and "set opts \<subseteq> framework_options"
    and "rt_steps env run (fold Register impls (New me opts u pd)) s"
  shows "map protocol (protocols s) = impls \<and>
    list_all (\<lambda>q. bound q \<and> list_all (\<lambda>(cap, fill). cap = configured_capacity (New me opts u pd) \<and> 0 < cap \<and> fill \<le> cap) (mailboxes q))
      (protocols s)"
proof -
  let ?r = "New me opts u pd"
  let ?new = "\<lambda>impl. (newProtoProtocol impl (protoChannelBuffer ?r))\<lparr>bound := True\<rparr>"
  have hosted: "hosted_envelopes envelope_kept env run"
    using boxes.envelope_relation_axioms assms(1) by (rule hosted_envelopes.intro)
  have "list_all2 envelope_kept (map ?new impls) (protocols s)"
    using hosted_envelopes.rt_steps_rel [OF hosted assms(3)] by (simp add: table_rel_def protocols_registered protocols_New assms(2))
  then have "list_all2 (\<lambda>impl q. protocol q = impl \<and> bound q \<and>
      list_all (\<lambda>(cap, fill). cap = configured_capacity ?r \<and> 0 < cap \<and> fill \<le> cap) (mailboxes q)) impls (protocols s)"
    unfolding list_all2_map1
    by (rule list_all2_mono)
       (auto simp: envelope_kept_def mailboxes_def newProtoProtocol_def make_chan_def configured_capacity_def
         defaultProtoChannelBuffer_def Let_def)
  then show ?thesis
    by (auto simp: list_all2_conv_all_nth list_all_length intro!: nth_equalityI)
qed

theorem protocol_table_well_formed_witness:
  "\<exists>s. run_acts pp_env (pp_run 0) [ActStart] (pp_node (NewHost 1 ''a'') (NewHost 2 ''b'') False) = Some s \<and>
     map protocol (protocols s) = [pp_impl] \<and> list_all (\<lambda>q. list_all (\<lambda>(cap, fill). cap = 16 \<and> fill \<le> 16) (mailboxes q)) (protocols s)"
proof -
  let ?r = "New (NewHost 1 ''a'') [WithTCPTransport] (NewPingPongProtocol (NewHost 2 ''b'')) False :: pp_runtime"
  have "run_acts pp_env (pp_run 0) [ActStart] (pp_node (NewHost 1 ''a'') (NewHost 2 ''b'') False) \<noteq> None"
    by code_simp
  then obtain s where s: "run_acts pp_env (pp_run 0) [ActStart] (pp_node (NewHost 1 ''a'') (NewHost 2 ''b'') False) = Some s"
    by blast
  then have steps: "rt_steps pp_env (pp_run 0) (fold Register [pp_impl] ?r) s"
    using run_acts_steps [of pp_env "pp_run 0" "[ActStart]"] by (simp add: pp_node_def)
  have cap: "configured_capacity ?r = 16"
    by (simp add: configured_capacity_def New_def WithTCPTransport_def defaultProtoChannelBuffer_def)
  have opts: "set [WithTCPTransport] \<subseteq> framework_options" by (simp add: framework_options_def)
  from protocol_table_well_formed [OF ping_pong.hosted_protocols_axioms opts steps] s show ?thesis
    by (auto simp: cap list_all_iff)
qed

end
