(* ===== verification/Startup.thy ===== *)
theory Startup
  imports Mailboxes
begin

text \<open>
  Starting a runtime (\<^verbatim>\<open>Runtime.start\<close>, \<^verbatim>\<open>protoProtocol.Start\<close>, \<^verbatim>\<open>protoProtocol.Init\<close>): the calls of the API
  leave the lifecycle of the protocols and the trace of calls into user code alone, so that what a start does
  to them is determined by the framework.
\<close>

section \<open>What the API leaves alone\<close>

text \<open>The implementation behind an envelope and where it is in its lifecycle.\<close>

definition stage :: "('h, 'v) protoProtocol \<Rightarrow> 'h Protocol \<times> bool \<times> bool \<times> protoPhase" where
  "stage q = (protocol q, has_ctx q, loop_started q, proto_phase q)"

definition same_stage :: "('h, 'v, 'u) Runtime \<Rightarrow> ('h, 'v, 'u) Runtime \<Rightarrow> bool" where
  "same_stage r s \<longleftrightarrow> calls s = calls r \<and> map stage (protocols s) = map stage (protocols r)"

definition stays :: "('h, 'v, 'u) Runtime \<Rightarrow> ('a, ('h, 'v, 'u) Runtime) outcome \<Rightarrow> bool" where
  "stays r x \<longleftrightarrow> (\<forall>s. completes x s \<longrightarrow> same_stage r s)"

lemma same_stage_refl [simp]: "same_stage r r"
  by (simp add: same_stage_def)

lemma same_stage_trans: "same_stage r s \<Longrightarrow> same_stage s t \<Longrightarrow> same_stage r t"
  by (simp add: same_stage_def)

lemma same_stage_upd: "(\<And>q. stage (f q) = stage q) \<Longrightarrow> same_stage r (upd_proto p f r)"
  by (simp add: same_stage_def upd_proto_def map_update) (metis list_update_id map_update)

lemma same_stage_fields: "calls s = calls r \<Longrightarrow> protocols s = protocols r \<Longrightarrow> same_stage r s"
  by (simp add: same_stage_def)

lemma stays_simps [simp]:
  "stays r (Return a s) = same_stage r s" "stays r (Panic m s) = same_stage r s" "stays r (Block s)"
  by (auto simp: stays_def)

lemma stays_and_then: "stays r x \<Longrightarrow> (\<And>a s. stays s (k a s)) \<Longrightarrow> stays r (and_then x k)"
  by (cases x) (auto simp: stays_def intro: same_stage_trans)

lemma stays_weaken: "same_stage r s \<Longrightarrow> stays s x \<Longrightarrow> stays r x"
  by (auto simp: stays_def intro: same_stage_trans)

lemma staysD: "completes x s \<Longrightarrow> stays r x \<Longrightarrow> same_stage r s"
  by (simp add: stays_def)

lemma stays_select [simp]:
  "stays r (select_proto messageChannel messageChannel_update p e r)"
  "stays r (select_proto requestEvents requestEvents_update p q r)"
  "stays r (select_proto notificationEvents notificationEvents_update p n r)"
  "stays r (select_proto replyEvents replyEvents_update p rep r)"
  by (auto simp: select_proto_def stage_def split: select_result.split intro!: same_stage_upd)

lemma stays_require [simp]: "stays r (require_register p a r)" "stays r (require_active p a r)"
  by (simp_all add: require_def require_register_def require_active_def split: option.splits)

lemma stays_with_WireID: "(\<And>w t. stays r (k w t)) \<Longrightarrow> stays r (with_WireID env T r k)"
  by (auto simp: with_WireID_def split: option.splits)

lemma calls_unchanged [simp]:
  "calls (session_request req r) = calls r" "calls (stop_opt t' r) = calls r"
  "calls (snd (AfterFunc d f r)) = calls r" "calls (snd (rt_connect host r)) = calls r"
  "calls (snd (rt_disconnect host r)) = calls r" "calls (snd (connectWithRetry host r)) = calls r"
  "calls (setupTimer p tm d r) = calls r" "calls (setupPeriodicTimer p tm d r) = calls r" "calls (cancelTimer i r) = calls r"
  by (auto simp: session_request_def stop_opt_def Stop_def AfterFunc_def rt_connect_def rt_disconnect_def stopRetryFor_def
      connectWithRetry_def setupTimer_def setupPeriodicTimer_def cancelTimer_def cancel_ticker_def Let_def split: option.splits)

lemma stays_publish_loop [simp]: "stays r (publish_loop w n subs r)"
proof (induction subs arbitrary: r)
  case (Cons sub subs)
  show ?case unfolding publish_loop.simps
    by (rule stays_and_then) (auto intro: stays_weaken [OF same_stage_fields Cons.IH])
qed simp

lemma stays_deliverReply [simp]: "stays r (deliverReply token rep err r)"
  unfolding deliverReply_def by (rule stays_and_then) simp_all

lemma stays_respond [simp]: "stays r (respond rid rep err r)"
  by (auto simp: respond_def intro!: stays_weaken [OF same_stage_fields stays_deliverReply] split: prod.splits)

lemma stays_sendRequest: "stays r (sendRequest p w req d c r)"
proof -
  let ?e = "enter_request p w d c r" and ?tok = "\<lparr>requester = p, requestID = nextRequestID (proto r p) + 1\<rparr>"
  have enter: "same_stage r ?e"
    unfolding enter_request_def Let_def
    by (rule same_stage_trans [OF same_stage_upd same_stage_trans [OF same_stage_fields same_stage_upd]]) (simp_all add: stage_def)
  show ?thesis
  proof (cases "Route (ipc ?e) w")
    case None
    then show ?thesis by (simp add: sendRequest_def Let_def stays_weaken [OF enter])
  next
    case (Some route)
    let ?t = "snd (AfterFunc d (TimeoutFire ?tok) ?e)"
    have "sendRequest p w req d c r = and_then (select_proto requestEvents requestEvents_update
        (route_proto route) \<lparr>ir_req = req, ir_token = ?tok, ir_handler = route_handler route\<rparr> ?t) (\<lambda>_ r. Return () r)"
      using Some by (simp add: sendRequest_def Let_def AfterFunc_def)
    moreover have "same_stage r ?t" by (rule same_stage_trans [OF enter same_stage_fields]) simp_all
    moreover have "stays ?t (and_then (select_proto requestEvents requestEvents_update q x ?t) (\<lambda>_ r. Return () r))" for q x
      by (rule stays_and_then) simp_all
    ultimately show ?thesis by (simp only: stays_weaken)
  qed
qed

lemma stays_pair: "same_stage r (snd x) \<Longrightarrow> stays r (case x of (e, s) \<Rightarrow> Return e s)"
  by (cases x) simp

lemma same_stage_codecs: "(\<And>q. stage (f q) = stage q) \<Longrightarrow> same_stage r ((upd_proto p f r)\<lparr>codecs := cs\<rparr>)"
  by (rule same_stage_trans [OF same_stage_upd same_stage_fields]) simp_all

lemma api_calls_stay:
  "stays r (RegisterCodec env p M mar unm r)" "stays r (RegisterHandler env p M fn r)"
  "stays r (RegisterRequestHandler env p Req fn r)" "stays r (SubscribeNotification env p N fn r)"
  "stays r (UnsubscribeNotification env p N r)"
  "stays r (ctx_Connect p host r)" "stays r (ctx_ConnectWithRetry p host r)" "stays r (ctx_Disconnect p host r)"
  "stays r (ctx_Send env p msg host r)" "stays r (SendRequestWithTimeout env p Req Rep req d h r)"
  "stays r (responder_Reply rid v r)" "stays r (responder_Fail rid e r)" "stays r (PublishNotification env order p N n r)"
  unfolding RegisterCodec_def registerCodec_def RegisterHandler_def registerHandler_def RegisterRequestHandler_def
    registerRequestHandler_def SubscribeNotification_def ctx_subscribeNotification_def rt_subscribeNotification_def
    UnsubscribeNotification_def ctx_unsubscribeNotification_def rt_unsubscribeNotification_def
    ctx_Connect_def ctx_ConnectWithRetry_def ctx_Disconnect_def ctx_Send_def sendMessage_def SendRequestWithTimeout_def
    ctx_sendRequest_def responder_Reply_def responder_Fail_def PublishNotification_def ctx_publishNotification_def
    publishNotification_def Let_def
  by (intro stays_with_WireID stays_and_then stays_require stays_pair stays_sendRequest stays_respond;
      auto simp: stage_def intro!: same_stage_codecs same_stage_upd same_stage_fields stays_weaken [OF same_stage_fields stays_publish_loop]
        split: option.splits sum.splits prod.splits)+

lemma api_steps_stay: "api_steps env r s \<Longrightarrow> same_stage r s"
proof (induction rule: rtranclp_induct)
  case (step s t)
  from step(2) have "same_stage s t"
  proof (induction rule: api_step.induct)
    case (timer_handler r p tm fn)
    show ?case unfolding ctx_RegisterTimerHandler_def by (rule same_stage_upd) (simp add: stage_def)
  qed (simp add: same_stage_fields | erule staysD, rule api_calls_stay)+
  with step.IH show ?case by (rule same_stage_trans)
qed simp

section \<open>The two passes over the protocols\<close>

definition staged :: "('h Protocol \<times> bool \<times> bool \<times> protoPhase \<Rightarrow> 'h Protocol \<times> bool \<times> bool \<times> protoPhase)
    \<Rightarrow> pid list \<Rightarrow> ('h, 'v, 'u) Runtime \<Rightarrow> ('h, 'v, 'u) Runtime \<Rightarrow> bool" where
  "staged f ps r s \<longleftrightarrow> length (protocols s) = length (protocols r) \<and>
     (\<forall>p < length (protocols r). stage (proto s p) = (if p \<in> set ps then f (stage (proto r p)) else stage (proto r p)))"

lemma staged_upd:
  "p < length (protocols r) \<Longrightarrow> same_stage r s \<Longrightarrow> (\<And>q. stage (g q) = f (stage q)) \<Longrightarrow> staged f [p] r (upd_proto p g s)"
proof -
  assume "p < length (protocols r)" "same_stage r s" and g: "\<And>q. stage (g q) = f (stage q)"
  then have len: "length (protocols s) = length (protocols r)" and p: "p < length (protocols s)"
    and st: "stage (proto s q) = stage (proto r q)" if "q < length (protocols r)" for q
    using that unfolding same_stage_def by (metis length_map, metis length_map, metis length_map nth_map)
  show ?thesis using len p st g \<open>p < length (protocols r)\<close> by (simp add: staged_def)
qed

text \<open>A pass runs one operation of the framework on each protocol; the operation calls one method of the
  implementation and moves the protocol on.\<close>

locale startup_pass =
  fixes op :: "pid \<Rightarrow> ('h, 'v, 'u) Runtime \<Rightarrow> (unit, ('h, 'v, 'u) Runtime) outcome"
    and meth :: "'h Protocol \<Rightarrow> 'h"
    and move :: "'h Protocol \<times> bool \<times> bool \<times> protoPhase \<Rightarrow> 'h Protocol \<times> bool \<times> bool \<times> protoPhase"
  assumes op_calls: "op p r = Return () s \<Longrightarrow> p < length (protocols r) \<Longrightarrow> calls s = calls r @ [Called p (meth (protocol (proto r p))) CtxArg]"
    and op_moves: "op p r = Return () s \<Longrightarrow> p < length (protocols r) \<Longrightarrow> staged move [p] r s"
    and keeps_impl: "fst (move x) = fst x"
begin

lemma pass:
  assumes "each_protocol op ps r = Return () s" and "distinct ps" and "\<forall>p \<in> set ps. p < length (protocols r)"
  shows "calls s = calls r @ map (\<lambda>p. Called p (meth (protocol (proto r p))) CtxArg) ps \<and> staged move ps r s"
  using assms
proof (induction ps arbitrary: r)
  case Nil
  then show ?case by (simp add: staged_def)
next
  case (Cons p ps)
  then obtain t where t: "op p r = Return () t" "each_protocol op ps t = Return () s" by (auto simp: and_then_Return_iff)
  have p: "p < length (protocols r)" using Cons.prems(3) by simp
  note one = op_calls [OF t(1) p] op_moves [OF t(1) p]
  have same: "protocol (proto t q) = protocol (proto r q)" if "q \<in> set ps" for q
  proof -
    have "q < length (protocols r)" "q \<noteq> p" using that Cons.prems(2,3) by auto
    then have "stage (proto t q) = stage (proto r q)" using one(2) by (simp add: staged_def)
    then show ?thesis by (simp add: stage_def)
  qed
  have len: "length (protocols t) = length (protocols r)" using one(2) by (simp add: staged_def)
  from Cons.IH [OF t(2)] Cons.prems(2,3) len
  have "calls s = calls t @ map (\<lambda>p. Called p (meth (protocol (proto t p))) CtxArg) ps" "staged move ps t s" by simp_all
  moreover have "map (\<lambda>p. Called p (meth (protocol (proto t p))) CtxArg) ps = map (\<lambda>p. Called p (meth (protocol (proto r p))) CtxArg) ps"
    using same by simp
  ultimately show ?case using one Cons.prems(2) len unfolding staged_def by auto
qed

end

context hosted_protocols
begin

lemma call_user_stage:
  assumes "call_user run p h arg r = Return a s"
  shows "calls s = calls r @ [Called p h arg]" and "map stage (protocols s) = map stage (protocols r)"
  using api_steps_stay [OF api_only [of h arg "r\<lparr>calls := calls r @ [Called p h arg]\<rparr>" s]] assms
  by (simp_all add: call_user_def same_stage_def)

end
definition start_move :: "'h Protocol \<times> bool \<times> bool \<times> protoPhase \<Rightarrow> 'h Protocol \<times> bool \<times> bool \<times> protoPhase" where
  "start_move x = (fst x, True, True, phaseRegistered)"

definition init_move :: "'h Protocol \<times> bool \<times> bool \<times> protoPhase \<Rightarrow> 'h Protocol \<times> bool \<times> bool \<times> protoPhase" where
  "init_move x = (fst x, True, fst (snd (snd x)), phaseRunning)"

lemma stage_updates:
  "stage (q\<lparr>proto_phase := ph\<rparr>) = (\<lambda>(i, c, l, _). (i, c, l, ph)) (stage q)"
  "stage (q\<lparr>loop_started := b\<rparr>) = (\<lambda>(i, c, l, ph). (i, c, b, ph)) (stage q)"
  by (simp_all add: stage_def)

lemma ensureContext_stage:
  assumes "ensureContext p r = Return () s" and "p < length (protocols r)"
  shows "calls s = calls r" and "staged (\<lambda>(i, c, l, ph). (i, True, l, ph)) [p] r s" and "protocol (proto s p) = protocol (proto r p)"
  using assms by (auto simp: ensureContext_def staged_def stage_def split: if_splits)

lemma same_stage_stage: "same_stage r s \<Longrightarrow> p < length (protocols r) \<Longrightarrow> stage (proto s p) = stage (proto r p)"
  "same_stage r s \<Longrightarrow> length (protocols s) = length (protocols r)"
  unfolding same_stage_def by (metis length_map nth_map, metis length_map)

context hosted_protocols
begin

text \<open>Between a phase change before and one after it, the method is called once.\<close>

lemma around_call:
  assumes "call_user run p h CtxArg (setPhase ph p r) = Return a s" and "p < length (protocols r)"
  shows "calls s = calls r @ [Called p h CtxArg]" and "length (protocols s) = length (protocols r)"
    and "q < length (protocols r) \<Longrightarrow> stage (proto s q) = (if q = p then (\<lambda>(i, c, l, _). (i, c, l, ph)) (stage (proto r p)) else stage (proto r q))"
proof -
  let ?r = "setPhase ph p r"
  have "same_stage (?r\<lparr>calls := calls s\<rparr>) s" using call_user_stage(2) [OF assms(1)] by (simp add: same_stage_def)
  note st = same_stage_stage [OF this]
  show "calls s = calls r @ [Called p h CtxArg]" using call_user_stage(1) [OF assms(1)] by (simp add: setPhase_def)
  show "length (protocols s) = length (protocols r)" using st(2) by (simp add: setPhase_def)
  show "stage (proto s q) = (if q = p then (\<lambda>(i, c, l, _). (i, c, l, ph)) (stage (proto r p)) else stage (proto r q))"
    if "q < length (protocols r)"
    using st(1) [of q] that assms(2) by (simp add: setPhase_def stage_def)
qed

end

sublocale hosted_protocols \<subseteq> starting: startup_pass "proto_Start run" impl_Start start_move
proof
  fix p r s
  assume "proto_Start run p r = Return () s" and p: "p < length (protocols r)"
  then obtain r1 r2 where r1: "ensureContext p r = Return () r1"
    and r2: "call_user run p (impl_Start (protocol (proto r1 p))) CtxArg (setPhase phaseRegistering p r1) = Return () r2"
    and s: "s = upd_proto p (\<lambda>q. q\<lparr>loop_started := True\<rparr>) (setPhase phaseRegistered p r2)"
    by (auto simp: proto_Start_def and_then_Return_iff)
  note e = ensureContext_stage [OF r1 p]
  from e(2) p have p1: "p < length (protocols r1)" by (simp add: staged_def)
  note c = around_call [OF r2 p1]
  show "calls s = calls r @ [Called p (impl_Start (protocol (proto r p))) CtxArg]"
    using c(1) e(1,3) by (simp add: s setPhase_def)
  have st: "stage (proto r2 q) = (if q = p then (\<lambda>(i, c, l, _). (i, True, l, phaseRegistering)) (stage (proto r q)) else stage (proto r q))"
    if "q < length (protocols r)" for q
    using c(3) [of q] e(2) that by (cases "q = p") (auto simp: staged_def split: prod.splits)
  show "staged start_move [p] r s"
    using c(2) e(2) p st by (auto simp: s setPhase_def staged_def start_move_def stage_updates split: prod.splits)
qed (simp add: start_move_def)

sublocale hosted_protocols \<subseteq> initing: startup_pass "proto_Init run" impl_Init init_move
proof
  fix p r s
  assume "proto_Init run p r = Return () s" and p: "p < length (protocols r)"
  then obtain r1 r2 where r1: "ensureContext p r = Return () r1"
    and r2: "call_user run p (impl_Init (protocol (proto r1 p))) CtxArg (setPhase phaseInitializing p r1) = Return () r2"
    and s: "s = setPhase phaseRunning p r2"
    by (auto simp: proto_Init_def and_then_Return_iff)
  note e = ensureContext_stage [OF r1 p]
  from e(2) p have p1: "p < length (protocols r1)" by (simp add: staged_def)
  note c = around_call [OF r2 p1]
  show "calls s = calls r @ [Called p (impl_Init (protocol (proto r p))) CtxArg]"
    using c(1) e(1,3) by (simp add: s setPhase_def)
  have st: "stage (proto r2 q) = (if q = p then (\<lambda>(i, c, l, _). (i, True, l, phaseInitializing)) (stage (proto r q)) else stage (proto r q))"
    if "q < length (protocols r)" for q
    using c(3) [of q] e(2) that by (cases "q = p") (auto simp: staged_def split: prod.splits)
  show "staged init_move [p] r s"
    using c(2) e(2) p st by (auto simp: s setPhase_def staged_def init_move_def stage_updates split: prod.splits)
qed (simp add: init_move_def)

context hosted_protocols
begin

lemmas start_pass = starting.pass
lemmas init_pass = initing.pass

end

section \<open>Property\<close>

text \<open>C15. A runtime starts in two passes: when \<^verbatim>\<open>start\<close> succeeds, user code that respects the API has been called for
  the \<^verbatim>\<open>Start\<close> of every protocol, in the order of registration, and only then for the \<^verbatim>\<open>Init\<close> of every protocol, in
  the same order, once each and for nothing else; afterwards every protocol runs with its event loop started,
  and the dispatcher and the session-event pump are up. No protocol acts before all have registered.\<close>

theorem start_in_two_passes:
  assumes "hosted_protocols env run" and "rt_start run r = Return None s"
  shows "calls s = calls r @ map (\<lambda>p. Called p (impl_Start (protocol (proto r p))) CtxArg) [0..<length (protocols r)]
             @ map (\<lambda>p. Called p (impl_Init (protocol (proto r p))) CtxArg) [0..<length (protocols r)] \<and>
    length (protocols s) = length (protocols r) \<and> rt_loops s \<and>
    (\<forall>p < length (protocols r). protocol (proto s p) = protocol (proto r p) \<and> loop_started (proto s p) \<and>
       proto_phase (proto s p) = phaseRunning)"
proof -
  let ?ps = "[0..<length (protocols r)]"
  obtain t u where t: "each_protocol (proto_Start run) ?ps r = Return () t"
    and u: "each_protocol (proto_Init run) [0..<length (protocols t)] t = Return () u" and s: "s = u\<lparr>rt_loops := True\<rparr>"
    using assms(2) by (auto simp: rt_start_def startProtocols_def initProtocols_def and_then_Return_iff split: if_splits)
  have starts: "calls t = calls r @ map (\<lambda>p. Called p (impl_Start (protocol (proto r p))) CtxArg) ?ps" "staged start_move ?ps r t"
    using hosted_protocols.start_pass [OF assms(1) t] by simp_all
  then have len: "length (protocols t) = length (protocols r)" by (simp add: staged_def)
  have inits: "calls u = calls t @ map (\<lambda>p. Called p (impl_Init (protocol (proto t p))) CtxArg) ?ps" "staged init_move ?ps t u"
    using hosted_protocols.init_pass [OF assms(1) u] len by simp_all
  have "protocol (proto t p) = protocol (proto r p)" if "p < length (protocols r)" for p
    using starts(2) that by (auto simp: staged_def start_move_def stage_def)
  then have "map (\<lambda>p. Called p (impl_Init (protocol (proto t p))) CtxArg) ?ps = map (\<lambda>p. Called p (impl_Init (protocol (proto r p))) CtxArg) ?ps"
    by simp
  then show ?thesis using starts inits len by (auto simp: s staged_def start_move_def init_move_def stage_def)
qed

theorem start_in_two_passes_witness:
  "\<exists>s. rt_start (\<lambda>h arg r. Return () r) one_proto = Return None s \<and>
     calls s = [Called 0 (impl_Start idle_impl) CtxArg, Called 0 (impl_Init idle_impl) CtxArg]"
proof -
  let ?run = "\<lambda>h arg r. Return () r" and ?env = "\<lparr>TypeOf = (\<lambda>_. pingType), WireName = (\<lambda>_. None), Fresh = (\<lambda>_. 0)\<rparr>"
  have "hosted_protocols ?env ?run" by unfold_locales simp
  moreover have "\<exists>s. rt_start ?run one_proto = Return None s"
    by (simp add: rt_start_def startProtocols_def initProtocols_def proto_Start_def proto_Init_def ensureContext_def
        call_user_def one_proto_defs setPhase_def)
  then obtain s where s: "rt_start ?run one_proto = Return None s" ..
  ultimately have "calls s = calls one_proto @ map (\<lambda>p. Called p (impl_Start (protocol (proto one_proto p))) CtxArg) [0..<length (protocols one_proto)]
      @ map (\<lambda>p. Called p (impl_Init (protocol (proto one_proto p))) CtxArg) [0..<length (protocols one_proto)]"
    using start_in_two_passes by blast
  with s show ?thesis by (simp add: one_proto_defs)
qed

end
