(* ===== verification/Framing.thy ===== *)
theory Framing
  imports Wire
begin

text \<open>
  The frame codec of \<^verbatim>\<open>pkg/transport/tcp.go\<close>: \<^verbatim>\<open>encodeFrame\<close> and the loop of
  \<^verbatim>\<open>decodeFrames\<close> over the receive buffer. The locale \<open>framing\<close> is what the TCP layer relies
  on: whatever the chunks the kernel returns, feeding them to the decoder yields the frames that were
  sent, in order. \<open>encodeFrame\<close> and \<open>decodeFrames\<close> interpret it.
\<close>

section \<open>Operations\<close>

definition maxFrameSize :: "32 word" where
  "maxFrameSize = 16 * 1024 * 1024"

definition encodeFrame :: "byte list \<Rightarrow> byte list result" where
  "encodeFrame payload =
     (if length payload > unat (NOT 0 :: 32 word) then Inl (Errorf ''payload too large: %d bytes'' [])
      else Inr (be_put 4 (word_of_nat (length payload) :: 32 word) @ payload))"

text \<open>One iteration reads the header, and stops for more input, stops with an error, or consumes
  header and payload and goes on. The result is what the function returns and what is left in the
  buffer; on an error the frames collected so far are not returned.\<close>

function decodeFrames_loop :: "byte list \<Rightarrow> byte list list \<Rightarrow> byte list list result \<times> byte list" where
  "decodeFrames_loop buf frames =
     (if length buf < 4 then (Inr frames, buf)
      else let len = (be_get (take 4 buf) :: 32 word) in
        if len > maxFrameSize
        then (Inl (Errorf ''frame length %d exceeds maxFrameSize %d'' []), buf)
        else if length buf < unat (4 + len) then (Inr frames, buf)
        else decodeFrames_loop (drop (unat len) (drop 4 buf))
               (frames @ [take (unat len) (drop 4 buf)]))"
  by pat_completeness auto
termination
  by (relation "measure (\<lambda>(buf, frames). length buf)") auto

declare decodeFrames_loop.simps [simp del]

definition decodeFrames :: "byte list \<Rightarrow> byte list list result \<times> byte list" where
  "decodeFrames buf = decodeFrames_loop buf []"

section \<open>The decoder on a stream\<close>

text \<open>Prepending frames to a decoder result.\<close>

definition with_frames :: "byte list list \<Rightarrow> byte list list result \<times> byte list
    \<Rightarrow> byte list list result \<times> byte list" where
  "with_frames fs r = (map_sum id ((@) fs) (fst r), snd r)"

lemma with_frames_simps [simp]:
  "with_frames fs (Inr gs, b) = (Inr (fs @ gs), b)"
  "with_frames fs (Inl e, b) = (Inl e, b)"
  "with_frames [] r = r"
  "with_frames fs (with_frames gs r) = with_frames (fs @ gs) r"
  by (cases r; cases "fst r"; simp add: with_frames_def)+

lemma decodeFrames_loop_acc: "decodeFrames_loop buf fs = with_frames fs (decodeFrames buf)"
proof -
  have "decodeFrames_loop buf (fs @ gs) = with_frames fs (decodeFrames_loop buf gs)" for gs
  proof (induction buf gs rule: decodeFrames_loop.induct)
    case (1 buf gs)
    show ?case
      using "1.IH" [OF _ refl]
      by (subst (1 2) decodeFrames_loop.simps) (auto simp: Let_def)
  qed
  from this [of "[]"] show ?thesis by (simp add: decodeFrames_def)
qed

text \<open>The decoder's step, with the sum \<^verbatim>\<open>4 + length\<close> that cannot wrap below the size limit.\<close>

lemma maxFrameSize_unat [simp]: "unat maxFrameSize = 2 ^ 24"
  by (simp add: maxFrameSize_def)

lemma unat_frame_end: "len \<le> maxFrameSize \<Longrightarrow> unat (4 + len) = 4 + unat len"
proof -
  assume "len \<le> maxFrameSize"
  then have "unat len \<le> 2 ^ 24" by (metis maxFrameSize_unat word_le_nat_alt)
  then show ?thesis by (subst unat_word_ariths) simp
qed

lemma decodeFrames_unfold:
  "decodeFrames buf =
     (if length buf < 4 then (Inr [], buf)
      else let len = (be_get (take 4 buf) :: 32 word) in
        if len > maxFrameSize
        then (Inl (Errorf ''frame length %d exceeds maxFrameSize %d'' []), buf)
        else if length buf < 4 + unat len then (Inr [], buf)
        else with_frames [take (unat len) (drop 4 buf)] (decodeFrames (drop (4 + unat len) buf)))"
  unfolding decodeFrames_def [of buf]
  by (subst decodeFrames_loop.simps) (auto simp: Let_def unat_frame_end decodeFrames_loop_acc add.commute)

lemma decodeFrames_induct [case_names step]:
  assumes "\<And>buf. (\<And>b'. length b' < length buf \<Longrightarrow> P b') \<Longrightarrow> P buf"
  shows "P buf"
  by (rule measure_induct_rule [where f = length, OF assms])

text \<open>Decoding can be interrupted anywhere: the bytes left over after a first part, followed by the
  second part, give the remaining frames.\<close>

lemma decodeFrames_append:
  "decodeFrames a = (Inr fs, r) \<Longrightarrow> decodeFrames (a @ b) = with_frames fs (decodeFrames (r @ b))"
proof (induction a arbitrary: fs r rule: decodeFrames_induct)
  case (step a)
  let ?len = "be_get (take 4 a) :: 32 word"
  show ?case
  proof (cases "length a < 4 \<or> length a < 4 + unat ?len")
    case True
    with step.prems have "fs = []" "r = a"
      by (auto simp: decodeFrames_unfold [of a] Let_def split: if_splits)
    then show ?thesis by simp
  next
    case False
    with step.prems have ok: "\<not> maxFrameSize < ?len"
      by (auto simp: decodeFrames_unfold [of a] Let_def split: if_splits)
    let ?rest = "drop (4 + unat ?len) a" and ?f = "take (unat ?len) (drop 4 a)"
    from step.prems False ok have "with_frames [?f] (decodeFrames ?rest) = (Inr fs, r)"
      by (simp add: decodeFrames_unfold [of a] Let_def)
    then obtain gs where gs: "decodeFrames ?rest = (Inr gs, r)" "fs = ?f # gs"
      by (cases "decodeFrames ?rest"; cases "fst (decodeFrames ?rest)") auto
    have "decodeFrames (?rest @ b) = with_frames gs (decodeFrames (r @ b))"
      by (rule step.IH [OF _ gs(1)]) (use False in auto)
    moreover have "decodeFrames (a @ b) = with_frames [?f] (decodeFrames (?rest @ b))"
      using False ok by (simp add: decodeFrames_unfold [of "a @ b"] Let_def)
    ultimately show ?thesis using gs(2) by simp
  qed
qed

text \<open>A whole frame at the front is split off.\<close>

definition frame :: "byte list \<Rightarrow> byte list" where
  "frame p = be_put 4 (word_of_nat (length p) :: 32 word) @ p"

lemma encodeFrame_frame: "length p < 2 ^ 32 \<Longrightarrow> encodeFrame p = Inr (frame p)"
  by (simp add: encodeFrame_def frame_def unsigned_minus_1_eq_mask mask_eq_exp_minus_1)

lemma decodeFrames_frame:
  assumes "length p \<le> 2 ^ 24"
  shows "decodeFrames (frame p @ rest) = with_frames [p] (decodeFrames rest)"
proof -
  let ?n = "word_of_nat (length p) :: 32 word"
  have n: "unat ?n = length p"
    using assms by (simp add: unat_of_nat take_bit_nat_eq_self_iff)
  then have "\<not> maxFrameSize < ?n" using assms by (simp add: word_less_nat_alt)
  then show ?thesis
    by (subst decodeFrames_unfold) (simp add: frame_def codec_simps n Let_def)
qed

text \<open>An invalid header is found as soon as it is complete, whatever follows.\<close>

lemma decodeFrames_append_error:
  "decodeFrames a = (Inl e, r) \<Longrightarrow> decodeFrames (a @ b) = (Inl e, r @ b)"
proof (induction a rule: decodeFrames_induct)
  case (step a)
  let ?len = "be_get (take 4 a) :: 32 word"
  from step.prems have 4: "4 \<le> length a"
    by (auto simp: decodeFrames_unfold [of a] Let_def split: if_splits)
  show ?case
  proof (cases "maxFrameSize < ?len")
    case True
    have "decodeFrames a = (Inl (Errorf ''frame length %d exceeds maxFrameSize %d'' []), a)"
      and "decodeFrames (a @ b) = (Inl (Errorf ''frame length %d exceeds maxFrameSize %d'' []), a @ b)"
      using True 4 by (subst decodeFrames_unfold, simp add: Let_def)+
    with step.prems show ?thesis by simp
  next
    case False
    let ?rest = "drop (4 + unat ?len) a"
    from step.prems False have len: "4 + unat ?len \<le> length a"
      and rest: "decodeFrames ?rest = (Inl e, r)"
      by (cases "decodeFrames ?rest"; cases "fst (decodeFrames ?rest)";
          auto simp: decodeFrames_unfold [of a] Let_def split: if_splits)+
    have "decodeFrames (?rest @ b) = (Inl e, r @ b)"
      by (rule step.IH [OF _ rest]) (use len in simp)
    with False 4 len show ?thesis by (simp add: decodeFrames_unfold [of "a @ b"] Let_def)
  qed
qed

text \<open>What is left in the buffer holds no complete frame.\<close>

lemma decodeFrames_tidy: "decodeFrames a = (Inr gs, b) \<Longrightarrow> decodeFrames b = (Inr [], b)"
proof (induction a arbitrary: gs rule: decodeFrames_induct)
  case (step a)
  let ?len = "be_get (take 4 a) :: 32 word"
  show ?case
  proof (cases "length a < 4 \<or> length a < 4 + unat ?len")
    case True
    with step.prems have "b = a" "gs = []"
      by (auto simp: decodeFrames_unfold [of a] Let_def split: if_splits)
    with step.prems show ?thesis by simp
  next
    case False
    let ?rest = "drop (4 + unat ?len) a"
    from step.prems False obtain hs where "decodeFrames ?rest = (Inr hs, b)"
      by (cases "decodeFrames ?rest"; cases "fst (decodeFrames ?rest)")
         (auto simp: decodeFrames_unfold [of a] Let_def split: if_splits)
    then show ?thesis by (rule step.IH [rotated]) (use False in auto)
  qed
qed

text \<open>Nothing is lost or invented: the input is the returned frames and the remaining bytes.\<close>

lemma decodeFrames_sound:
  "decodeFrames buf = (Inr fs, r) \<Longrightarrow>
   buf = concat (map frame fs) @ r \<and> (\<forall>f \<in> set fs. length f \<le> 2 ^ 24)"
proof (induction buf arbitrary: fs rule: decodeFrames_induct)
  case (step a)
  let ?len = "be_get (take 4 a) :: 32 word"
  show ?case
  proof (cases "length a < 4 \<or> length a < 4 + unat ?len")
    case True
    with step.prems show ?thesis
      by (auto simp: decodeFrames_unfold [of a] Let_def split: if_splits)
  next
    case False
    let ?rest = "drop (4 + unat ?len) a" and ?f = "take (unat ?len) (drop 4 a)"
    from step.prems False obtain gs where gs: "decodeFrames ?rest = (Inr gs, r)" "fs = ?f # gs"
      and small: "\<not> maxFrameSize < ?len"
      by (cases "decodeFrames ?rest"; cases "fst (decodeFrames ?rest)")
         (auto simp: decodeFrames_unfold [of a] Let_def split: if_splits)
    have IH: "?rest = concat (map frame gs) @ r \<and> (\<forall>f \<in> set gs. length f \<le> 2 ^ 24)"
      by (rule step.IH [OF _ gs(1)]) (use False in auto)
    have lf: "length ?f = unat ?len" using False by auto
    have "frame ?f = take 4 a @ ?f"
      unfolding frame_def lf
      using le_put_le_get [of "rev (take 4 a)", where 'a = 32] False
      by (simp add: be_put_def be_get_def)
    moreover have "?rest = drop (unat ?len) (drop 4 a)" by (simp add: add.commute)
    ultimately have "frame ?f @ ?rest = a" by (simp only: append_assoc append_take_drop_id)
    moreover have "unat ?len \<le> 2 ^ 24" using small by (simp add: word_less_nat_alt)
    ultimately show ?thesis using IH gs(2) lf by auto
  qed
qed

section \<open>The framing interface\<close>

text \<open>The receiving side of a connection: each chunk is appended to the receive buffer and the
  complete frames are taken out.\<close>

fun receive_chunks :: "(byte list \<Rightarrow> byte list list result \<times> byte list) \<Rightarrow> byte list
    \<Rightarrow> byte list list \<Rightarrow> byte list list result \<times> byte list" where
  "receive_chunks dec buf [] = (Inr [], buf)"
| "receive_chunks dec buf (c # cs) =
     (case dec (buf @ c) of
        (Inl e, buf') \<Rightarrow> (Inl e, buf')
      | (Inr fs, buf') \<Rightarrow> with_frames fs (receive_chunks dec buf' cs))"

locale framing =
  fixes enc :: "byte list \<Rightarrow> byte list result"
    and dec :: "byte list \<Rightarrow> byte list list result \<times> byte list"
    and fits :: "byte list \<Rightarrow> bool"
  assumes dec_nil: "dec [] = (Inr [], [])"
    and dec_enc: "fits p \<Longrightarrow> enc p = Inr e \<Longrightarrow> dec (e @ rest) = with_frames [p] (dec rest)"
    and dec_append: "dec a = (Inr fs, r) \<Longrightarrow> dec (a @ b) = with_frames fs (dec (r @ b))"
    and dec_append_error: "dec a = (Inl x, r) \<Longrightarrow> dec (a @ b) = (Inl x, r @ b)"
    and dec_tidy: "dec a = (Inr fs, r) \<Longrightarrow> dec r = (Inr [], r)"
begin

lemma dec_stream:
  assumes "list_all2 (\<lambda>p e. fits p \<and> enc p = Inr e) ps es"
  shows "dec (concat es @ rest) = with_frames ps (dec rest)"
  using assms by (induction ps es rule: list_all2_induct) (auto simp: dec_enc)

text \<open>Reading chunk by chunk is decoding the whole input at once.\<close>

lemma receive_chunks_dec:
  assumes "dec buf = (Inr [], buf)" and "dec (buf @ concat cs) = (Inr fs, r)"
  shows "receive_chunks dec buf cs = (Inr fs, r)"
  using assms
proof (induction cs arbitrary: buf fs)
  case Nil
  then show ?case by simp
next
  case (Cons c cs)
  show ?case
  proof (cases "dec (buf @ c)")
    case (Pair x b)
    show ?thesis
    proof (cases x)
      case (Inl e)
      with Pair dec_append_error [of "buf @ c" e b "concat cs"] Cons.prems(2) show ?thesis by simp
    next
      case (Inr gs)
      with Pair have gb: "dec (buf @ c) = (Inr gs, b)" by simp
      from dec_append [OF gb, of "concat cs"] Cons.prems(2)
      obtain hs where hs: "dec (b @ concat cs) = (Inr hs, r)" "fs = gs @ hs"
        by (cases "dec (b @ concat cs)"; cases "fst (dec (b @ concat cs))") auto
      from Cons.IH [OF dec_tidy [OF gb] hs(1)] gb hs(2) show ?thesis by simp
    qed
  qed
qed

lemma stream_delivery:
  assumes "list_all2 (\<lambda>p e. fits p \<and> enc p = Inr e) ps es" and "concat cs = concat es"
  shows "receive_chunks dec [] cs = (Inr ps, [])"
  using dec_stream [OF assms(1), of "[]"] by (intro receive_chunks_dec) (simp_all add: dec_nil assms(2))

end

interpretation fr: framing encodeFrame decodeFrames "\<lambda>p. length p \<le> 2 ^ 24"
  by unfold_locales
     (auto simp: decodeFrames_unfold [of "[]"] encodeFrame_frame decodeFrames_frame decodeFrames_append
        decodeFrames_append_error dest: decodeFrames_tidy)

section \<open>Properties\<close>

text \<open>C11. Framing survives the byte stream: encode any list of payloads of at most 16 MiB, cut the
  resulting bytes into chunks in any way, and the receive loop hands out exactly those payloads in
  order with nothing left in the buffer.\<close>

theorem frames_survive_chunking:
  assumes "list_all2 (\<lambda>p e. length p \<le> 2 ^ 24 \<and> encodeFrame p = Inr e) ps es"
    and "concat chunks = concat es"
  shows "receive_chunks decodeFrames [] chunks = (Inr ps, [])"
  using fr.stream_delivery [OF assms] .

theorem frames_survive_chunking_witness:
  "receive_chunks decodeFrames [] [[0, 0], [0, 2, 7], [8, 0, 0, 0, 0]] = (Inr [[7, 8], []], [])"
  by (rule frames_survive_chunking [of _ "[[0, 0, 0, 2, 7, 8], [0, 0, 0, 0]]"])
     (simp_all add: encodeFrame_frame frame_def be_put_def le_put_numeral)

text \<open>The decoder neither invents nor loses bytes: when it succeeds, its input is the encoding of
  the frames it returned followed by what it left in the buffer, no frame exceeds the limit, and what
  is left contains no further complete frame.\<close>

theorem decodeFrames_conserves_bytes:
  assumes "decodeFrames buf = (Inr fs, r)"
  shows "buf = concat (map (\<lambda>f. projr (encodeFrame f)) fs) @ r \<and>
         (\<forall>f \<in> set fs. length f \<le> unat maxFrameSize) \<and> decodeFrames r = (Inr [], r)"
proof -
  have m: "map (\<lambda>f. projr (encodeFrame f)) fs = map frame fs"
    using decodeFrames_sound [OF assms] by (auto simp: encodeFrame_frame)
  from decodeFrames_sound [OF assms] decodeFrames_tidy [OF assms] show ?thesis
    unfolding m by simp
qed

theorem decodeFrames_conserves_bytes_witness:
  "decodeFrames [0, 0, 0, 1, 5, 0] = (Inr [[5]], [0])
   \<and> [0, 0, 0, 1, 5, 0] = concat (map (\<lambda>f. projr (encodeFrame f)) [[5]]) @ [0 :: byte]"
proof -
  have d: "decodeFrames [0, 0, 0, 1, 5, 0] = (Inr [[5]], [0])"
    by (simp add: decodeFrames_unfold be_get_def maxFrameSize_def)
  from d decodeFrames_conserves_bytes [OF d] show ?thesis by blast
qed

text \<open>C29. The two ends disagree on the size limit: every payload between 16 MiB and 4 GiB is framed by
  \<open>encodeFrame\<close> without an error, and \<open>decodeFrames\<close> refuses the frame; the frames that arrived
  whole before it in the same buffer are consumed and not returned.\<close>

theorem oversized_frame_drops_batch:
  assumes "unat maxFrameSize < length p" and "length p < 2 ^ 32"
    and "\<forall>q \<in> set ps. length q \<le> unat maxFrameSize"
  shows "\<exists>e. encodeFrame p = Inr e \<and>
     (\<exists>x. decodeFrames (concat (map (\<lambda>q. projr (encodeFrame q)) ps) @ e @ rest) = (Inl x, e @ rest))"
proof -
  let ?n = "word_of_nat (length p) :: 32 word"
  have enc: "encodeFrame p = Inr (frame p)" using assms(2) by (rule encodeFrame_frame)
  have "unat ?n = length p" using assms(2) by (simp add: unat_word_of_nat_small)
  then have "maxFrameSize < ?n" using assms(1) by (simp add: word_less_nat_alt)
  then have x: "decodeFrames (frame p @ rest)
      = (Inl (Errorf ''frame length %d exceeds maxFrameSize %d'' []), frame p @ rest)"
    by (subst decodeFrames_unfold) (simp add: frame_def codec_simps Let_def)
  have "list_all2 (\<lambda>q e. length q \<le> 2 ^ 24 \<and> encodeFrame q = Inr e) ps
          (map (\<lambda>q. projr (encodeFrame q)) ps)"
    using assms(3) by (induction ps) (auto simp: encodeFrame_frame)
  from fr.dec_stream [OF this, of "frame p @ rest"] x enc show ?thesis by simp
qed

theorem oversized_frame_drops_batch_witness:
  "\<exists>e. encodeFrame (replicate (2 ^ 24 + 1) 0) = Inr e \<and>
     (\<exists>x. decodeFrames (concat (map (\<lambda>q. projr (encodeFrame q)) [[1]]) @ e @ []) = (Inl x, e @ []))"
  by (rule oversized_frame_drops_batch) (simp_all only: length_replicate maxFrameSize_unat, simp_all)

end
