(* ===== verification/TCP_Layer.thy ===== *)
theory TCP_Layer
  imports Address Framing
begin

text \<open>
  \<^verbatim>\<open>pkg/transport/tcp.go\<close>: the TCP implementation of the transport layer. A \<^verbatim>\<open>net.Conn\<close> is a
  number, or \<^term>\<open>None\<close> for nil; the network is what the operating system answers (whether a dial or a
  write succeeds, what a read returns), an argument of the operations. \<open>handlers\<close> holds the running
  \<^verbatim>\<open>connectionHandler\<close> goroutines with their receive buffers, \<open>wire\<close> what was written to each
  connection, \<open>closed\<close> the closed connections. The goroutines are interleaved with those of
  the other layers in \<open>Node\<close>.
\<close>

section \<open>State\<close>

type_synonym conn = nat

record TCPLayer =
  tcp_self :: Host
  activeConnections :: "Host \<rightharpoonup> conn option"
  outChannel :: "TMessage chan"
  outEvents :: "Event chan"
  handlers :: "conn \<rightharpoonup> Host \<times> byte list"
  wire :: "conn \<Rightarrow> byte list"
  closed :: "conn set"
  listening :: bool
  tcp_ctxDone :: bool

definition defaultTransportOutBuffer :: int where "defaultTransportOutBuffer = 16"

text \<open>The constructor; \<open>listen_ok\<close> is whether \<^verbatim>\<open>net.Listen\<close> succeeded (on failure the layer runs
  without a listener).\<close>

definition tcp_listen :: "bool \<Rightarrow> TCPLayer \<Rightarrow> TCPLayer" where
  "tcp_listen listen_ok t = (if listen_ok then t\<lparr>listening := True\<rparr> else t)"

definition NewTCPLayer :: "Host \<Rightarrow> int \<Rightarrow> bool \<Rightarrow> TCPLayer" where
  "NewTCPLayer me outBuf listen_ok =
     (let n = (if outBuf \<le> 0 then defaultTransportOutBuffer else outBuf)
      in tcp_listen listen_ok
         \<lparr>tcp_self = me, activeConnections = Map.empty, outChannel = make_chan (nat n),
          outEvents = make_chan (nat n), handlers = Map.empty, wire = (\<lambda>_. []), closed = {},
          listening = False, tcp_ctxDone = False\<rparr>)"

definition tcp_Cancel :: "TCPLayer \<Rightarrow> TCPLayer" where
  "tcp_Cancel t = t\<lparr>tcp_ctxDone := True\<rparr>"

declare tcp_listen_def [simp] tcp_Cancel_def [simp]

definition push_event :: "Event \<Rightarrow> TCPLayer \<Rightarrow> TCPLayer" where
  "push_event ev t = t\<lparr>outEvents := chan_put ev (outEvents t)\<rparr>"

definition close_conn :: "conn option \<Rightarrow> TCPLayer \<Rightarrow> TCPLayer" where
  "close_conn c t = (case c of None \<Rightarrow> t | Some k \<Rightarrow> t\<lparr>closed := insert k (closed t)\<rparr>)"

definition addActiveConn :: "conn \<Rightarrow> Host \<Rightarrow> TCPLayer \<Rightarrow> TCPLayer" where
  "addActiveConn c host t = t\<lparr>activeConnections := (activeConnections t)(host \<mapsto> Some c)\<rparr>"

definition removeActiveConn :: "Host \<Rightarrow> TCPLayer \<Rightarrow> conn option option \<times> TCPLayer" where
  "removeActiveConn host t =
     (activeConnections t host,
      case activeConnections t host of
        None \<Rightarrow> t
      | Some _ \<Rightarrow> t\<lparr>activeConnections := map_delete host (activeConnections t)\<rparr>)"

definition getActiveConn :: "Host \<Rightarrow> TCPLayer \<Rightarrow> conn option option" where
  "getActiveConn host t = activeConnections t host"

section \<open>Operations of the handler goroutine\<close>

definition tcp_disconnect :: "Host \<Rightarrow> TCPLayer \<Rightarrow> TCPLayer" where
  "tcp_disconnect host t =
     (case removeActiveConn host t of
        (None, t1) \<Rightarrow> t1
      | (Some c, t1) \<Rightarrow> push_event (Disconnected host) (close_conn c t1))"

text \<open>What \<^verbatim>\<open>conn.Write\<close> does: it writes everything, or fails with some bytes already on their way.\<close>

datatype write_result = WriteOK | WriteError nat

definition tcp_send :: "write_result \<Rightarrow> TMessage \<Rightarrow> Host \<Rightarrow> TCPLayer \<Rightarrow> TCPLayer" where
  "tcp_send wr msg sendTo t =
     (case getActiveConn sendTo t of
        None \<Rightarrow> t
      | Some None \<Rightarrow> t
      | Some (Some c) \<Rightarrow>
          (case encodeFrame (tm_Msg msg) of
             Inl err \<Rightarrow> tcp_disconnect sendTo (push_event (Failed sendTo) t)
           | Inr fr \<Rightarrow>
               (case wr of
                  WriteError k \<Rightarrow> tcp_disconnect sendTo (push_event (Failed sendTo)
                    (t\<lparr>wire := (wire t)(c := wire t c @ take k fr)\<rparr>))
                | WriteOK \<Rightarrow> t\<lparr>wire := (wire t)(c := wire t c @ fr)\<rparr>)))"

text \<open>\<open>dial\<close> is the result of \<^verbatim>\<open>net.Dial\<close>: a new connection, or an error.\<close>

definition tcp_connect :: "conn option \<Rightarrow> Host \<Rightarrow> TCPLayer \<Rightarrow> TCPLayer" where
  "tcp_connect dial host t =
     (case dial of
        None \<Rightarrow> push_event (Failed host) t
      | Some c \<Rightarrow>
          let t1 = push_event (Connected host) (addActiveConn c host t)
          in t1\<lparr>handlers := (handlers t1)(c \<mapsto> (host, []))\<rparr>)"

datatype tcp_request =
    TcpDisconnect Host | TcpConnect Host "conn option" | TcpSend TMessage Host write_result

primrec tcp_handler :: "tcp_request \<Rightarrow> TCPLayer \<Rightarrow> TCPLayer" where
  "tcp_handler (TcpDisconnect host) t = tcp_disconnect host t"
| "tcp_handler (TcpConnect host dial) t = tcp_connect dial host t"
| "tcp_handler (TcpSend msg host wr) t = tcp_send wr msg host t"

section \<open>Listener and connection handlers\<close>

text \<open>A connection accepted from a remote address.\<close>

definition listener_accept :: "conn \<Rightarrow> Host \<Rightarrow> TCPLayer \<Rightarrow> TCPLayer" where
  "listener_accept c host t =
     (let t1 = push_event (Connected host) (addActiveConn c host t)
      in t1\<lparr>handlers := (handlers t1)(c \<mapsto> (host, []))\<rparr>)"

text \<open>One round of the loop of \<^verbatim>\<open>listenerHandler\<close>, with what \<^verbatim>\<open>Accept\<close> returned; after an error it goes on unless the
  context is done, when its deferred call closes the listener.\<close>

datatype accept_result = AcceptError | AcceptNil | Accepted conn Host

primrec listenerHandler :: "accept_result \<Rightarrow> TCPLayer \<Rightarrow> TCPLayer" where
  "listenerHandler AcceptError t = (if tcp_ctxDone t then t\<lparr>listening := False\<rparr> else t)"
| "listenerHandler AcceptNil t = t"
| "listenerHandler (Accepted c host) t = listener_accept c host t"

declare listenerHandler.simps(1) [simp del]

lemma accept_error_sel [simp]:
  "wire (listenerHandler AcceptError t) = wire t" "handlers (listenerHandler AcceptError t) = handlers t"
  "activeConnections (listenerHandler AcceptError t) = activeConnections t"
  "outChannel (listenerHandler AcceptError t) = outChannel t" "outEvents (listenerHandler AcceptError t) = outEvents t"
  "tcp_ctxDone (listenerHandler AcceptError t) = tcp_ctxDone t"
  by (simp_all add: listenerHandler.simps(1))

text \<open>What one \<^verbatim>\<open>conn.Read\<close> with its deadline returns: a timeout, another error, or some bytes, at most as many as its
  buffer holds.\<close>

definition readBufSize :: nat where "readBufSize = 4096"

datatype read_result = ReadTimeout | ReadError go_error | ReadData "byte list"

definition readFrames :: "read_result \<Rightarrow> byte list \<Rightarrow> Host \<Rightarrow> TCPLayer
    \<Rightarrow> byte list list result \<times> byte list \<times> TCPLayer" where
  "readFrames rr recvBuf host t =
     (case rr of
        ReadTimeout \<Rightarrow> (Inr [], recvBuf, t)
      | ReadError err \<Rightarrow> (Inl err, recvBuf, t)
      | ReadData bs \<Rightarrow>
          if length bs = 0 then (Inr [], recvBuf, t)
          else (case decodeFrames (recvBuf @ bs) of
                  (Inl derr, buf) \<Rightarrow> (Inl derr, buf, push_event (Failed host) t)
                | (Inr frames, buf) \<Rightarrow> (Inr frames, buf, t)))"

primrec push_frames :: "Host \<Rightarrow> byte list list \<Rightarrow> TCPLayer \<Rightarrow> TCPLayer" where
  "push_frames host [] t = t"
| "push_frames host (f # fs) t =
     push_frames host fs (t\<lparr>outChannel := chan_put \<lparr>tm_Host = host, tm_Msg = f\<rparr> (outChannel t)\<rparr>)"

text \<open>One round of the loop of \<^verbatim>\<open>connectionHandler\<close> for a connection, with what its read
  returned; \<open>saw_done\<close> is whether the round's select found the context done.\<close>

definition connectionHandler :: "bool \<Rightarrow> conn \<Rightarrow> read_result \<Rightarrow> TCPLayer \<Rightarrow> TCPLayer" where
  "connectionHandler saw_done c rr t =
     (case handlers t c of
        None \<Rightarrow> t
      | Some (host, recvBuf) \<Rightarrow>
          if saw_done then (close_conn (Some c) t)\<lparr>handlers := map_delete c (handlers t)\<rparr>
          else (case readFrames rr recvBuf host t of
                  (Inl err, buf, t1) \<Rightarrow>
                    (tcp_disconnect host t1)\<lparr>handlers := map_delete c (handlers t)\<rparr>
                | (Inr frames, buf, t1) \<Rightarrow>
                    push_frames host frames (t1\<lparr>handlers := (handlers t1)(c \<mapsto> (host, buf))\<rparr>)))"

text \<open>\<^verbatim>\<open>closeOnCtxDone\<close>, once the context is done.\<close>

definition closeOnCtxDone :: "TCPLayer \<Rightarrow> TCPLayer" where
  "closeOnCtxDone t =
     t\<lparr>listening := False,
       closed := closed t \<union> {c. \<exists>host. activeConnections t host = Some (Some c)},
       activeConnections := Map.empty\<rparr>"

definition activeConnectionCount :: "TCPLayer \<Rightarrow> nat" where
  "activeConnectionCount t = card (dom (activeConnections t))"

lemmas tcp_defs [go_defs] =
  push_event_def close_conn_def addActiveConn_def removeActiveConn_def getActiveConn_def
  tcp_disconnect_def tcp_send_def tcp_connect_def listener_accept_def readFrames_def
  connectionHandler_def closeOnCtxDone_def

section \<open>Sending and receiving\<close>

definition tcp_sends :: "TMessage list \<Rightarrow> Host \<Rightarrow> TCPLayer \<Rightarrow> TCPLayer" where
  "tcp_sends msgs host t = fold (\<lambda>m. tcp_handler (TcpSend m host WriteOK)) msgs t"

definition conn_rounds :: "conn \<Rightarrow> byte list list \<Rightarrow> TCPLayer \<Rightarrow> TCPLayer" where
  "conn_rounds c chunks t = fold (\<lambda>bs. connectionHandler False c (ReadData bs)) chunks t"

lemma tcp_send_ok:
  assumes "activeConnections t host = Some (Some c)" and "length (tm_Msg m) < 2 ^ 32"
  shows "tcp_send WriteOK m host t = t\<lparr>wire := (wire t)(c := wire t c @ frame (tm_Msg m))\<rparr>"
  using assms by (simp add: tcp_send_def getActiveConn_def encodeFrame_frame)

lemma tcp_sends_wire:
  assumes "activeConnections t host = Some (Some c)" and "\<forall>m \<in> set ms. length (tm_Msg m) < 2 ^ 32"
  shows "wire (tcp_sends ms host t) c = wire t c @ concat (map (frame \<circ> tm_Msg) ms) \<and>
         outEvents (tcp_sends ms host t) = outEvents t"
  using assms by (induction ms arbitrary: t) (auto simp: tcp_sends_def tcp_send_ok)

lemma push_frames_eq:
  "push_frames host fs t =
     t\<lparr>outChannel := (outChannel t)\<lparr>chan_buf := chan_buf (outChannel t)
        @ map (\<lambda>f. \<lparr>tm_Host = host, tm_Msg = f\<rparr>) fs\<rparr>\<rparr>"
  by (induction fs arbitrary: t) (simp_all add: chan_put_def)

text \<open>The rounds of a connection handler are the chunk-wise decoder of the framing interface.\<close>

lemma conn_rounds_receive:
  assumes "handlers t c = Some (host, buf)" and "receive_chunks decodeFrames buf chunks = (Inr fs, rest)"
    and "decodeFrames buf = (Inr [], buf)"
  shows "chan_buf (outChannel (conn_rounds c chunks t)) =
           chan_buf (outChannel t) @ map (\<lambda>f. \<lparr>tm_Host = host, tm_Msg = f\<rparr>) fs \<and>
         outEvents (conn_rounds c chunks t) = outEvents t \<and>
         handlers (conn_rounds c chunks t) c = Some (host, rest)"
  using assms
proof (induction chunks arbitrary: t buf fs)
  case Nil
  then show ?case by (simp add: conn_rounds_def)
next
  case (Cons ch chunks)
  from Cons.prems(2) obtain gs b hs where gs: "decodeFrames (buf @ ch) = (Inr gs, b)"
    and hs: "receive_chunks decodeFrames b chunks = (Inr hs, rest)" "fs = gs @ hs"
    by (cases "decodeFrames (buf @ ch)"; cases "fst (decodeFrames (buf @ ch))";
        cases "receive_chunks decodeFrames (snd (decodeFrames (buf @ ch))) chunks";
        cases "fst (receive_chunks decodeFrames (snd (decodeFrames (buf @ ch))) chunks)") auto
  let ?t = "connectionHandler False c (ReadData ch) t"
  have round: "?t = push_frames host gs (t\<lparr>handlers := (handlers t)(c \<mapsto> (host, b))\<rparr>)"
    using Cons.prems(1,3) gs by (auto simp: connectionHandler_def readFrames_def fun_upd_idem)
  have "handlers ?t c = Some (host, b)" by (simp add: round push_frames_eq)
  from Cons.IH [OF this hs(1) decodeFrames_tidy [OF gs]] hs(2) show ?case
    by (simp add: conn_rounds_def round push_frames_eq)
qed

lemma tcp_pipe:
  assumes "activeConnections a peer = Some (Some c)" and "wire a c = []"
    and "\<forall>m \<in> set msgs. length (tm_Msg m) \<le> unat maxFrameSize"
    and "handlers b d = Some (src, [])"
    and "concat chunks = wire (tcp_sends msgs peer a) c"
  shows "chan_buf (outChannel (conn_rounds d chunks b)) =
           chan_buf (outChannel b) @ map (\<lambda>m. \<lparr>tm_Host = src, tm_Msg = tm_Msg m\<rparr>) msgs \<and>
         outEvents (conn_rounds d chunks b) = outEvents b"
proof -
  have small: "\<forall>m \<in> set msgs. length (tm_Msg m) < 2 ^ 32" using assms(3) by auto
  have "list_all2 (\<lambda>p e. length p \<le> 2 ^ 24 \<and> encodeFrame p = Inr e) (map tm_Msg msgs)
          (map (frame \<circ> tm_Msg) msgs)"
    using assms(3) by (induction msgs) (auto simp: encodeFrame_frame)
  moreover have "concat chunks = concat (map (frame \<circ> tm_Msg) msgs)"
    using tcp_sends_wire [OF assms(1) small] assms(2,5) by simp
  ultimately have "receive_chunks decodeFrames [] chunks = (Inr (map tm_Msg msgs), [])"
    by (rule fr.stream_delivery)
  from conn_rounds_receive [OF assms(4) this] show ?thesis
    by (simp add: fr.dec_nil comp_def)
qed

section \<open>Properties\<close>

text \<open>The transport is a reliable, ordered message pipe over a working connection: the messages
  sent to a connected host, each at most 16 MiB, come out of the other end's handler once each, in
  order and with their payload intact, however the byte stream is cut up by the reads.\<close>

theorem tcp_pipe_delivers_in_order:
  assumes "activeConnections a peer = Some (Some c)" and "wire a c = []"
    and "\<forall>m \<in> set msgs. length (tm_Msg m) \<le> unat maxFrameSize"
    and "handlers b d = Some (src, [])"
    and "concat chunks = wire (tcp_sends msgs peer a) c"
  shows "chan_buf (outChannel (conn_rounds d chunks b)) =
           chan_buf (outChannel b) @ map (\<lambda>m. \<lparr>tm_Host = src, tm_Msg = tm_Msg m\<rparr>) msgs \<and>
         outEvents (conn_rounds d chunks b) = outEvents b"
  using tcp_pipe [OF assms] .

theorem tcp_pipe_delivers_in_order_witness:
  "let p = NewHost 1 ''p''; q = NewHost 2 ''q''; m = \<lparr>tm_Host = p, tm_Msg = [3]\<rparr>;
       a = tcp_connect (Some 0) p (NewTCPLayer q 0 True); b = listener_accept 0 q (NewTCPLayer p 0 True)
   in chan_buf (outChannel (conn_rounds 0 [[0, 0, 0], [1, 3]] b)) = [\<lparr>tm_Host = q, tm_Msg = [3]\<rparr>]"
  unfolding Let_def
  by (subst conjunct1 [OF tcp_pipe_delivers_in_order
        [of "tcp_connect (Some 0) (NewHost 1 ''p'') (NewTCPLayer (NewHost 2 ''q'') 0 True)" "NewHost 1 ''p''" 0
            "[\<lparr>tm_Host = NewHost 1 ''p'', tm_Msg = [3]\<rparr>]" _ _ "NewHost 2 ''q''"]])
     (simp_all add: tcp_defs tcp_sends_def NewTCPLayer_def Let_def encodeFrame_frame frame_def be_put_def
       le_put_numeral)

text \<open>A failed write is reported as a failure followed by one disconnect, closes exactly the
  connection that failed and removes it; a request for a host without a connection does nothing.\<close>

theorem tcp_send_failure:
  assumes "getActiveConn host t = Some (Some c)" and "t' = tcp_handler (TcpSend msg host (WriteError k)) t"
  shows "chan_buf (outEvents t') = chan_buf (outEvents t) @ [Failed host, Disconnected host] \<and>
         activeConnections t' = map_delete host (activeConnections t) \<and>
         closed t' = insert c (closed t) \<and> (\<forall>d. d \<noteq> c \<longrightarrow> wire t' d = wire t d) \<and>
         tcp_handler (TcpSend msg host wr) t' = t' \<and> tcp_handler (TcpDisconnect host) t' = t'"
  using assms by (auto simp: tcp_defs split: sum.splits)

theorem tcp_send_failure_witness:
  "let h = NewHost 1 ''p''; t = tcp_connect (Some 4) h (NewTCPLayer (NewHost 2 ''q'') 0 True);
       t' = tcp_handler (TcpSend \<lparr>tm_Host = h, tm_Msg = [3]\<rparr> h (WriteError 2)) t
   in chan_buf (outEvents t') = [Connected h, Failed h, Disconnected h] \<and> closed t' = {4}"
proof -
  let ?h = "NewHost 1 ''p''" and ?t = "tcp_connect (Some 4) (NewHost 1 ''p'') (NewTCPLayer (NewHost 2 ''q'') 0 True)"
  have "getActiveConn ?h ?t = Some (Some 4)" "chan_buf (outEvents ?t) = [Connected ?h]" "closed ?t = {}"
    by (simp_all add: tcp_defs NewTCPLayer_def Let_def)
  with tcp_send_failure [OF this(1) refl, of "\<lparr>tm_Host = ?h, tm_Msg = [3]\<rparr>" 2 WriteOK] show ?thesis
    by (simp add: Let_def)
qed

text \<open>C36. A connection handler that outlives its connection takes down the replacement: when the host
  has been reconnected meanwhile, the old handler's read error disconnects the host, so the new
  connection is closed and forgotten although nothing went wrong on it.\<close>

theorem stale_handler_closes_new_connection:
  assumes "handlers t old = Some (host, buf)" and "activeConnections t host = Some (Some new)"
    and "old \<noteq> new"
    and "t' = connectionHandler False old (ReadError err) t"
  shows "new \<in> closed t' \<and> activeConnections t' host = None \<and>
         chan_buf (outEvents t') = chan_buf (outEvents t) @ [Disconnected host] \<and>
         handlers t' new = handlers t new"
  using assms by (auto simp: tcp_defs)

theorem stale_handler_closes_new_connection_witness:
  "let h = NewHost 1 ''p'';
       t = tcp_connect (Some 5) h (tcp_handler (TcpSend \<lparr>tm_Host = h, tm_Msg = []\<rparr> h (WriteError 0))
             (tcp_connect (Some 4) h (NewTCPLayer (NewHost 2 ''q'') 0 True)))
   in 5 \<in> closed (connectionHandler False 4 (ReadError io_EOF) t)"
  unfolding Let_def
  by (rule conjunct1 [OF stale_handler_closes_new_connection [OF _ _ _ refl,
        where host = "NewHost 1 ''p''" and buf = "[]"]])
     (simp_all add: tcp_defs NewTCPLayer_def Let_def encodeFrame_frame)

end
