(* ===== verification/Membership.thy ===== *)
theory Membership
  imports Runtime_Invariants
begin

text \<open>
  The membership protocol of \<^verbatim>\<open>cmd/gossip/membership\<close> as user code over the API, with the values and
  the memory of the node it shares with the gossip protocol (\<^verbatim>\<open>cmd/gossip/gossip\<close>). The key set of
  \<^verbatim>\<open>Protocol.view\<close> is a list without repetitions; the order in which Go ranges over it is the argument
  \<open>order\<close>.
\<close>

section \<open>Values and memory of a node\<close>

record ViewChanged =
  vc_Added :: Host
  vc_Removed :: Host
  vc_HasAdded :: bool
  vc_HasRemoved :: bool

datatype node_value =
    Message "64 word" "byte list"
  | GetView
  | View "Host list"
  | ViewChangedV ViewChanged
  | TriggerBroadcast "byte list"
  | BroadcastAck
  | periodicTick

datatype node_fn =
    MemStart | MemInit | MemOnSessionConnected | MemOnSessionDisconnected | HandleGetView
  | GossipStart | GossipInit | HandleInbound | HandleViewChanged | HandleBroadcast | HandlePeriodicTick
  | HandleInitialView

definition messageType :: go_type where
  "messageType = \<lparr>ty_id = 0, ty_String = ''*gossip.Message'', ty_Pointer = True\<rparr>"
definition getViewType :: go_type where
  "getViewType = \<lparr>ty_id = 1, ty_String = ''*membership.GetView'', ty_Pointer = True\<rparr>"
definition viewType :: go_type where
  "viewType = \<lparr>ty_id = 2, ty_String = ''*membership.View'', ty_Pointer = True\<rparr>"
definition viewChangedType :: go_type where
  "viewChangedType = \<lparr>ty_id = 3, ty_String = ''membership.ViewChanged'', ty_Pointer = False\<rparr>"
definition triggerBroadcastType :: go_type where
  "triggerBroadcastType = \<lparr>ty_id = 4, ty_String = ''*gossip.TriggerBroadcast'', ty_Pointer = True\<rparr>"
definition broadcastAckType :: go_type where
  "broadcastAckType = \<lparr>ty_id = 5, ty_String = ''*gossip.BroadcastAck'', ty_Pointer = True\<rparr>"
definition periodicTickType :: go_type where
  "periodicTickType = \<lparr>ty_id = 6, ty_String = ''gossip.periodicTick'', ty_Pointer = False\<rparr>"

lemmas node_types = messageType_def getViewType_def viewType_def viewChangedType_def
  triggerBroadcastType_def broadcastAckType_def periodicTickType_def

primrec node_TypeOf :: "node_value \<Rightarrow> go_type" where
  "node_TypeOf (Message i b) = messageType"
| "node_TypeOf GetView = getViewType"
| "node_TypeOf (View hs) = viewType"
| "node_TypeOf (ViewChangedV v) = viewChangedType"
| "node_TypeOf (TriggerBroadcast b) = triggerBroadcastType"
| "node_TypeOf BroadcastAck = broadcastAckType"
| "node_TypeOf periodicTick = periodicTickType"

text \<open>No type of the example has a \<^verbatim>\<open>WireName\<close> method, so fresh values are not looked at.\<close>

definition node_env :: "node_value go_values" where
  "node_env = \<lparr>TypeOf = node_TypeOf, WireName = (\<lambda>_. None), Fresh = (\<lambda>_. GetView)\<rparr>"

lemma node_env_sel [simp]:
  "TypeOf node_env = node_TypeOf" "WireName node_env = (\<lambda>_. None)"
  "WireID node_env (Some t) = Some (hashString (ty_String t))"
  by (simp_all add: node_env_def WireID_def)

record membership_Protocol =
  contacts :: "Host list"
  mem_view :: "Host list"

text \<open>The gossip protocol's fields. \<open>periodicPayload\<close> is the caller's function of the time it is called
  at. \<open>delivered\<close> is the trace of the calls of \<^verbatim>\<open>onDeliver\<close>, each with the identifier of the message at
  hand; \<open>drawn\<close> counts the calls of \<^verbatim>\<open>rand.Uint64\<close>.\<close>

record gossip_Protocol =
  seen :: "64 word set"
  view :: "Host list"
  periodicInterval :: int
  periodicPayload :: "(int \<Rightarrow> byte list) option"
  delivered :: "(64 word \<times> byte list) list"
  drawn :: nat

record node_memory =
  mem :: membership_Protocol
  gos :: gossip_Protocol

type_synonym node_runtime = "(node_fn, node_value, node_memory) Runtime"

definition set_mem_view :: "Host list \<Rightarrow> node_runtime \<Rightarrow> node_runtime" where
  "set_mem_view hs r = r\<lparr>user := (user r)\<lparr>mem := (mem (user r))\<lparr>mem_view := hs\<rparr>\<rparr>\<rparr>"

section \<open>The protocol\<close>

definition membership_New :: "Host list \<Rightarrow> membership_Protocol" where
  "membership_New cs = \<lparr>contacts = cs, mem_view = []\<rparr>"

definition membership_impl :: "node_fn Protocol" where
  "membership_impl = \<lparr>impl_type = ''*membership.Protocol'', impl_Start = MemStart, impl_Init = MemInit,
     impl_OnSessionConnected = Some MemOnSessionConnected,
     impl_OnSessionDisconnected = Some MemOnSessionDisconnected, impl_OnSessionGivenUp = None,
     impl_OnPanic = None\<rparr>"

definition membership_Start :: "pid \<Rightarrow> node_runtime \<Rightarrow> (unit, node_runtime) outcome" where
  "membership_Start me r = RegisterRequestHandler node_env me (Some getViewType) HandleGetView r"

primrec connect_contacts :: "pid \<Rightarrow> Host list \<Rightarrow> node_runtime \<Rightarrow> (unit, node_runtime) outcome" where
  "connect_contacts me [] r = Return () r"
| "connect_contacts me (c # cs) r =
     and_then (logged (ctx_ConnectWithRetry me c r)) (\<lambda>_ r. connect_contacts me cs r)"

definition membership_Init :: "pid \<Rightarrow> node_runtime \<Rightarrow> (unit, node_runtime) outcome" where
  "membership_Init me r = connect_contacts me (contacts (mem (user r))) r"

text \<open>\<open>subs_order\<close> is the order in which the router ranges over the subscribers.\<close>

definition membership_OnSessionConnected :: "((pid \<times> node_fn closure) list \<Rightarrow> (pid \<times> node_fn closure) list)
    \<Rightarrow> pid \<Rightarrow> Host \<Rightarrow> node_runtime \<Rightarrow> (unit, node_runtime) outcome" where
  "membership_OnSessionConnected subs_order me h r =
     (if h \<in> set (mem_view (mem (user r))) then Return () r
      else PublishNotification node_env subs_order me (Some viewChangedType)
             (ViewChangedV \<lparr>vc_Added = h, vc_Removed = zeroHost, vc_HasAdded = True, vc_HasRemoved = False\<rparr>)
             (set_mem_view (mem_view (mem (user r)) @ [h]) r))"

definition membership_OnSessionDisconnected :: "((pid \<times> node_fn closure) list \<Rightarrow> (pid \<times> node_fn closure) list)
    \<Rightarrow> pid \<Rightarrow> Host \<Rightarrow> node_runtime \<Rightarrow> (unit, node_runtime) outcome" where
  "membership_OnSessionDisconnected subs_order me h r =
     (if h \<notin> set (mem_view (mem (user r))) then Return () r
      else PublishNotification node_env subs_order me (Some viewChangedType)
             (ViewChangedV \<lparr>vc_Added = zeroHost, vc_Removed = h, vc_HasAdded = False, vc_HasRemoved = True\<rparr>)
             (set_mem_view (removeAll h (mem_view (mem (user r)))) r))"

definition membership_handleGetView :: "(Host list \<Rightarrow> Host list) \<Rightarrow> nat \<Rightarrow> node_runtime
    \<Rightarrow> (unit, node_runtime) outcome" where
  "membership_handleGetView order rid r =
     responder_Reply rid (View (order (mem_view (mem (user r))))) r"

lemmas membership_defs [go_defs] =
  membership_Start_def membership_Init_def membership_OnSessionConnected_def
  membership_OnSessionDisconnected_def membership_handleGetView_def set_mem_view_def

section \<open>Code over the API\<close>

lemma api_code_connect_contacts: "api_code node_env r (connect_contacts me cs r)"
proof (induction cs arbitrary: r)
  case (Cons c cs)
  show ?case unfolding connect_contacts.simps
    by (rule api_code_and_then) (intro api_code_logged api_code_calls, rule Cons.IH)
qed simp

lemma api_code_membership:
  "api_code node_env r (membership_Start me r)" "api_code node_env r (membership_Init me r)"
  "api_code node_env r (membership_OnSessionConnected so me h r)"
  "api_code node_env r (membership_OnSessionDisconnected so me h r)"
  "api_code node_env r (membership_handleGetView order rid r)"
proof -
  have publish: "api_code node_env r (PublishNotification node_env so me N v (set_mem_view hs r))" for N v hs
    unfolding set_mem_view_def by (rule api_code_memory) (rule api_code_calls)
  show "api_code node_env r (membership_Start me r)" "api_code node_env r (membership_Init me r)"
    "api_code node_env r (membership_handleGetView order rid r)"
    by (simp_all add: membership_Start_def membership_Init_def membership_handleGetView_def
        api_code_calls api_code_connect_contacts)
  show "api_code node_env r (membership_OnSessionConnected so me h r)"
    "api_code node_env r (membership_OnSessionDisconnected so me h r)"
    by (simp_all add: membership_OnSessionConnected_def membership_OnSessionDisconnected_def publish)
qed

end
