(* ===== verification/Gossip.thy ===== *)
theory Gossip
  imports Membership
begin

text \<open>
  The gossip protocol of \<^verbatim>\<open>cmd/gossip/gossip\<close>: its envelope and codec, its handlers as user code over
  the API, and the node \<^verbatim>\<open>cmd/gossip/main.go\<close> builds from it and the membership protocol. The results
  of \<^verbatim>\<open>rand.Uint64\<close> are the argument \<open>rand\<close>. \<open>receive\<close> and \<open>originate\<close> are the decisions of the
  protocol alone, what it remembers and whom it sends to; the handlers refine them.
\<close>

section \<open>The codec\<close>

definition Codec_Marshal :: "64 word \<Rightarrow> byte list \<Rightarrow> byte list result" where
  "Codec_Marshal ident payload =
     (case WriteUint64 Buffer_Write ident [] of
        (Some err, _) \<Rightarrow> Inl (Errorf ''gossip codec: write id: %w'' [err])
      | (None, buf) \<Rightarrow>
          (case WriteBytes Buffer_Write payload buf of
             (Some err, _) \<Rightarrow> Inl (Errorf ''gossip codec: write payload: %w'' [err])
           | (None, buf) \<Rightarrow> Inr buf))"

definition Codec_Unmarshal :: "byte list \<Rightarrow> (64 word \<times> byte list) result" where
  "Codec_Unmarshal data =
     (case ReadUint64 Buffer_ReadFull data of
        (Inl err, _) \<Rightarrow> Inl (Errorf ''gossip codec: read id: %w'' [err])
      | (Inr ident, r) \<Rightarrow>
          (case ReadBytes Buffer_ReadFull r of
             (Inl err, _) \<Rightarrow> Inl (Errorf ''gossip codec: read payload: %w'' [err])
           | (Inr payload, r) \<Rightarrow> Inr (ident, payload)))"

text \<open>The same on values of the node; the adapter only passes envelopes to the first.\<close>

definition gossip_Marshal :: "node_value \<Rightarrow> byte list result" where
  "gossip_Marshal m =
     (case m of Message i b \<Rightarrow> Codec_Marshal i b | _ \<Rightarrow> Inl (Errorf ''protorun: codec mismatch: expected %T, got %T'' []))"

definition gossip_Unmarshal :: "byte list \<Rightarrow> node_value result" where
  "gossip_Unmarshal data = (case Codec_Unmarshal data of Inl e \<Rightarrow> Inl e | Inr (i, b) \<Rightarrow> Inr (Message i b))"

section \<open>Decisions\<close>

definition excluding :: "Host list \<Rightarrow> Host \<Rightarrow> Host list" where
  "excluding peers exclude = filter (\<lambda>h. h \<noteq> exclude) peers"

definition sameHost :: "Host \<Rightarrow> Host \<Rightarrow> bool" where
  "sameHost target h = (h = target)"

definition deliver :: "64 word \<Rightarrow> byte list \<Rightarrow> gossip_Protocol \<Rightarrow> gossip_Protocol" where
  "deliver ident payload g = g\<lparr>seen := insert ident (seen g), delivered := delivered g @ [(ident, payload)]\<rparr>"

definition receive :: "64 word \<Rightarrow> byte list \<Rightarrow> Host \<Rightarrow> gossip_Protocol \<Rightarrow> gossip_Protocol \<times> Host list" where
  "receive ident payload sender g =
     (if ident \<in> seen g then (g, []) else (deliver ident payload g, excluding (view g) sender))"

definition originate :: "64 word \<Rightarrow> byte list \<Rightarrow> gossip_Protocol \<Rightarrow> gossip_Protocol \<times> Host list" where
  "originate ident payload g = (deliver ident payload g, view g)"

definition change_view :: "ViewChanged \<Rightarrow> Host list \<Rightarrow> Host list" where
  "change_view ev hs =
     (if vc_HasAdded ev then (if \<exists>h \<in> set hs. sameHost (vc_Added ev) h then hs else hs @ [vc_Added ev])
      else if vc_HasRemoved ev then filter (\<lambda>h. \<not> sameHost (vc_Removed ev) h) hs
      else hs)"

section \<open>The protocol\<close>

definition gossip_New :: gossip_Protocol where
  "gossip_New = \<lparr>seen = {}, view = [], periodicInterval = 0, periodicPayload = None, delivered = [], drawn = 0\<rparr>"

definition EnablePeriodic :: "int \<Rightarrow> (int \<Rightarrow> byte list) option \<Rightarrow> gossip_Protocol \<Rightarrow> gossip_Protocol" where
  "EnablePeriodic interval payload g =
     (if interval \<le> 0 \<or> Option.is_none payload then g else g\<lparr>periodicInterval := interval, periodicPayload := payload\<rparr>)"

definition periodicEnabled :: "gossip_Protocol \<Rightarrow> bool" where
  "periodicEnabled g \<longleftrightarrow> periodicInterval g > 0 \<and> \<not> Option.is_none (periodicPayload g)"

definition gossip_impl :: "node_fn Protocol" where
  "gossip_impl = \<lparr>impl_type = ''*gossip.Protocol'', impl_Start = GossipStart, impl_Init = GossipInit,
     impl_OnSessionConnected = None, impl_OnSessionDisconnected = None, impl_OnSessionGivenUp = None,
     impl_OnPanic = None\<rparr>"

definition periodicTimer :: "node_value Timer" where
  "periodicTimer = \<lparr>TimerID = 1, timer_value = periodicTick\<rparr>"

definition set_gos :: "gossip_Protocol \<Rightarrow> node_runtime \<Rightarrow> node_runtime" where
  "set_gos g r = r\<lparr>user := (user r)\<lparr>gos := g\<rparr>\<rparr>"

definition gossip_Start :: "pid \<Rightarrow> node_runtime \<Rightarrow> (unit, node_runtime) outcome" where
  "gossip_Start me r =
     and_then (RegisterCodec node_env me (Some messageType) gossip_Marshal gossip_Unmarshal r) (\<lambda>_ r.
     and_then (RegisterHandler node_env me (Some messageType) HandleInbound r) (\<lambda>_ r.
     and_then (SubscribeNotification node_env me (Some viewChangedType) HandleViewChanged r) (\<lambda>_ r.
     and_then (RegisterRequestHandler node_env me (Some triggerBroadcastType) HandleBroadcast r) (\<lambda>_ r.
       Return () (if periodicEnabled (gos (user r))
                  then ctx_RegisterTimerHandler me periodicTimer HandlePeriodicTick r else r)))))"

definition gossip_Init :: "pid \<Rightarrow> node_runtime \<Rightarrow> (unit, node_runtime) outcome" where
  "gossip_Init me r =
     and_then (SendRequest node_env me (Some getViewType) viewType GetView HandleInitialView r) (\<lambda>_ r.
       Return () (if periodicEnabled (gos (user r))
                  then ctx_SetupPeriodicTimer me periodicTimer (periodicInterval (gos (user r))) r else r))"

primrec gossip_fanout :: "pid \<Rightarrow> node_value \<Rightarrow> Host list \<Rightarrow> node_runtime \<Rightarrow> (unit, node_runtime) outcome" where
  "gossip_fanout me msg [] r = Return () r"
| "gossip_fanout me msg (peer # peers) r =
     and_then (logged (ctx_Send node_env me msg peer r)) (\<lambda>_ r. gossip_fanout me msg peers r)"

definition disseminate :: "(nat \<Rightarrow> 64 word) \<Rightarrow> pid \<Rightarrow> byte list \<Rightarrow> node_runtime \<Rightarrow> (unit, node_runtime) outcome" where
  "disseminate rand me payload r =
     (let g = gos (user r);
          ident = rand (drawn g);
          g1 = deliver ident payload (g\<lparr>drawn := drawn g + 1\<rparr>)
      in gossip_fanout me (Message ident payload) (view g1) (set_gos g1 r))"

definition handleBroadcast :: "(nat \<Rightarrow> 64 word) \<Rightarrow> pid \<Rightarrow> byte list \<Rightarrow> nat \<Rightarrow> node_runtime
    \<Rightarrow> (unit, node_runtime) outcome" where
  "handleBroadcast rand me payload rid r =
     and_then (disseminate rand me payload r) (\<lambda>_ r. responder_Reply rid BroadcastAck r)"

definition handlePeriodicTick :: "(nat \<Rightarrow> 64 word) \<Rightarrow> pid \<Rightarrow> node_runtime \<Rightarrow> (unit, node_runtime) outcome" where
  "handlePeriodicTick rand me r =
     (case periodicPayload (gos (user r)) of
        None \<Rightarrow> Panic ''invalid memory address or nil pointer dereference'' r
      | Some payload \<Rightarrow> disseminate rand me (payload (rt_now r)) r)"

definition handleInbound :: "pid \<Rightarrow> 64 word \<Rightarrow> byte list \<Rightarrow> Host \<Rightarrow> node_runtime \<Rightarrow> (unit, node_runtime) outcome" where
  "handleInbound me ident payload sender r =
     (let g = gos (user r) in
      if ident \<in> seen g then Return () r
      else let g1 = deliver ident payload g
           in gossip_fanout me (Message ident payload) (excluding (view g1) sender) (set_gos g1 r))"

definition handleInitialView :: "Host list \<Rightarrow> go_error option \<Rightarrow> node_runtime \<Rightarrow> (unit, node_runtime) outcome" where
  "handleInitialView peers err r =
     (case err of
        Some e \<Rightarrow> Return () r
      | None \<Rightarrow> Return () (set_gos ((gos (user r))\<lparr>view := peers\<rparr>) r))"

definition handleViewChanged :: "ViewChanged \<Rightarrow> node_runtime \<Rightarrow> (unit, node_runtime) outcome" where
  "handleViewChanged ev r =
     Return () (set_gos ((gos (user r))\<lparr>view := change_view ev (view (gos (user r)))\<rparr>) r)"

section \<open>The node\<close>

text \<open>The two protocols of the node are registered in this order.\<close>

abbreviation (input) MEM :: pid where "MEM \<equiv> 0"
abbreviation (input) GOS :: pid where "GOS \<equiv> 1"

text \<open>What is left to chance: the results of the random source and the orders of the two maps the code
  ranges over.\<close>

record chance =
  rand :: "nat \<Rightarrow> 64 word"
  view_order :: "Host list \<Rightarrow> Host list"
  subs_order :: "(pid \<times> node_fn closure) list \<Rightarrow> (pid \<times> node_fn closure) list"

definition node_run :: "chance \<Rightarrow> (node_fn, node_value, node_memory) user_code" where
  "node_run ch f arg r =
     (case f of
        MemStart \<Rightarrow> membership_Start MEM r
      | MemInit \<Rightarrow> membership_Init MEM r
      | MemOnSessionConnected \<Rightarrow>
          (case arg of HostArg h \<Rightarrow> membership_OnSessionConnected (subs_order ch) MEM h r | _ \<Rightarrow> Return () r)
      | MemOnSessionDisconnected \<Rightarrow>
          (case arg of HostArg h \<Rightarrow> membership_OnSessionDisconnected (subs_order ch) MEM h r | _ \<Rightarrow> Return () r)
      | HandleGetView \<Rightarrow>
          (case arg of RequestArg _ rid \<Rightarrow> membership_handleGetView (view_order ch) rid r | _ \<Rightarrow> Return () r)
      | GossipStart \<Rightarrow> gossip_Start GOS r
      | GossipInit \<Rightarrow> gossip_Init GOS r
      | HandleInbound \<Rightarrow>
          (case arg of MessageArg (Message i b) sender \<Rightarrow> handleInbound GOS i b sender r | _ \<Rightarrow> Return () r)
      | HandleViewChanged \<Rightarrow>
          (case arg of NotificationArg (ViewChangedV ev) \<Rightarrow> handleViewChanged ev r | _ \<Rightarrow> Return () r)
      | HandleBroadcast \<Rightarrow>
          (case arg of RequestArg (TriggerBroadcast b) rid \<Rightarrow> handleBroadcast (rand ch) GOS b rid r | _ \<Rightarrow> Return () r)
      | HandlePeriodicTick \<Rightarrow> handlePeriodicTick (rand ch) GOS r
      | HandleInitialView \<Rightarrow>
          (case arg of
             ReplyArg (Some (View hs)) err \<Rightarrow> handleInitialView hs err r
           | ReplyArg _ err \<Rightarrow> handleInitialView [] err r
           | _ \<Rightarrow> Return () r))"

definition gossip_node :: "Host \<Rightarrow> Host list \<Rightarrow> bool \<Rightarrow> node_runtime" where
  "gossip_node myself cs pd =
     (let heartbeat = bytes_of_string (''hello from '' @ Host_String myself);
          r = New myself [WithTCPTransport]
                \<lparr>mem = membership_New cs,
                 gos = EnablePeriodic (5 * second) (Some (\<lambda>_. heartbeat)) gossip_New\<rparr> pd
      in Register gossip_impl (Register membership_impl r))"

text \<open>The flag \<^verbatim>\<open>-contact-port\<close>, which may be repeated: each use appends one port, a malformed one is an error and
  appends nothing.\<close>

definition portList_Set :: "string \<Rightarrow> int list \<Rightarrow> go_error option \<times> int list" where
  "portList_Set s p = (case Atoi s of Inl err \<Rightarrow> (Some err, p) | Inr port \<Rightarrow> (None, p @ [port]))"

fun spaced :: "string list \<Rightarrow> string" where
  "spaced [] = []"
| "spaced [x] = x"
| "spaced (x # y # zs) = x @ '' '' @ spaced (y # zs)"

definition portList_String :: "int list \<Rightarrow> string" where
  "portList_String p = ''['' @ spaced (map format_d p) @ '']''"

lemma portList_Set_printed:
  "- (2 ^ 63) \<le> i \<Longrightarrow> i < 2 ^ 63 \<Longrightarrow> portList_Set (format_d i) p = (None, p @ [i])"
  by (simp add: portList_Set_def Atoi_format_d)

text \<open>\<^verbatim>\<open>main\<close> up to \<^verbatim>\<open>Run\<close>, with the values of the flags; the exit code when a flag is missing.\<close>

definition gossip_main :: "string \<Rightarrow> int \<Rightarrow> string \<Rightarrow> int list \<Rightarrow> bool \<Rightarrow> int + node_runtime" where
  "gossip_main selfIP selfPort contactIP contactPorts pd =
     (if selfPort = 0 then Inl 2
      else Inr (gossip_node (NewHost selfPort selfIP) (map (\<lambda>p. NewHost p contactIP) contactPorts) pd))"

lemmas gossip_defs [go_defs] =
  gossip_Start_def gossip_Init_def disseminate_def handleBroadcast_def handlePeriodicTick_def
  handleInbound_def handleInitialView_def handleViewChanged_def set_gos_def

section \<open>It meets the contract of user code\<close>

lemma api_code_fanout: "api_code node_env r (gossip_fanout me msg peers r)"
proof (induction peers arbitrary: r)
  case (Cons peer peers)
  show ?case unfolding gossip_fanout.simps
    by (rule api_code_and_then) (intro api_code_logged api_code_calls, rule Cons.IH)
qed simp

lemma api_code_set_gos:
  "api_code node_env (set_gos g r) x \<Longrightarrow> api_code node_env r x"
  "api_code node_env r (Return () (set_gos g r))"
  unfolding set_gos_def by (rule api_code_memory, assumption) (rule api_code_memory, rule api_code_simps)

lemma api_code_disseminate: "api_code node_env r (disseminate rnd me payload r)"
  unfolding disseminate_def Let_def by (rule api_code_set_gos(1)) (rule api_code_fanout)

lemma api_code_gossip:
  "api_code node_env r (gossip_Start me r)" "api_code node_env r (gossip_Init me r)"
  "api_code node_env r (handleBroadcast rnd me payload rid r)" "api_code node_env r (handlePeriodicTick rnd me r)"
  "api_code node_env r (handleInbound me ident payload sender r)" "api_code node_env r (handleInitialView hs err r)"
  "api_code node_env r (handleViewChanged ev r)"
proof -
  have timer: "api_code node_env r (Return () (if c then ctx_RegisterTimerHandler me tm fn r else r))"
    "api_code node_env r (Return () (if c then ctx_SetupPeriodicTimer me tm d r else r))" for c tm fn d and r :: node_runtime
    using api_code_timers by auto
  show "api_code node_env r (gossip_Start me r)" "api_code node_env r (gossip_Init me r)"
    unfolding gossip_Start_def gossip_Init_def SendRequest_def
    by (intro api_code_and_then api_code_calls timer)+
  show "api_code node_env r (handleBroadcast rnd me payload rid r)"
    unfolding handleBroadcast_def by (intro api_code_and_then api_code_calls api_code_disseminate)
  show "api_code node_env r (handlePeriodicTick rnd me r)"
    by (simp add: handlePeriodicTick_def api_code_disseminate split: option.split)
  show "api_code node_env r (handleInbound me ident payload sender r)"
    unfolding handleInbound_def Let_def using api_code_set_gos(1) [OF api_code_fanout] by simp
  show "api_code node_env r (handleInitialView hs err r)" "api_code node_env r (handleViewChanged ev r)"
    by (simp_all add: handleInitialView_def handleViewChanged_def api_code_set_gos split: option.split)
qed

lemma api_code_node: "api_code node_env r (node_run ch f arg r)"
  by (cases f) (simp_all add: node_run_def api_code_membership api_code_gossip
      split: call_arg.split node_value.split option.split)

interpretation gossip: hosted_protocols node_env "node_run ch" for ch
  using api_code_node by unfold_locales (simp add: api_code_def)

section \<open>The codec meets its contract\<close>

lemma Codec_Marshal_eq:
  "Codec_Marshal i b = Inr (le_put 8 i @ le_put 4 (word_of_nat (length b) :: 32 word) @ b)"
  by (simp add: Codec_Marshal_def)

lemma Codec_Unmarshal_eq:
  "length b < 2 ^ 32 \<Longrightarrow>
   Codec_Unmarshal (le_put 8 i @ le_put 4 (word_of_nat (length b) :: 32 word) @ b @ rest) = Inr (i, b)"
  by (simp add: Codec_Unmarshal_def codec_simps)

interpretation gossip_codec: message_codec "\<lambda>(i, b). Codec_Marshal i b" Codec_Unmarshal "\<lambda>(i, b). length b < 2 ^ 32"
  using Codec_Unmarshal_eq [where rest = "[]"] by unfold_locales (auto simp: Codec_Marshal_eq)

end
