(* ===== verification/Gossip_Network.thy ===== *)
theory Gossip_Network
  imports Gossip "HOL-Library.Multiset"
begin

text \<open>
  Eager push over a network of gossip nodes whose views do not change and whose sessions stay up: a
  state is the protocol state of every node and the bag of envelopes in flight, each with its sender and
  its receiver. Nodes take the decisions \<open>receive\<close> and \<open>originate\<close> of the protocol; envelopes arrive in
  any order. The sender a node is told is the address of the connection, which need not be the address
  the peer is known by; when it is in the node's view, it is the peer that sent the envelope.
\<close>

record envelope =
  env_sender :: Host
  env_receiver :: Host
  env_ID :: "64 word"
  env_Payload :: "byte list"

record gossip_net =
  node_at :: "Host \<Rightarrow> gossip_Protocol"
  flight :: "envelope multiset"

definition sends :: "Host \<Rightarrow> 64 word \<Rightarrow> byte list \<Rightarrow> Host list \<Rightarrow> envelope multiset" where
  "sends v i b peers = mset (map (\<lambda>w. \<lparr>env_sender = v, env_receiver = w, env_ID = i, env_Payload = b\<rparr>) peers)"

definition net_receive :: "envelope \<Rightarrow> Host \<Rightarrow> gossip_net \<Rightarrow> gossip_net" where
  "net_receive e addr N =
     (let v = env_receiver e;
          (g, peers) = receive (env_ID e) (env_Payload e) addr (node_at N v)
      in \<lparr>node_at = (node_at N)(v := g),
          flight = (flight N - {#e#}) + sends v (env_ID e) (env_Payload e) peers\<rparr>)"

definition net_originate :: "Host \<Rightarrow> 64 word \<Rightarrow> byte list \<Rightarrow> gossip_net \<Rightarrow> gossip_net" where
  "net_originate v i b N =
     (let (g, peers) = originate i b (node_at N v)
      in \<lparr>node_at = (node_at N)(v := g), flight = flight N + sends v i b peers\<rparr>)"

text \<open>The random identifier of a new broadcast has not been used: a collision of 64-bit draws is what
  the code rules out in a comment.\<close>

definition fresh_ID :: "64 word \<Rightarrow> gossip_net \<Rightarrow> bool" where
  "fresh_ID i N \<longleftrightarrow> (\<forall>v. i \<notin> seen (node_at N v)) \<and> (\<forall>e \<in># flight N. env_ID e \<noteq> i)"

inductive arrival :: "gossip_net \<Rightarrow> gossip_net \<Rightarrow> bool" where
  "e \<in># flight N \<Longrightarrow> (addr \<in> set (view (node_at N (env_receiver e))) \<longrightarrow> addr = env_sender e) \<Longrightarrow>
   arrival N (net_receive e addr N)"

inductive net_step :: "gossip_net \<Rightarrow> gossip_net \<Rightarrow> bool" where
  arrives: "arrival N N' \<Longrightarrow> net_step N N'"
| broadcasts: "fresh_ID i N \<Longrightarrow> net_step N (net_originate v i b N)"

abbreviation net_steps :: "gossip_net \<Rightarrow> gossip_net \<Rightarrow> bool" where
  "net_steps \<equiv> net_step\<^sup>*\<^sup>*"

definition net_initial :: "gossip_net \<Rightarrow> bool" where
  "net_initial N \<longleftrightarrow> flight N = {#} \<and> (\<forall>v. seen (node_at N v) = {} \<and> delivered (node_at N v) = [])"

text \<open>The envelopes that reach \<open>v\<close> when all of them do: \<open>v\<close> is reachable along the views.\<close>

definition knows :: "gossip_net \<Rightarrow> Host \<Rightarrow> Host \<Rightarrow> bool" where
  "knows N u v \<longleftrightarrow> v \<in> set (view (node_at N u))"

definition deliveries :: "64 word \<Rightarrow> gossip_Protocol \<Rightarrow> (64 word \<times> byte list) list" where
  "deliveries i g = filter (\<lambda>(j, _). j = i) (delivered g)"

section \<open>The invariant\<close>

text \<open>For one identifier: a node delivered it once if it has seen it and not otherwise, always with the
  payload \<open>b\<close>; what is in flight comes from a node that has seen it, to a peer of its view, with that
  payload; and a peer of a node that has seen it has seen it too or will be told.\<close>

definition spread :: "64 word \<Rightarrow> byte list \<Rightarrow> gossip_net \<Rightarrow> bool" where
  "spread i b N \<longleftrightarrow>
     (\<forall>v. deliveries i (node_at N v) = (if i \<in> seen (node_at N v) then [(i, b)] else [])) \<and>
     (\<forall>e \<in># flight N. env_ID e = i \<longrightarrow>
        env_Payload e = b \<and> i \<in> seen (node_at N (env_sender e)) \<and> knows N (env_sender e) (env_receiver e)) \<and>
     (\<forall>v w. i \<in> seen (node_at N v) \<longrightarrow> knows N v w \<longrightarrow> i \<in> seen (node_at N w) \<or>
        (\<exists>e \<in># flight N. env_ID e = i \<and> env_receiver e = w))"

lemma receive_simps:
  "seen (fst (receive i b addr g)) = insert i (seen g)"
  "view (fst (receive i b addr g)) = view g"
  "deliveries j (fst (receive i b addr g)) = deliveries j g @ (if j = i \<and> i \<notin> seen g then [(i, b)] else [])"
  "snd (receive i b addr g) = (if i \<in> seen g then [] else excluding (view g) addr)"
  by (auto simp: receive_def deliver_def deliveries_def)

lemma originate_simps:
  "seen (fst (originate i b g)) = insert i (seen g)" "view (fst (originate i b g)) = view g"
  "deliveries j (fst (originate i b g)) = deliveries j g @ (if j = i then [(i, b)] else [])"
  "snd (originate i b g) = view g"
  by (auto simp: originate_def deliver_def deliveries_def)

lemma net_receive_sel:
  "node_at (net_receive e addr N) =
     (node_at N)(env_receiver e := fst (receive (env_ID e) (env_Payload e) addr (node_at N (env_receiver e))))"
  "flight (net_receive e addr N) = (flight N - {#e#}) +
     sends (env_receiver e) (env_ID e) (env_Payload e)
       (snd (receive (env_ID e) (env_Payload e) addr (node_at N (env_receiver e))))"
  by (simp_all add: net_receive_def Let_def split: prod.split)

lemma net_originate_sel:
  "node_at (net_originate v i b N) = (node_at N)(v := fst (originate i b (node_at N v)))"
  "flight (net_originate v i b N) = flight N + sends v i b (snd (originate i b (node_at N v)))"
  by (simp_all add: net_originate_def split: prod.split)

lemma seen_net:
  "seen (node_at (net_receive e addr N) v) =
     (if v = env_receiver e then insert (env_ID e) (seen (node_at N v)) else seen (node_at N v))"
  "seen (node_at (net_originate u i b N) v) = (if v = u then insert i (seen (node_at N v)) else seen (node_at N v))"
  by (simp_all add: net_receive_sel net_originate_sel receive_simps originate_simps)

lemma view_net [simp]:
  "view (node_at (net_receive e addr N) v) = view (node_at N v)"
  "view (node_at (net_originate u i b N) v) = view (node_at N v)"
  by (simp_all add: net_receive_sel net_originate_sel receive_simps originate_simps)

lemma knows_net [simp]:
  "knows (net_receive e addr N) = knows N" "knows (net_originate u i b N) = knows N"
  by (auto simp: knows_def fun_eq_iff)

lemma in_sends:
  "e \<in># sends v i b peers \<longleftrightarrow> env_sender e = v \<and> env_receiver e \<in> set peers \<and> env_ID e = i \<and> env_Payload e = b"
  by (cases e) (auto simp: sends_def)

lemma in_flight_receive:
  "f \<in># flight (net_receive e addr N) \<Longrightarrow>
     f \<in># flight N \<or> env_ID f = env_ID e \<and> env_Payload f = env_Payload e \<and> env_sender f = env_receiver e \<and>
       knows N (env_receiver e) (env_receiver f)"
  by (auto simp: net_receive_sel in_sends receive_simps excluding_def knows_def dest: in_diffD split: if_splits)

lemma stays_in_flight: "f \<in># flight N \<Longrightarrow> f \<noteq> e \<Longrightarrow> f \<in># flight (net_receive e addr N)"
  by (simp add: net_receive_sel in_diff_count)

lemma forwarded:
  "i = env_ID e \<Longrightarrow> i \<notin> seen (node_at N (env_receiver e)) \<Longrightarrow> knows N (env_receiver e) w \<Longrightarrow> w \<noteq> addr \<Longrightarrow>
   \<exists>f \<in># flight (net_receive e addr N). env_ID f = i \<and> env_receiver f = w"
  by (rule bexI [of _ "\<lparr>env_sender = env_receiver e, env_receiver = w, env_ID = i, env_Payload = env_Payload e\<rparr>"])
     (simp_all add: net_receive_sel in_sends receive_simps excluding_def knows_def)

lemma spread_receive:
  assumes N: "spread i b N" and e: "e \<in># flight N"
    and addr: "addr \<in> set (view (node_at N (env_receiver e))) \<longrightarrow> addr = env_sender e"
  shows "spread i b (net_receive e addr N)"
proof -
  let ?N = "net_receive e addr N"
  have once: "deliveries i (node_at N v) = (if i \<in> seen (node_at N v) then [(i, b)] else [])" for v
    using N by (simp add: spread_def)
  have src: "env_Payload f = b \<and> i \<in> seen (node_at N (env_sender f)) \<and> knows N (env_sender f) (env_receiver f)"
    if "f \<in># flight N" "env_ID f = i" for f
    using N that by (simp add: spread_def)
  have told: "i \<in> seen (node_at N w) \<or> (\<exists>f \<in># flight N. env_ID f = i \<and> env_receiver f = w)"
    if "i \<in> seen (node_at N v)" "knows N v w" for v w
    using N that by (simp add: spread_def)
  have 1: "deliveries i (node_at ?N v) = (if i \<in> seen (node_at ?N v) then [(i, b)] else [])" for v
    using once [of v] src [OF e] by (auto simp: net_receive_sel receive_simps)
  have 2: "env_Payload f = b \<and> i \<in> seen (node_at ?N (env_sender f)) \<and> knows N (env_sender f) (env_receiver f)"
    if "f \<in># flight ?N" "env_ID f = i" for f
    using in_flight_receive [OF that(1)] src [of f] src [OF e] that(2) by (auto simp: seen_net)
  have 3: "i \<in> seen (node_at ?N w) \<or> (\<exists>f \<in># flight ?N. env_ID f = i \<and> env_receiver f = w)"
    if "i \<in> seen (node_at ?N v)" "knows N v w" for v w
  proof (cases "i \<in> seen (node_at N v)")
    case True
    from told [OF True that(2)] show ?thesis
    proof
      assume "\<exists>f \<in># flight N. env_ID f = i \<and> env_receiver f = w"
      then obtain f where f: "f \<in># flight N" "env_ID f = i" "env_receiver f = w" by blast
      then show ?thesis using stays_in_flight [OF f(1), of e addr] by (cases "f = e") (auto simp: seen_net)
    qed (auto simp: seen_net)
  next
    case False
    with that have v: "v = env_receiver e" "i = env_ID e" by (auto simp: seen_net split: if_splits)
    show ?thesis
    proof (cases "w = addr")
      case True
      then have "w = env_sender e" using addr that(2) v by (simp add: knows_def)
      then show ?thesis using src [OF e] v by (simp add: seen_net)
    next
      case False
      then show ?thesis using forwarded [OF v(2)] v \<open>i \<notin> seen (node_at N v)\<close> that(2) by blast
    qed
  qed
  show ?thesis unfolding spread_def knows_net using 1 2 3 by simp
qed

lemma spread_cong:
  assumes "\<And>v. deliveries i (node_at M v) = deliveries i (node_at N v)"
    and "\<And>v. i \<in> seen (node_at M v) \<longleftrightarrow> i \<in> seen (node_at N v)"
    and "\<And>f. env_ID f = i \<Longrightarrow> f \<in># flight M \<longleftrightarrow> f \<in># flight N"
    and "\<And>u v. knows M u v = knows N u v"
  shows "spread i b M = spread i b N"
proof -
  have "(\<exists>e \<in># flight M. env_ID e = i \<and> env_receiver e = w) \<longleftrightarrow> (\<exists>e \<in># flight N. env_ID e = i \<and> env_receiver e = w)" for w
    using assms(3) by blast
  moreover have "(\<forall>e \<in># flight M. env_ID e = i \<longrightarrow> P e) \<longleftrightarrow> (\<forall>e \<in># flight N. env_ID e = i \<longrightarrow> P e)" for P
    using assms(3) by blast
  ultimately show ?thesis unfolding spread_def assms(1,2,4) by presburger
qed

lemma spread_fresh: "spread i b N \<Longrightarrow> fresh_ID i N \<Longrightarrow> spread i b' N"
  by (simp add: spread_def fresh_ID_def)

lemma spread_originate:
  assumes N: "spread i b N" and j: "fresh_ID j N"
  shows "spread i (if i = j then b' else b) (net_originate v j b' N)"
proof (cases "i = j")
  case True
  then have un: "i \<notin> seen (node_at N u)" "f \<in># flight N \<Longrightarrow> env_ID f \<noteq> i" for u f
    using j by (auto simp: fresh_ID_def)
  let ?N = "net_originate v i b' N"
  have "deliveries i (node_at N u) = []" for u using N un(1) [of u] by (simp add: spread_def)
  then have 1: "deliveries i (node_at ?N u) = (if i \<in> seen (node_at ?N u) then [(i, b')] else [])" for u
    using un(1) by (simp add: net_originate_sel originate_simps)
  have fl: "f \<in># flight ?N \<longleftrightarrow> f \<in># flight N \<or>
      env_sender f = v \<and> knows N v (env_receiver f) \<and> env_ID f = i \<and> env_Payload f = b'" for f
    by (auto simp: net_originate_sel in_sends knows_def originate_simps)
  then have 2: "env_Payload f = b' \<and> i \<in> seen (node_at ?N (env_sender f)) \<and> knows N (env_sender f) (env_receiver f)"
    if "f \<in># flight ?N" "env_ID f = i" for f
    using that un(2) [of f] by (auto simp: seen_net)
  have 3: "\<exists>f \<in># flight ?N. env_ID f = i \<and> env_receiver f = w"
    if "i \<in> seen (node_at ?N u)" "knows N u w" for u w
    using that un(1) [of u]
    by (intro bexI [of _ "\<lparr>env_sender = v, env_receiver = w, env_ID = i, env_Payload = b'\<rparr>"])
       (simp_all add: fl seen_net split: if_splits)
  show ?thesis using True 1 2 3 by (simp add: spread_def)
next
  case False
  then have "spread i b (net_originate v j b' N) = spread i b N"
    by (intro spread_cong) (auto simp: net_originate_sel originate_simps in_sends knows_def)
  then show ?thesis using N False by simp
qed

lemma spread_step: "net_step N N' \<Longrightarrow> \<exists>b. spread i b N \<Longrightarrow> \<exists>b. spread i b N'"
  by (auto elim!: net_step.cases arrival.cases dest: spread_receive spread_originate)

lemma spread_reachable: "net_steps N0 N \<Longrightarrow> net_initial N0 \<Longrightarrow> \<exists>b. spread i b N"
proof (induction rule: rtranclp_induct)
  case base
  then show ?case by (simp add: spread_def net_initial_def deliveries_def)
next
  case (step M N)
  then show ?case using spread_step by blast
qed

lemma knows_steps: "net_steps N0 N \<Longrightarrow> knows N = knows N0"
  by (induction rule: rtranclp_induct) (auto elim!: net_step.cases arrival.cases)

section \<open>Work left\<close>

text \<open>The envelopes in flight and, for every node and every identifier in flight it has not seen, the
  envelopes it may still send.\<close>

definition work :: "Host set \<Rightarrow> 64 word set \<Rightarrow> gossip_net \<Rightarrow> nat" where
  "work V I N = size (flight N) + (\<Sum>v\<in>V. card (I - seen (node_at N v)) * length (view (node_at N v)))"

definition confined :: "Host set \<Rightarrow> 64 word set \<Rightarrow> gossip_net \<Rightarrow> bool" where
  "confined V I N \<longleftrightarrow> finite V \<and> finite I \<and> (\<forall>e \<in># flight N. env_receiver e \<in> V \<and> env_ID e \<in> I) \<and>
     (\<forall>v \<in> V. set (view (node_at N v)) \<subseteq> V)"

lemma confined_arrival: "arrival N N' \<Longrightarrow> confined V I N \<Longrightarrow> confined V I N'"
proof (induction rule: arrival.induct)
  case (1 e N addr)
  then show ?case
    unfolding confined_def by (auto simp: knows_def dest!: in_flight_receive) blast+
qed

lemma work_arrival:
  assumes "arrival N N'" and "confined V I N"
  shows "work V I N' < work V I N"
  using assms
proof (induction rule: arrival.induct)
  case (1 e N addr)
  let ?v = "env_receiver e" and ?i = "env_ID e" and ?N = "net_receive e addr N"
  let ?w = "\<lambda>N v. card (I - seen (node_at N v)) * length (view (node_at N v))"
  have v: "?v \<in> V" "finite V" and i: "?i \<in> I" "finite I" using 1 by (auto simp: confined_def)
  have other: "(\<Sum>v\<in>V - {?v}. ?w ?N v) = (\<Sum>v\<in>V - {?v}. ?w N v)"
    by (rule sum.cong) (simp_all add: seen_net)
  have split: "(\<Sum>v\<in>V. ?w M v) = ?w M ?v + (\<Sum>v\<in>V - {?v}. ?w M v)" for M
    using v by (rule sum.remove [rotated])
  have "?w ?N ?v + length (snd (receive ?i (env_Payload e) addr (node_at N ?v))) \<le> ?w N ?v"
  proof (cases "?i \<in> seen (node_at N ?v)")
    case True
    then show ?thesis by (simp add: seen_net receive_simps insert_absorb)
  next
    case False
    have "I - seen (node_at N ?v) = insert ?i (I - insert ?i (seen (node_at N ?v)))" using False i by blast
    then have "card (I - seen (node_at N ?v)) = Suc (card (I - insert ?i (seen (node_at N ?v))))"
      using i(2) by (metis Diff_iff card_insert_disjoint finite_Diff insertI1)
    then show ?thesis using False by (simp add: seen_net receive_simps excluding_def)
  qed
  moreover have "Suc (size (flight N - {#e#})) = size (flight N)" using 1 by (simp add: size_Suc_Diff1)
  ultimately show ?case unfolding work_def split other
    by (simp add: net_receive_sel sends_def)
qed

lemma work_arrivals: "(arrival ^^ k) N N' \<Longrightarrow> confined V I N \<Longrightarrow> k + work V I N' \<le> work V I N"
proof (induction k arbitrary: N')
  case (Suc k)
  then obtain M where M: "(arrival ^^ k) N M" "arrival M N'" by auto
  have "confined V I M" using M(1) Suc.prems(2)
    by (induction k arbitrary: M) (auto dest: confined_arrival)
  then show ?case using Suc.IH [OF M(1) Suc.prems(2)] work_arrival [OF M(2)] by fastforce
qed simp

section \<open>Properties\<close>

text \<open>C9. Gossip reaches every node exactly once: in any execution from a network in which nothing was
  broadcast yet, with any interleaving of broadcasts and arrivals, no node ever delivers an identifier
  twice, and once no envelope of a broadcast that \<open>u\<close> has seen is in flight, every node reachable from
  \<open>u\<close> along the views has delivered it exactly once, all of them with the same payload.\<close>

theorem gossip_reaches_everyone:
  assumes "net_steps N0 N" and "net_initial N0"
  shows "(\<forall>v. length (deliveries i (node_at N v)) \<le> 1) \<and>
    (i \<in> seen (node_at N u) \<longrightarrow> (\<forall>e \<in># flight N. env_ID e \<noteq> i) \<longrightarrow>
       (\<exists>b. \<forall>v. (knows N0)\<^sup>*\<^sup>* u v \<longrightarrow> deliveries i (node_at N v) = [(i, b)]))"
proof -
  obtain b where b: "spread i b N" using spread_reachable [OF assms] ..
  then have once: "deliveries i (node_at N v) = (if i \<in> seen (node_at N v) then [(i, b)] else [])" for v
    by (simp add: spread_def)
  have "i \<in> seen (node_at N v)"
    if "(knows N0)\<^sup>*\<^sup>* u v" "i \<in> seen (node_at N u)" "\<forall>e \<in># flight N. env_ID e \<noteq> i" for v
    using that
  proof (induction rule: rtranclp_induct)
    case (step v w)
    then show ?case using b knows_steps [OF assms(1)] unfolding spread_def by metis
  qed
  then show ?thesis using once by auto
qed

text \<open>C23. Gossip comes to rest: among finitely many nodes whose views stay among them, the number of
  arrivals before the network is silent is bounded by what is in flight plus, for each node, the size of
  its view for every identifier in flight it has not seen; and as long as anything is in flight, an
  arrival is possible.\<close>

theorem gossip_quiesces:
  assumes "finite V" and "\<forall>e \<in># flight N. env_receiver e \<in> V"
    and "\<forall>v \<in> V. set (view (node_at N v)) \<subseteq> V" and "(arrival ^^ k) N N'"
  shows "k + size (flight N') \<le> size (flight N) +
           (\<Sum>v\<in>V. card (env_ID ` set_mset (flight N) - seen (node_at N v)) * length (view (node_at N v))) \<and>
         (flight N' = {#} \<or> (\<exists>N''. arrival N' N''))"
proof -
  have "confined V (env_ID ` set_mset (flight N)) N" using assms(1-3) by (simp add: confined_def)
  from work_arrivals [OF assms(4) this] have "k + size (flight N') \<le> size (flight N) +
      (\<Sum>v\<in>V. card (env_ID ` set_mset (flight N) - seen (node_at N v)) * length (view (node_at N v)))"
    by (simp add: work_def)
  moreover have "arrival N' (net_receive e (env_sender e) N')" if "e \<in># flight N'" for e
    using that by (intro arrival.intros) simp_all
  ultimately show ?thesis by (metis multiset_nonemptyE)
qed

text \<open>Two nodes that know each other, one broadcast and its arrival.\<close>

definition two_nodes :: gossip_net where
  "two_nodes = \<lparr>node_at = (\<lambda>h. gossip_New\<lparr>view := if h = NewHost 1 ''a'' then [NewHost 2 ''b'']
       else if h = NewHost 2 ''b'' then [NewHost 1 ''a''] else []\<rparr>), flight = {#}\<rparr>"

definition first_envelope :: envelope where
  "first_envelope = \<lparr>env_sender = NewHost 1 ''a'', env_receiver = NewHost 2 ''b'', env_ID = 7, env_Payload = [1]\<rparr>"

definition two_nodes_told :: gossip_net where
  "two_nodes_told = net_originate (NewHost 1 ''a'') 7 [1] two_nodes"

definition two_nodes_done :: gossip_net where
  "two_nodes_done = net_receive first_envelope (NewHost 1 ''a'') two_nodes_told"

lemma two_nodes_facts:
  "net_initial two_nodes" "fresh_ID 7 two_nodes" "flight two_nodes_told = {#first_envelope#}"
  "arrival two_nodes_told two_nodes_done" "flight two_nodes_done = {#}"
  "knows two_nodes (NewHost 1 ''a'') (NewHost 2 ''b'')"
proof -
  show "net_initial two_nodes" "fresh_ID 7 two_nodes" "knows two_nodes (NewHost 1 ''a'') (NewHost 2 ''b'')"
    by (simp_all add: two_nodes_def net_initial_def fresh_ID_def knows_def gossip_New_def)
  show fl: "flight two_nodes_told = {#first_envelope#}"
    by (simp add: two_nodes_told_def net_originate_sel originate_simps two_nodes_def first_envelope_def sends_def)
  show "arrival two_nodes_told two_nodes_done"
    unfolding two_nodes_done_def by (rule arrival.intros) (simp_all add: fl first_envelope_def)
  have "node_at two_nodes_told (NewHost 2 ''b'') = node_at two_nodes (NewHost 2 ''b'')"
    by (simp add: two_nodes_told_def net_originate_sel NewHost_def)
  then show "flight two_nodes_done = {#}"
    unfolding two_nodes_done_def net_receive_sel(2) fl
    by (simp add: first_envelope_def receive_simps two_nodes_def gossip_New_def excluding_def sends_def NewHost_def)
qed

theorem gossip_reaches_everyone_witness:
  "\<exists>b. deliveries 7 (node_at two_nodes_done (NewHost 2 ''b'')) = [(7, b)]"
proof -
  have steps: "net_steps two_nodes two_nodes_done"
    using net_step.broadcasts [OF two_nodes_facts(2)] net_step.arrives [OF two_nodes_facts(4)]
    unfolding two_nodes_told_def by (meson converse_rtranclp_into_rtranclp r_into_rtranclp)
  have "7 \<in> seen (node_at two_nodes_done (NewHost 1 ''a''))"
    by (simp add: two_nodes_done_def two_nodes_told_def seen_net)
  then show ?thesis
    using gossip_reaches_everyone [OF steps two_nodes_facts(1), of 7 "NewHost 1 ''a''"] two_nodes_facts(5,6) by auto
qed

theorem gossip_quiesces_witness:
  "1 + size (flight two_nodes_done) \<le> size (flight two_nodes_told) +
     (\<Sum>v\<in>{NewHost 1 ''a'', NewHost 2 ''b''}. card (env_ID ` set_mset (flight two_nodes_told) - seen (node_at two_nodes_told v))
        * length (view (node_at two_nodes_told v)))"
proof -
  have "(arrival ^^ 1) two_nodes_told two_nodes_done" using two_nodes_facts(4) by (simp add: eq_OO)
  moreover have "\<forall>v \<in> {NewHost 1 ''a'', NewHost 2 ''b''}. set (view (node_at two_nodes_told v)) \<subseteq> {NewHost 1 ''a'', NewHost 2 ''b''}"
    by (simp add: two_nodes_told_def two_nodes_def)
  ultimately show ?thesis
    using gossip_quiesces [of "{NewHost 1 ''a'', NewHost 2 ''b''}" two_nodes_told 1 two_nodes_done]
    by (simp add: two_nodes_facts(3) first_envelope_def)
qed

end
