(* ===== verification/Gossip_Properties.thy ===== *)
theory Gossip_Properties
  imports Gossip_Network Runtime_Properties
begin

text \<open>
  The gossip node of \<^verbatim>\<open>cmd/gossip\<close> on the runtime: it starts, its handlers refine the decisions the
  network model uses, its two protocols keep their views in step, and the one way they fall out of step.
\<close>

section \<open>Starting\<close>

lemma connect_contacts_effect:
  assumes "\<not> strict r" and "sessionLayer r = Some l"
  shows "\<exists>retries l'. connect_contacts p cs r = Return () (r\<lparr>connectionRetries := retries, sessionLayer := Some l'\<rparr>)"
  using assms
proof (induction cs arbitrary: r l)
  case Nil
  then have "r = r\<lparr>connectionRetries := connectionRetries r, sessionLayer := Some l\<rparr>" by (cases r) simp
  then show ?case by (metis connect_contacts.simps(1))
next
  case (Cons c cs)
  let ?s = "snd (connectWithRetry c r)"
  have "logged (ctx_ConnectWithRetry p c r) =
      Return () (r\<lparr>connectionRetries := connectionRetries ?s, sessionLayer := Some (the (sessionLayer ?s))\<rparr>)"
    using Cons.prems
    by (cases r) (simp add: logged_def ctx_ConnectWithRetry_def require_active_def requireActivePhase_def require_def
        connectWithRetry_def rt_connect_def session_request_def)
  then obtain retries l1 where c: "logged (ctx_ConnectWithRetry p c r) =
      Return () (r\<lparr>connectionRetries := retries, sessionLayer := Some l1\<rparr>)" ..
  show ?case using Cons.IH [of "r\<lparr>connectionRetries := retries, sessionLayer := Some l1\<rparr>" l1] Cons.prems c by auto
qed

definition contacted :: "pid \<Rightarrow> Host list \<Rightarrow> node_runtime \<Rightarrow> node_runtime" where
  "contacted p cs r = outcome_state (connect_contacts p cs r)"

lemma connect_contacts_eq:
  assumes "\<not> strict r" and "sessionLayer r \<noteq> None"
  shows "connect_contacts p cs r = Return ()
    (r\<lparr>connectionRetries := connectionRetries (contacted p cs r), sessionLayer := Some (the (sessionLayer (contacted p cs r)))\<rparr>)"
  using connect_contacts_effect [OF assms(1), where p = p and cs = cs] assms(2) by (fastforce simp: contacted_def)

text \<open>What \<^verbatim>\<open>Start\<close> leaves behind: both loops run, each protocol has its registrations, and the node's
  memory is untouched.\<close>

abbreviation message_id :: wire_id where "message_id \<equiv> hashString (ty_String messageType)"
abbreviation viewChanged_id :: wire_id where "viewChanged_id \<equiv> hashString (ty_String viewChangedType)"
abbreviation getView_id :: wire_id where "getView_id \<equiv> hashString (ty_String getViewType)"
abbreviation triggerBroadcast_id :: wire_id where "triggerBroadcast_id \<equiv> hashString (ty_String triggerBroadcastType)"

definition node_wired :: "node_runtime \<Rightarrow> bool" where
  "node_wired r \<longleftrightarrow> length (protocols r) = 2 \<and> \<not> strict r \<and>
     loop_started (proto r MEM) \<and> loop_started (proto r GOS) \<and>
     protocol (proto r MEM) = membership_impl \<and> protocol (proto r GOS) = gossip_impl \<and>
     notificationFanout (ipc r) viewChanged_id = Some [(GOS, NotificationFn viewChangedType HandleViewChanged)] \<and>
     Route (ipc r) getView_id = Some \<lparr>route_proto = MEM, route_handler = RequestFn MEM getViewType HandleGetView\<rparr> \<and>
     Route (ipc r) triggerBroadcast_id =
       Some \<lparr>route_proto = GOS, route_handler = RequestFn GOS triggerBroadcastType HandleBroadcast\<rparr> \<and>
     codecs r message_id = Some GOS \<and>
     proto_codecs (proto r GOS) message_id = Some (codecAdapter node_env messageType gossip_Marshal gossip_Unmarshal) \<and>
     proto_handlers (proto r GOS) message_id = Some (HandlerFn messageType HandleInbound)"

lemma request_ids_differ [simp]: "getView_id \<noteq> triggerBroadcast_id" "triggerBroadcast_id \<noteq> getView_id"
proof -
  have "hashString ''*membership.GetView'' \<noteq> hashString ''*gossip.TriggerBroadcast''" by code_simp
  then show "getView_id \<noteq> triggerBroadcast_id" "triggerBroadcast_id \<noteq> getView_id" by (auto simp: node_types)
qed

lemmas node_start_defs =
  gossip_node_def New_def WithTCPTransport_def Register_def registerProtocol_def newProtoProtocol_def
  defaultProtoChannelBuffer_def make_chan_def node_run_def membership_impl_def gossip_impl_def
  membership_New_def EnablePeriodic_def gossip_New_def periodicEnabled_def second_def millisecond_def Let_def
  rt_start_def startProtocols_def initProtocols_def proto_Start_def proto_Init_def ensureContext_def
  call_user_def setPhase_def upd_proto_def membership_Start_def membership_Init_def gossip_Start_def
  gossip_Init_def RegisterRequestHandler_def with_WireID_def registerRequestHandler_def require_register_def
  requireRegisterPhase_def require_def RegisterRequestRoute_def newIPCRouter_def require_active_def
  requireActivePhase_def RegisterCodec_def registerCodec_def codecRegistry_Set_def RegisterHandler_def
  registerHandler_def SubscribeNotification_def ctx_subscribeNotification_def rt_subscribeNotification_def Subscribe_def ctx_RegisterTimerHandler_def periodicTimer_def
  SendRequest_def SendRequestWithTimeout_def ctx_sendRequest_def sendRequest_def enter_request_def sample_def
  Route_def AfterFunc_def select_proto_def setupPeriodicTimer_def

lemma gossip_node_state:
  "\<exists>s. rt_start (node_run ch) (gossip_node me cs pd) = Return None s \<and> node_wired s \<and> rt_loops s \<and> \<not> rt_done s \<and>
     user s = user (gossip_node me cs pd) \<and> wireIDCache s = Map.empty \<and> sessionLayer s \<noteq> None \<and>
     requestEvents (proto s MEM) = \<lparr>chan_cap = 16, chan_buf = [\<lparr>ir_req = GetView,
        ir_token = \<lparr>requester = GOS, requestID = 1\<rparr>, ir_handler = RequestFn MEM getViewType HandleGetView\<rparr>]\<rparr> \<and>
     (\<exists>pr. pending (proto s GOS) 1 = Some pr \<and> cb pr = ReplyFn viewType HandleInitialView) \<and>
     requestEvents (proto s GOS) = make_chan 16 \<and>
     (\<forall>p \<in> {MEM, GOS}. replyEvents (proto s p) = make_chan 16 \<and> notificationEvents (proto s p) = make_chan 16 \<and>
        sessionEvents (proto s p) = make_chan 16 \<and> messageChannel (proto s p) = make_chan 16)"
  by (simp add: node_start_defs connect_contacts_eq node_wired_def chan_full_def chan_put_def)


section \<open>The handlers refine the decisions\<close>

text \<open>The bytes of an envelope on the session layer: the wire identifier and the codec's encoding.\<close>

definition gossip_bytes :: "64 word \<Rightarrow> byte list \<Rightarrow> byte list" where
  "gossip_bytes i b = le_put 8 message_id @ le_put 8 i @ le_put 4 (word_of_nat (length b) :: 32 word) @ b"

lemma cache_coherent_upd:
  "cache_coherent node_env cache \<Longrightarrow> fst (wireIDOf node_env (Message i b) cache) = message_id \<and>
     cache_coherent node_env (snd (wireIDOf node_env (Message i b) cache))"
  using wireIDOf_agrees [of node_env cache "Message i b"] by (simp add: names_static_def)

lemma ctx_Send_wired:
  assumes "node_wired r" and "cache_coherent node_env (wireIDCache r)" and "sessionLayer r = Some l"
  shows "\<exists>c. ctx_Send node_env p (Message i b) h r =
      Return None (r\<lparr>wireIDCache := c, sessionLayer := Some (l @ [SendReq (gossip_bytes i b) h])\<rparr>) \<and> cache_coherent node_env c"
  using assms cache_coherent_upd [OF assms(2), of i b]
  by (intro exI [of _ "snd (wireIDOf node_env (Message i b) (wireIDCache r))"])
     (simp add: ctx_Send_def require_active_def require_def requireActivePhase_def sendMessage_def Let_def node_wired_def
      codecRegistry_Get_def codecAdapter_def gossip_Marshal_def Codec_Marshal_eq session_request_def gossip_bytes_def)

lemma node_wired_upd [simp]:
  "node_wired (r\<lparr>wireIDCache := c\<rparr>) = node_wired r" "node_wired (r\<lparr>sessionLayer := l\<rparr>) = node_wired r"
  "node_wired (r\<lparr>user := u\<rparr>) = node_wired r"
  by (simp_all add: node_wired_def)

lemma fanout_sends:
  assumes "node_wired r" and "cache_coherent node_env (wireIDCache r)" and "sessionLayer r = Some l"
  shows "\<exists>c. gossip_fanout p (Message i b) peers r =
      Return () (r\<lparr>wireIDCache := c, sessionLayer := Some (l @ map (SendReq (gossip_bytes i b)) peers)\<rparr>) \<and> cache_coherent node_env c"
  using assms
proof (induction peers arbitrary: r l)
  case Nil
  then have "r = r\<lparr>wireIDCache := wireIDCache r, sessionLayer := Some l\<rparr>" by (cases r) simp
  then show ?case using Nil by (metis append_Nil2 gossip_fanout.simps(1) list.map(1))
next
  case (Cons h peers)
  obtain c where c: "ctx_Send node_env p (Message i b) h r =
      Return None (r\<lparr>wireIDCache := c, sessionLayer := Some (l @ [SendReq (gossip_bytes i b) h])\<rparr>)" "cache_coherent node_env c"
    using ctx_Send_wired [OF Cons.prems] by blast
  show ?case using Cons.IH [of "r\<lparr>wireIDCache := c, sessionLayer := Some (l @ [SendReq (gossip_bytes i b) h])\<rparr>"]
    Cons.prems c by (simp add: logged_def)
qed

lemma handleInbound_receive:
  assumes "node_wired r" and "cache_coherent node_env (wireIDCache r)" and "sessionLayer r = Some l"
  shows "\<exists>c. handleInbound p i b sender r = Return () (r\<lparr>user := (user r)\<lparr>gos := fst (receive i b sender (gos (user r)))\<rparr>,
      wireIDCache := c,
      sessionLayer := Some (l @ map (SendReq (gossip_bytes i b)) (snd (receive i b sender (gos (user r)))))\<rparr>) \<and>
      cache_coherent node_env c"
proof (cases "i \<in> seen (gos (user r))")
  case True
  have "r = r\<lparr>user := (user r)\<lparr>gos := gos (user r)\<rparr>, wireIDCache := wireIDCache r, sessionLayer := Some l\<rparr>"
    using assms(3) by (cases r) simp
  then show ?thesis using True assms(2)
    by (intro exI [of _ "wireIDCache r"]) (simp add: handleInbound_def receive_def Let_def)
next
  case False
  let ?g = "deliver i b (gos (user r))"
  show ?thesis
    using False fanout_sends [of "set_gos ?g r" l p i b "excluding (view ?g) sender"] assms
    by (simp add: handleInbound_def receive_def Let_def set_gos_def deliver_def)
qed

lemma deliver_drawn:
  "deliver i b (g\<lparr>drawn := n\<rparr>) = (deliver i b g)\<lparr>drawn := n\<rparr>" "view (deliver i b g) = view g"
  by (simp_all add: deliver_def)

lemma disseminate_originate:
  assumes "node_wired r" and "cache_coherent node_env (wireIDCache r)" and "sessionLayer r = Some l"
    and "i = rnd (drawn (gos (user r)))"
  shows "\<exists>c. disseminate rnd p b r = Return () (r\<lparr>user := (user r)\<lparr>gos := (fst (originate i b (gos (user r))))\<lparr>drawn := drawn (gos (user r)) + 1\<rparr>\<rparr>,
      wireIDCache := c,
      sessionLayer := Some (l @ map (SendReq (gossip_bytes i b)) (snd (originate i b (gos (user r)))))\<rparr>) \<and>
      cache_coherent node_env c"
proof -
  let ?h = "(deliver i b (gos (user r)))\<lparr>drawn := drawn (gos (user r)) + 1\<rparr>"
  show ?thesis
    using fanout_sends [of "set_gos ?h r" l p i b "view ?h"] assms
    by (simp add: disseminate_def originate_def Let_def set_gos_def deliver_drawn)
qed

text \<open>C22. The gossip handlers do on the runtime what the network model says: on a wired node whose
  identifier cache is coherent, handling an inbound envelope changes the protocol's memory as \<open>receive\<close>
  says and hands the session layer exactly one encoded copy for each peer \<open>receive\<close> names, in order; and
  originating a broadcast does the same for \<open>originate\<close> with the drawn identifier. Nothing else changes but
  the cache.\<close>

theorem gossip_handlers_refine:
  assumes "node_wired r" and "cache_coherent node_env (wireIDCache r)" and "sessionLayer r = Some l"
  shows "(\<exists>c. handleInbound p i b sender r = Return () (r\<lparr>user := (user r)\<lparr>gos := fst (receive i b sender (gos (user r)))\<rparr>,
      wireIDCache := c,
      sessionLayer := Some (l @ map (SendReq (gossip_bytes i b)) (snd (receive i b sender (gos (user r)))))\<rparr>)) \<and>
    (\<exists>c. disseminate rnd p b r = Return () (r\<lparr>user := (user r)\<lparr>gos := (fst (originate (rnd (drawn (gos (user r)))) b (gos (user r))))
        \<lparr>drawn := drawn (gos (user r)) + 1\<rparr>\<rparr>,
      wireIDCache := c,
      sessionLayer := Some (l @ map (SendReq (gossip_bytes (rnd (drawn (gos (user r)))) b))
        (snd (originate (rnd (drawn (gos (user r)))) b (gos (user r)))))\<rparr>))"
  using handleInbound_receive [OF assms] disseminate_originate [OF assms refl] by blast

theorem gossip_handlers_refine_witness:
  "\<exists>r l c. node_wired r \<and> sessionLayer r = Some l \<and> handleInbound GOS 7 [1] (NewHost 2 ''b'') r = Return () (r\<lparr>user := (user r)\<lparr>gos := fst (receive 7 [1] (NewHost 2 ''b'') (gos (user r)))\<rparr>,
      wireIDCache := c,
      sessionLayer := Some (l @ map (SendReq (gossip_bytes 7 [1])) (snd (receive 7 [1] (NewHost 2 ''b'') (gos (user r)))))\<rparr>)"
proof -
  obtain s where s: "node_wired s" "wireIDCache s = Map.empty" "sessionLayer s \<noteq> None"
    using gossip_node_state by blast
  then obtain l where "sessionLayer s = Some l" by blast
  with s gossip_handlers_refine [of s l GOS 7 "[1]" "NewHost 2 ''b''" "\<lambda>_. 0"] show ?thesis by auto
qed

section \<open>The two views\<close>

text \<open>The view the gossip protocol will have once it has handled the changes queued for it.\<close>

definition queued_view :: "node_runtime \<Rightarrow> Host list" where
  "queued_view r = fold (\<lambda>n. case in_n n of ViewChangedV ev \<Rightarrow> change_view ev | _ \<Rightarrow> (\<lambda>hs. hs))
     (chan_buf (notificationEvents (proto r GOS))) (view (gos (user r)))"

definition views_in_step :: "node_runtime \<Rightarrow> bool" where
  "views_in_step r \<longleftrightarrow> set (queued_view r) = set (mem_view (mem (user r))) \<and>
     (\<forall>n \<in> set (chan_buf (notificationEvents (proto r GOS))).
        in_handler n = NotificationFn viewChangedType HandleViewChanged \<and> (\<exists>ev. in_n n = ViewChangedV ev))"

lemma set_change_view:
  "vc_HasAdded ev \<Longrightarrow> set (change_view ev hs) = insert (vc_Added ev) (set hs)"
  "\<not> vc_HasAdded ev \<Longrightarrow> vc_HasRemoved ev \<Longrightarrow> set (change_view ev hs) = set hs - {vc_Removed ev}"
  by (auto simp: change_view_def sameHost_def)

lemma publish_change:
  assumes "node_wired r" and "\<not> rt_done r" and "\<And>xs. mset (ord xs) = mset xs"
    and "PublishNotification node_env ord MEM (Some viewChangedType) v r = Return () s"
  shows "user s = user r \<and> length (protocols s) = 2 \<and>
    chan_buf (notificationEvents (proto s GOS)) = chan_buf (notificationEvents (proto r GOS)) @
      [\<lparr>in_n = v, in_handler = NotificationFn viewChangedType HandleViewChanged\<rparr>]"
proof -
  have "ord [(1, NotificationFn viewChangedType HandleViewChanged)] = [(1, NotificationFn viewChangedType HandleViewChanged)]"
    using assms(3) [of "[(1, NotificationFn viewChangedType HandleViewChanged)]"] by simp
  then show ?thesis using assms(1,2,4)
    by (auto simp: PublishNotification_def ctx_publishNotification_def with_WireID_def require_active_def requireActivePhase_def require_def
        publishNotification_def SnapshotSubscribers_def node_wired_def Let_def select_proto_def select_send_def
        chan_put_def split: if_splits)
qed

lemma queued_append:
  assumes "chan_buf (notificationEvents (proto s GOS)) = chan_buf (notificationEvents (proto r GOS)) @
      [\<lparr>in_n = ViewChangedV ev, in_handler = NotificationFn viewChangedType HandleViewChanged\<rparr>]"
    and "gos (user s) = gos (user r)"
  shows "queued_view s = change_view ev (queued_view r)"
  using assms by (simp add: queued_view_def)

lemma membership_change_in_step:
  assumes r: "node_wired r" "views_in_step r" "\<not> rt_done r" and ord: "\<And>xs. mset (ord xs) = mset xs"
    and m: "membership_OnSessionConnected ord MEM h r = Return () s \<or> membership_OnSessionDisconnected ord MEM h r = Return () s"
  shows "views_in_step s"
proof -
  have wired: "node_wired (set_mem_view hs r)" "\<not> rt_done (set_mem_view hs r)" for hs
    using r by (simp_all add: set_mem_view_def)
  note pub = publish_change [OF wired ord]
  have sel: "notificationEvents (proto (set_mem_view hs r) GOS) = notificationEvents (proto r GOS)"
    "gos (user (set_mem_view hs r)) = gos (user r)" "mem_view (mem (user (set_mem_view hs r))) = hs" for hs
    by (simp_all add: set_mem_view_def)
  have step: "views_in_step s"
    if "PublishNotification node_env ord MEM (Some viewChangedType) (ViewChangedV ev) (set_mem_view hs r) = Return () s"
      and "set (change_view ev (queued_view r)) = set hs" for ev hs
    using pub [OF that(1)] that(2) r(2) queued_append [of s r ev] sel [of hs]
    by (auto simp: views_in_step_def)
  let ?hs = "mem_view (mem (user r))"
  have q: "set (queued_view r) = set ?hs" using r(2) by (simp add: views_in_step_def)
  from m show ?thesis
  proof
    assume c: "membership_OnSessionConnected ord MEM h r = Return () s"
    show ?thesis
    proof (cases "h \<in> set ?hs")
      case True
      then show ?thesis using c r(2) by (simp add: membership_OnSessionConnected_def)
    next
      case False
      with c have "PublishNotification node_env ord MEM (Some viewChangedType)
          (ViewChangedV \<lparr>vc_Added = h, vc_Removed = zeroHost, vc_HasAdded = True, vc_HasRemoved = False\<rparr>)
          (set_mem_view (?hs @ [h]) r) = Return () s"
        by (simp add: membership_OnSessionConnected_def)
      from step [OF this] show ?thesis by (simp add: set_change_view q)
    qed
  next
    assume c: "membership_OnSessionDisconnected ord MEM h r = Return () s"
    show ?thesis
    proof (cases "h \<in> set ?hs")
      case False
      then show ?thesis using c r(2) by (simp add: membership_OnSessionDisconnected_def)
    next
      case True
      with c have "PublishNotification node_env ord MEM (Some viewChangedType)
          (ViewChangedV \<lparr>vc_Added = zeroHost, vc_Removed = h, vc_HasAdded = False, vc_HasRemoved = True\<rparr>)
          (set_mem_view (removeAll h ?hs) r) = Return () s"
        by (simp add: membership_OnSessionDisconnected_def)
      from step [OF this] show ?thesis by (simp add: set_change_view q)
    qed
  qed
qed

lemma views_in_step_cong:
  "view (gos (user s)) = view (gos (user r)) \<Longrightarrow> mem_view (mem (user s)) = mem_view (mem (user r)) \<Longrightarrow>
   chan_buf (notificationEvents (proto s GOS)) = chan_buf (notificationEvents (proto r GOS)) \<Longrightarrow>
   views_in_step s = views_in_step r"
  by (simp add: views_in_step_def queued_view_def)

lemma membership_no_panic:
  assumes "node_wired r"
  shows "membership_OnSessionConnected ord MEM h r \<noteq> Panic m s" "membership_OnSessionDisconnected ord MEM h r \<noteq> Panic m s"
proof -
  have loop: "publish_loop w n subs r \<noteq> Panic m s" for w n subs and r :: node_runtime
  proof (induction subs arbitrary: r)
    case (Cons sub subs)
    then show ?case
      by (cases "select_proto notificationEvents notificationEvents_update (fst sub) \<lparr>in_n = n, in_handler = snd sub\<rparr> r")
         (auto dest: select_proto_never_panics [THEN notE])
  qed simp
  have "PublishNotification node_env ord MEM (Some viewChangedType) v (set_mem_view hs r) \<noteq> Panic m s" for v hs
    using assms by (simp add: PublishNotification_def ctx_publishNotification_def with_WireID_def require_active_def requireActivePhase_def require_def
        publishNotification_def node_wired_def Let_def loop set_mem_view_def)
  then show "membership_OnSessionConnected ord MEM h r \<noteq> Panic m s" "membership_OnSessionDisconnected ord MEM h r \<noteq> Panic m s"
    by (simp_all add: membership_OnSessionConnected_def membership_OnSessionDisconnected_def)
qed

lemma membership_turn_in_step:
  assumes r: "node_wired r" "views_in_step r" "\<not> rt_done r" and ord: "\<And>xs. mset (subs_order ch xs) = mset xs"
    and turn: "eventHandler node_env (node_run ch) MEM OnSession r = Some (Return () s)"
  shows "views_in_step s"
proof -
  obtain ev evs where buf: "chan_buf (sessionEvents (proto r MEM)) = ev # evs"
    using turn by (auto simp: eventHandler_def recv_def split: list.splits)
  define r1 where "r1 = upd_proto MEM (sessionEvents_update (\<lambda>_. (sessionEvents (proto r MEM))\<lparr>chan_buf := evs\<rparr>)) r"
  have len: "0 < length (protocols r)" using r(1) by (simp add: node_wired_def)
  have wired: "node_wired (r1\<lparr>calls := cs\<rparr>)" "\<not> rt_done (r1\<lparr>calls := cs\<rparr>)" for cs
    using r len by (simp_all add: r1_def node_wired_def)
  have in_step: "views_in_step (r1\<lparr>calls := cs\<rparr>) = views_in_step r" for cs
    by (rule views_in_step_cong) (use len in \<open>simp_all add: r1_def\<close>)
  have facts: "\<not> strict r1" "protocol (proto r1 MEM) = membership_impl"
    using r len by (simp_all add: r1_def node_wired_def)
  have in_step1: "views_in_step r1 = views_in_step r"
    by (rule views_in_step_cong) (use len in \<open>simp_all add: r1_def\<close>)
  have "safeCall (node_run ch) MEM ''session event handler'' (deliverSessionEvent (node_run ch) MEM ev) r1 = Return () s"
    using turn buf by (simp add: eventHandler_def recv_def r1_def)
  moreover have "views_in_step s"
    if "membership_OnSessionConnected (subs_order ch) MEM h (r1\<lparr>calls := cs\<rparr>) = Return () s \<or>
        membership_OnSessionDisconnected (subs_order ch) MEM h (r1\<lparr>calls := cs\<rparr>) = Return () s" for h cs
    using membership_change_in_step [OF wired(1) _ wired(2) ord that] in_step r(2) by simp
  ultimately show ?thesis using facts membership_no_panic [OF wired(1)] in_step1 r(2)
    by (auto simp: Let_def safeCall_lenient deliverSessionEvent_def membership_impl_def call_user_def node_run_def
        split: sessionEventType.splits outcome.splits)
qed

lemma gossip_turn_in_step:
  assumes r: "node_wired r" "views_in_step r"
    and turn: "eventHandler node_env (node_run ch) GOS OnNotification r = Some (Return () s)"
  shows "views_in_step s"
proof -
  obtain n ns where buf: "chan_buf (notificationEvents (proto r GOS)) = n # ns"
    using turn by (auto simp: eventHandler_def recv_def split: list.splits)
  obtain ev where n: "in_handler n = NotificationFn viewChangedType HandleViewChanged" "in_n n = ViewChangedV ev"
    using r(2) buf by (auto simp: views_in_step_def)
  have len: "1 < length (protocols r)" "\<not> strict r" using r(1) by (simp_all add: node_wired_def)
  have s: "view (gos (user s)) = change_view ev (view (gos (user r)))" "mem (user s) = mem (user r)"
    "chan_buf (notificationEvents (proto s GOS)) = ns"
    using turn buf n len
    by (auto simp: eventHandler_def recv_def safeCall_lenient invoke_notification_def call_user_def node_run_def
        handleViewChanged_def set_gos_def)
  then show ?thesis using r(2) buf n(2) by (simp add: views_in_step_def queued_view_def)
qed



lemma onSessionUp_effect: "\<exists>a c. snd (onSessionUpForRetry h r) = r\<lparr>armed := a, connectionRetries := c\<rparr>"
proof -
  have "stop_opt t r = r\<lparr>armed := armed (stop_opt t r)\<rparr>" for t
    by (cases t; cases r) (simp_all add: stop_opt_def Stop_def)
  then have "snd (onSessionUpForRetry h r) = r\<lparr>armed := armed (snd (onSessionUpForRetry h r)),
      connectionRetries := connectionRetries (snd (onSessionUpForRetry h r))\<rparr>"
    by (cases "connectionRetries r h"; cases r) (simp_all add: onSessionUpForRetry_def)
  then show ?thesis by blast
qed

text \<open>C33. The views can fall out of step at the start and stay so: in an execution of the node, a session
  to \<open>h\<close> comes up while the initial \<^verbatim>\<open>GetView\<close> is under way; membership answers the request with the
  empty view and then publishes the change; the gossip loop, with both channels ready, handles the
  notification first and the reply second. Nothing is queued any more, membership has \<open>h\<close> in its view and
  gossip has lost it.\<close>

theorem initial_view_overwrites_change:
  "\<exists>s. rt_steps node_env (node_run \<lparr>rand = rnd, view_order = (\<lambda>hs. hs), subs_order = (\<lambda>xs. xs)\<rparr>)
         (gossip_node me cs pd) s \<and>
     mem_view (mem (user s)) = [h] \<and> view (gos (user s)) = [] \<and>
     list_all (\<lambda>p. chan_buf (notificationEvents (proto s p)) = [] \<and> chan_buf (replyEvents (proto s p)) = [] \<and>
        chan_buf (requestEvents (proto s p)) = []) [MEM, GOS]"
proof -
  let ?run = "node_run \<lparr>rand = rnd, view_order = (\<lambda>hs. hs), subs_order = (\<lambda>xs. xs)\<rparr>"
  have mem0: "mem_view (mem (user (gossip_node me cs pd))) = []"
    by (simp add: gossip_node_def New_def WithTCPTransport_def Register_def registerProtocol_def membership_New_def Let_def)
  obtain r where r: "rt_start ?run (gossip_node me cs pd) = Return None r" "node_wired r" "rt_loops r" "\<not> rt_done r"
      "user r = user (gossip_node me cs pd)"
      "requestEvents (proto r MEM) = \<lparr>chan_cap = 16, chan_buf = [\<lparr>ir_req = GetView,
        ir_token = \<lparr>requester = GOS, requestID = 1\<rparr>, ir_handler = RequestFn MEM getViewType HandleGetView\<rparr>]\<rparr>"
      "\<exists>pr. pending (proto r GOS) 1 = Some pr \<and> cb pr = ReplyFn viewType HandleInitialView"
      "requestEvents (proto r GOS) = make_chan 16"
      "replyEvents (proto r MEM) = make_chan 16" "replyEvents (proto r GOS) = make_chan 16"
      "notificationEvents (proto r MEM) = make_chan 16" "notificationEvents (proto r GOS) = make_chan 16"
      "sessionEvents (proto r MEM) = make_chan 16" "sessionEvents (proto r GOS) = make_chan 16"
    using gossip_node_state [where ch = "\<lparr>rand = rnd, view_order = (\<lambda>hs. hs), subs_order = (\<lambda>xs. xs)\<rparr>" and me = me and cs = cs and pd = pd]
    by (elim exE) (erule conjE, rule that, assumption, simp_all)
  obtain a c where up: "snd (onSessionUpForRetry h (sample (Counter ''protorun.session.connected'' 1 [HostAttr h]) r)) =
      (sample (Counter ''protorun.session.connected'' 1 [HostAttr h]) r)\<lparr>armed := a, connectionRetries := c\<rparr>"
    using onSessionUp_effect by blast
  have "\<exists>s. run_acts node_env ?run [ActSession (SessionConnected h), ActTurn 0 OnRequest, ActTurn 0 OnSession,
      ActTurn 1 OnNotification, ActTurn 1 OnReply] r = Some s \<and> mem_view (mem (user s)) = [h] \<and> view (gos (user s)) = [] \<and>
     (\<forall>p \<in> {MEM, GOS}. chan_buf (notificationEvents (proto s p)) = [] \<and> chan_buf (replyEvents (proto s p)) = [] \<and>
        chan_buf (requestEvents (proto s p)) = [])"
    using r(2-) up mem0
    by (auto simp: node_wired_def dispatchSessionEvent_def fanoutSessionEvent_def upt_rec select_proto_room
      eventHandler_def recv_def safeCall_lenient invoke_request_def call_user_def Let_def
      node_run_def membership_handleGetView_def responder_Reply_def respond_def deliverReply_def 
      deliverSessionEvent_def membership_impl_def membership_OnSessionConnected_def PublishNotification_def ctx_publishNotification_def
      with_WireID_def require_active_def require_def requireActivePhase_def set_mem_view_def
      publishNotification_def SnapshotSubscribers_def invoke_notification_def handleViewChanged_def set_gos_def
      proto_deliverReply_def invoke_reply_def handleInitialView_def chan_full_def chan_put_def)
  then obtain s where s: "run_acts node_env ?run (ActStart # [ActSession (SessionConnected h), ActTurn 0 OnRequest,
      ActTurn 0 OnSession, ActTurn 1 OnNotification, ActTurn 1 OnReply]) (gossip_node me cs pd) = Some s"
      "mem_view (mem (user s)) = [h]" "view (gos (user s)) = []"
      "\<forall>p \<in> {MEM, GOS}. chan_buf (notificationEvents (proto s p)) = [] \<and> chan_buf (replyEvents (proto s p)) = [] \<and>
        chan_buf (requestEvents (proto s p)) = []"
    using r(1) by (metis bind.bind_lunit returned.simps(1) run_act.simps(1) run_acts.simps(2))
  show ?thesis using run_acts_steps [OF s(1)] s(2-4) by auto
qed

end
