(* ===== verification/End_To_End.thy ===== *)
theory End_To_End
  imports TCP_Layer Gossip_Properties
begin

text \<open>
  Properties that cross the layers: a message from \<^verbatim>\<open>Send\<close> on one node to the handler on another, and what
  the protocols of a node learn when a connection breaks.
\<close>

section \<open>From Send to the handler\<close>

text \<open>A runtime on which protocol \<open>p\<close> has registered a codec for the type of \<open>m\<close>.\<close>

definition speaks :: "'v go_values \<Rightarrow> 'v \<Rightarrow> ('v \<Rightarrow> byte list result) \<Rightarrow> (byte list \<Rightarrow> 'v result) \<Rightarrow> wire_id \<Rightarrow> pid
    \<Rightarrow> ('h, 'v, 'u) Runtime \<Rightarrow> bool" where
  "speaks env m Mar Unm w p r \<longleftrightarrow>
     WireID env (Some (TypeOf env m)) = Some w \<and> cache_coherent env (wireIDCache r) \<and>
     p < length (protocols r) \<and> codecs r w = Some p \<and>
     proto_codecs (proto r p) w = Some (codecAdapter env (TypeOf env m) Mar Unm)"

lemma speaks_wireIDOf:
  assumes "names_static env" and "speaks env m Mar Unm w p r"
  shows "fst (wireIDOf env m (wireIDCache r)) = w"
  using wireIDOf_agrees(1) [OF assms(1), of "wireIDCache r" m] assms(2) by (simp add: speaks_def)

lemma sendMessage_speaks:
  assumes "names_static env" and "speaks env m Mar Unm w p r" and "Mar m = Inr payload" and "sessionLayer r = Some l"
  shows "\<exists>s. sendMessage env m to r = Return None s \<and> sessionLayer s = Some (l @ [SendReq (le_put 8 w @ payload) to])"
  using assms speaks_wireIDOf [OF assms(1,2)]
  by (simp add: sendMessage_def Let_def speaks_def codecRegistry_Get_def codecAdapter_def session_request_def)

lemma processMessage_speaks:
  assumes "speaks env m Mar Unm w p r" and "Unm payload = Inr m" and "\<not> rt_done r"
    and "\<not> chan_full (messageChannel (proto r p))"
  shows "processMessage (le_put 8 w @ payload) src r = Return () (upd_proto p
     (messageChannel_update (\<lambda>_. chan_put \<lparr>env_msg = m, env_from = src\<rparr> (messageChannel (proto r p))))
     (sample (Counter ''protorun.message.dispatched'' 1 [WireIDAttr w]) r))"
  using assms
  by (simp add: processMessage_def Buffer_ReadFull_def codec_simps Let_def speaks_def codecRegistry_Get_def codecAdapter_def
      select_proto_room)

lemma handleMessage_speaks:
  assumes "names_static env" and "speaks env m Mar Unm w p r" and "\<not> strict r"
    and "proto_handlers (proto r p) w = Some (HandlerFn (TypeOf env m) fn)"
  shows "handleMessage env run p \<lparr>env_msg = m, env_from = src\<rparr> r =
     (let s = r\<lparr>wireIDCache := snd (wireIDOf env m (wireIDCache r))\<rparr> in
      case call_user run p fn (MessageArg m src) s of
        Return _ t \<Rightarrow> Return () t | Block t \<Rightarrow> Block t | Panic rec t \<Rightarrow> reportPanic run p ''message handler'' rec t)"
  using assms speaks_wireIDOf [OF assms(1,2)]
  by (simp add: handleMessage_def Let_def safeCall_lenient invoke_handler_def)

text \<open>The session layer and the transport in between.\<close>

lemma session_carries:
  "transport (handle_input (SendReq bs to) S) =
     transport S @ [TSend \<lparr>tm_Host = to, tm_Msg = 0 # bs\<rparr> (resolveUnderlyingHost S to)]"
  "live R \<Longrightarrow> outMessages (handle_input (FromTransport \<lparr>tm_Host = src, tm_Msg = 0 # bs\<rparr>) R) =
     chan_put \<lparr>sm_host = src, sm_layer = Application, sm_Msg = bs\<rparr> (outMessages R)"
  by (simp_all add: session_send_def transport_Send_def serializeMessage_def NewMessage_def Let_def live_def
      transportMessageHandler_def deserializeMessage_def LayerIdentifier_of_byte_def)

lemma tcp_carries:
  assumes "activeConnections a u = Some (Some c)" and "wire a c = []" and "length (tm_Msg tm) \<le> unat maxFrameSize"
    and "handlers b d = Some (src, [])" and "concat chunks = wire (tcp_send WriteOK tm u a) c"
  shows "chan_buf (outChannel (conn_rounds d chunks b)) = chan_buf (outChannel b) @ [\<lparr>tm_Host = src, tm_Msg = tm_Msg tm\<rparr>]"
  using tcp_pipe [of a u c "[tm]" b d src chunks] assms by (simp add: tcp_sends_def)

text \<open>C6. A message makes it from \<^verbatim>\<open>Send\<close> to the handler: when both runtimes have a codec registered for
  its type that can read back what it writes, sending hands the session layer one request; that layer hands
  the transport one message for the connection the logical host resolves to; however the byte stream is cut
  into reads, the other end's transport delivers it once; its session layer hands the application the bytes
  that were sent with the address of the connection; the dispatcher puts the decoded message in the mailbox
  of the protocol that registered the codec; and that protocol's turn calls the handler of the type with the
  very message that was sent.\<close>

theorem message_end_to_end:
  assumes env: "names_static env" and codec: "Mar m = Inr payload" "Unm payload = Inr m" "length payload + 9 \<le> unat maxFrameSize"
    and snd: "speaks env m Mar Unm w p1 rs" "sessionLayer rs = Some l"
    and net: "activeConnections a (resolveUnderlyingHost S to) = Some (Some c)" "wire a c = []" "handlers b d = Some (src, [])" "live R"
    and rcv: "speaks env m Mar Unm w p rr" "proto_handlers (proto rr p) w = Some (HandlerFn (TypeOf env m) fn)"
      "\<not> strict rr" "\<not> rt_done rr" "chan_buf (messageChannel (proto rr p)) = []" "0 < chan_cap (messageChannel (proto rr p))"
  shows "\<exists>bytes tm rs' rr' rr''.
    sendMessage env m to rs = Return None rs' \<and> sessionLayer rs' = Some (l @ [SendReq bytes to]) \<and>
    transport (handle_input (SendReq bytes to) S) = transport S @ [TSend tm (resolveUnderlyingHost S to)] \<and>
    (\<forall>chunks. concat chunks = wire (tcp_send WriteOK tm (resolveUnderlyingHost S to) a) c \<longrightarrow>
       chan_buf (outChannel (conn_rounds d chunks b)) = chan_buf (outChannel b) @ [\<lparr>tm_Host = src, tm_Msg = tm_Msg tm\<rparr>]) \<and>
    chan_buf (outMessages (handle_input (FromTransport \<lparr>tm_Host = src, tm_Msg = tm_Msg tm\<rparr>) R)) =
      chan_buf (outMessages R) @ [\<lparr>sm_host = src, sm_layer = Application, sm_Msg = bytes\<rparr>] \<and>
    processMessage bytes src rr = Return () rr' \<and>
    eventHandler env run p OnMessage rr' =
      Some (case call_user run p fn (MessageArg m src) rr'' of
              Return _ t \<Rightarrow> Return () t | Block t \<Rightarrow> Block t | Panic rec t \<Rightarrow> reportPanic run p ''message handler'' rec t)"
proof -
  let ?bytes = "le_put 8 w @ payload"
  let ?tm = "\<lparr>tm_Host = to, tm_Msg = 0 # ?bytes\<rparr>"
  obtain rs' where rs': "sendMessage env m to rs = Return None rs'" "sessionLayer rs' = Some (l @ [SendReq ?bytes to])"
    using sendMessage_speaks [OF env snd(1) codec(1) snd(2)] by blast
  have room: "\<not> chan_full (messageChannel (proto rr p))" using rcv(5,6) by (simp add: chan_full_def)
  define rr' where "rr' = upd_proto p
     (messageChannel_update (\<lambda>_. chan_put \<lparr>env_msg = m, env_from = src\<rparr> (messageChannel (proto rr p))))
     (sample (Counter ''protorun.message.dispatched'' 1 [WireIDAttr w]) rr)"
  have p: "p < length (protocols rr)" using rcv(1) by (simp add: speaks_def)
  define ch where "ch = (messageChannel (proto rr p))\<lparr>chan_buf := []\<rparr>"
  have turn: "eventHandler env run p OnMessage rr' =
      Some (handleMessage env run p \<lparr>env_msg = m, env_from = src\<rparr> (upd_proto p (messageChannel_update (\<lambda>_. ch)) rr'))"
    using p rcv(5) by (simp add: rr'_def ch_def eventHandler_def recv_def chan_put_def)
  have "speaks env m Mar Unm w p (upd_proto p (messageChannel_update (\<lambda>_. ch)) rr')"
    "proto_handlers (proto (upd_proto p (messageChannel_update (\<lambda>_. ch)) rr') p) w = Some (HandlerFn (TypeOf env m) fn)"
    "\<not> strict (upd_proto p (messageChannel_update (\<lambda>_. ch)) rr')"
    using rcv p by (simp_all add: rr'_def speaks_def)
  note handled = handleMessage_speaks [OF env this(1,3,2), unfolded Let_def]
  have tcp: "chan_buf (outChannel (conn_rounds d chunks b)) = chan_buf (outChannel b) @ [\<lparr>tm_Host = src, tm_Msg = tm_Msg ?tm\<rparr>]"
    if "concat chunks = wire (tcp_send WriteOK ?tm (resolveUnderlyingHost S to) a) c" for chunks
    using tcp_carries [OF net(1,2) _ net(3) that] codec(3) by simp
  show ?thesis
    using rs' processMessage_speaks [where Mar = Mar, OF rcv(1) codec(2) rcv(4) room, of src] turn tcp
      session_carries(1) [of ?bytes to S] session_carries(2) [OF net(4), of src ?bytes]
    by (intro exI [of _ ?bytes] exI [of _ ?tm] exI [of _ rs'] exI [of _ rr'] exI) (simp add: handled rr'_def [symmetric])
qed

theorem message_end_to_end_witness:
  "let w = hashString (ty_String pingType);
       env = \<lparr>TypeOf = (\<lambda>_ :: nat. pingType), WireName = (\<lambda>_. None), Fresh = (\<lambda>_. 0)\<rparr>;
       cd = codecAdapter env pingType (\<lambda>_. Inr [5]) (\<lambda>_. Inr 5);
       r = (upd_proto 0 (\<lambda>q. q\<lparr>proto_codecs := [w \<mapsto> cd], proto_handlers := [w \<mapsto> HandlerFn pingType 6]\<rparr>) one_proto)
             \<lparr>codecs := [w \<mapsto> 0]\<rparr>;
       to = NewHost 2 ''b''
   in \<exists>rs' bytes. sendMessage env 5 to r = Return None rs' \<and> sessionLayer rs' = Some [SendReq bytes to] \<and>
        (\<exists>rr'. processMessage bytes (NewHost 1 ''a'') r = Return () rr')"
proof -
  let ?w = "hashString (ty_String pingType)"
  let ?env = "\<lparr>TypeOf = (\<lambda>_ :: nat. pingType), WireName = (\<lambda>_. None), Fresh = (\<lambda>_. 0)\<rparr>"
  let ?cd = "codecAdapter ?env pingType (\<lambda>_. Inr [5]) (\<lambda>_. Inr 5)"
  let ?r = "(upd_proto 0 (\<lambda>q. q\<lparr>proto_codecs := [?w \<mapsto> ?cd], proto_handlers := [?w \<mapsto> HandlerFn pingType 6]\<rparr>) one_proto)
      \<lparr>codecs := [?w \<mapsto> 0]\<rparr>"
  let ?a = "tcp_connect (Some 0) (NewHost 2 ''b'') (NewTCPLayer (NewHost 1 ''a'') 0 True)"
  let ?b = "listener_accept 0 (NewHost 1 ''a'') (NewTCPLayer (NewHost 2 ''b'') 0 True)"
  let ?S = "NewSessionLayer (NewHost 1 ''a'') 0 0"
  have sp: "speaks ?env 5 (\<lambda>_. Inr [5]) (\<lambda>_. Inr 5) ?w 0 ?r"
    by (simp add: speaks_def WireID_def one_proto_defs)
  have st: "names_static ?env" by (simp add: names_static_def)
  have net: "activeConnections ?a (resolveUnderlyingHost ?S (NewHost 2 ''b'')) = Some (Some 0)" "wire ?a 0 = []"
    "handlers ?b 0 = Some (NewHost 1 ''a'', [])" "live ?S"
    by (simp_all add: tcp_defs NewTCPLayer_def Let_def resolveUnderlyingHost_def NewSessionLayer_def live_def)
  have rt: "proto_handlers (proto ?r 0) ?w = Some (HandlerFn pingType 6)" "\<not> strict ?r" "\<not> rt_done ?r"
    "chan_buf (messageChannel (proto ?r 0)) = []" "0 < chan_cap (messageChannel (proto ?r 0))" "sessionLayer ?r = Some []"
    by (simp_all add: one_proto_defs)
  show ?thesis
    using message_end_to_end [OF st _ _ _ sp rt(6) net sp _ rt(2-5), where payload = "[5]" and fn = 6 and
        run = "\<lambda>_ _ s. Return () s"] rt(1)
    unfolding Let_def by auto
qed

section \<open>A broken connection\<close>

text \<open>C32. A write that fails on an established session is never announced to the protocols: the transport
  reports a failure and then the disconnection; the session layer turns the first into one failed event and,
  the session being failed by then, the second into none; and the runtime, which has no retry state for a
  session that had come up, only counts the event. So membership keeps the peer in its view.\<close>

theorem failed_write_never_announced:
  assumes "getActiveConn h t = Some (Some c)" and "live S"
    and "sessions S h = Some sc" and "state sc = SessionStateEstablished" and "transportHost sc = h"
    and "connectionRetries r (mapToHost S h) = None"
  shows "chan_buf (outEvents (tcp_handler (TcpSend msg h (WriteError k)) t)) = chan_buf (outEvents t) @ [Failed h, Disconnected h] \<and>
    emitted S (handle_inputs (map TransportEvent [Failed h, Disconnected h]) S) = [SessionFailed (mapToHost S h)] \<and>
    dispatchSessionEvent rnd (SessionFailed (mapToHost S h)) r =
      Return True (sample (Counter ''protorun.session.failed'' 1 [HostAttr (mapToHost S h)]) r)"
proof -
  have "chan_buf (outEvents (tcp_handler (TcpSend msg h (WriteError k)) t)) = chan_buf (outEvents t) @ [Failed h, Disconnected h]"
    using assms(1) by (auto simp: tcp_defs split: sum.splits)
  moreover have "emitted S (handle_inputs (map TransportEvent [Failed h, Disconnected h]) S) = [SessionFailed (mapToHost S h)]"
    using assms(2-5)
    by (auto simp: handle_inputs_def session_defs withSession_def lookup_session_def emitEvent_def emitted_def live_def
        cleanupServerMapping_def mapToHost_def Let_def split: option.splits)
  moreover have "dispatchSessionEvent rnd (SessionFailed (mapToHost S h)) r =
      Return True (sample (Counter ''protorun.session.failed'' 1 [HostAttr (mapToHost S h)]) r)"
    using assms(6) by (simp add: dispatchSessionEvent_def onSessionDownForRetry_def Let_def)
  ultimately show ?thesis by blast
qed

theorem failed_write_never_announced_witness:
  "let h = NewHost 2 ''b''; S = (NewSessionLayer (NewHost 1 ''a'') 0 0)
       \<lparr>sessions := [h \<mapsto> \<lparr>logicalHost = h, transportHost = h, state = SessionStateEstablished, lastErr = None\<rparr>]\<rparr>
   in emitted S (handle_inputs (map TransportEvent [Failed h, Disconnected h]) S) = [SessionFailed h]"
proof -
  let ?h = "NewHost 2 ''b''"
  let ?t = "tcp_connect (Some 4) ?h (NewTCPLayer (NewHost 1 ''a'') 0 True)"
  let ?sc = "\<lparr>logicalHost = ?h, transportHost = ?h, state = SessionStateEstablished, lastErr = None\<rparr>"
  let ?S = "(NewSessionLayer (NewHost 1 ''a'') 0 0)\<lparr>sessions := [?h \<mapsto> ?sc]\<rparr>"
  have "getActiveConn ?h ?t = Some (Some 4)" by (simp add: tcp_defs NewTCPLayer_def Let_def)
  moreover have "live ?S" "mapToHost ?S ?h = ?h" by (simp_all add: NewSessionLayer_def live_def mapToHost_def Let_def)
  moreover have "connectionRetries one_proto ?h = None" by (simp add: one_proto_defs)
  ultimately show ?thesis
    using failed_write_never_announced [of ?h ?t 4 ?S ?sc one_proto "\<lparr>tm_Host = ?h, tm_Msg = []\<rparr>" 0 0] by (simp add: Let_def)
qed

end
