(* ===== verification/Node.thy ===== *)
theory Node
  imports End_To_End "HOL-Library.Sublist"
begin

text \<open>
  A whole node: the runtime, its session layer and its transport, with the goroutines that carry data
  between them. Requests of the runtime and calls of the session layer are taken in the order they were
  handed over, one at a time; the dispatcher (\<^verbatim>\<open>Runtime.eventHandler\<close>) and the session-event pump
  (\<^verbatim>\<open>Runtime.startSessionEvents\<close>) take from the session layer's output channels. \<open>n_taken\<close> and
  \<open>n_dispatched\<close> are the traces of the messages the session layer has taken from the transport and of those
  the dispatcher has processed.
\<close>

record ('h, 'v, 'u) Node =
  n_rt :: "('h, 'v, 'u) Runtime"
  n_session :: SessionLayer
  n_tcp :: TCPLayer
  n_pump :: bool
  n_requests :: "session_input list"
  n_calls :: "transport_call list"
  n_log :: "(conn \<times> byte list) list"
  n_taken :: "TMessage list"
  n_dispatched :: "SessionMessage list"

definition NewNode :: "('h, 'v, 'u) Runtime \<Rightarrow> int \<Rightarrow> int \<Rightarrow> int \<Rightarrow> bool \<Rightarrow> ('h, 'v, 'u) Node" where
  "NewNode r eb mb tb listen =
     \<lparr>n_rt = r, n_session = NewSessionLayer (rt_self r) eb mb, n_tcp = NewTCPLayer (rt_self r) tb listen,
      n_pump = True, n_requests = [], n_calls = [], n_log = [], n_taken = [], n_dispatched = []\<rparr>"

definition SessionMessage_Host :: "SessionMessage \<Rightarrow> Host" where
  "SessionMessage_Host m = sm_host m"

section \<open>Goroutines between the layers\<close>

text \<open>One round of the dispatcher and of the pump; \<^term>\<open>None\<close> when there is nothing to take. The pump ends
  when an event could not be delivered.\<close>

definition rt_eventHandler :: "('h, 'v, 'u) Node \<Rightarrow> (unit, ('h, 'v, 'u) Node) outcome option" where
  "rt_eventHandler n =
     recv (outMessages (n_session n)) (\<lambda>m ch.
       let n1 = n\<lparr>n_session := (n_session n)\<lparr>outMessages := ch\<rparr>, n_dispatched := n_dispatched n @ [m]\<rparr>
       in case processMessage (sm_Msg m) (SessionMessage_Host m) (n_rt n) of
            Return _ r \<Rightarrow> Return () (n1\<lparr>n_rt := r\<rparr>)
          | Block r \<Rightarrow> Block (n1\<lparr>n_rt := r\<rparr>)
          | Panic msg r \<Rightarrow> Panic msg (n1\<lparr>n_rt := r\<rparr>))"

definition startSessionEvents :: "real \<Rightarrow> ('h, 'v, 'u) Node \<Rightarrow> (unit, ('h, 'v, 'u) Node) outcome option" where
  "startSessionEvents rnd n =
     (if \<not> n_pump n then None
      else recv (outChannelEvents (n_session n)) (\<lambda>ev ch.
        let n1 = n\<lparr>n_session := (n_session n)\<lparr>outChannelEvents := ch\<rparr>\<rparr>
        in case dispatchSessionEvent rnd ev (n_rt n) of
             Return ok r \<Rightarrow> Return () (n1\<lparr>n_rt := r, n_pump := ok\<rparr>)
           | Block r \<Rightarrow> Block (n1\<lparr>n_rt := r\<rparr>)
           | Panic msg r \<Rightarrow> Panic msg (n1\<lparr>n_rt := r\<rparr>)))"

text \<open>A call of the session layer on the transport that opens no connection: a dial fails, a write does what
  the socket does.\<close>

primrec tcp_request_of :: "write_result \<Rightarrow> transport_call \<Rightarrow> tcp_request" where
  "tcp_request_of wr (TConnect h) = TcpConnect h None"
| "tcp_request_of wr (TDisconnect h) = TcpDisconnect h"
| "tcp_request_of wr (TSend m h) = TcpSend m h wr"

text \<open>The three channels of the session layer the runtime writes to.\<close>

primrec from_runtime :: "session_input \<Rightarrow> bool" where
  "from_runtime (FromTransport m) = False"
| "from_runtime (TransportEvent ev) = False"
| "from_runtime (ConnectReq h) = True"
| "from_runtime (DisconnectReq h) = True"
| "from_runtime (SendReq bs h) = True"

definition data_round :: "read_result \<Rightarrow> bool" where
  "data_round rr \<longleftrightarrow> (case rr of ReadData bs \<Rightarrow> True | _ \<Rightarrow> False)"

text \<open>Steps without news from the network. Several goroutines of the runtime may wait to hand over a request;
  any of them may be next. A request or call is dropped when the layer that should take it was cancelled.\<close>

inductive node_local :: "'v go_values \<Rightarrow> ('h, 'v, 'u) user_code \<Rightarrow> ('h, 'v, 'u) Node \<Rightarrow> ('h, 'v, 'u) Node \<Rightarrow> bool"
  for env run where
  runtime: "rt_local env run (n_rt n) r \<Longrightarrow> node_local env run n (n\<lparr>n_rt := r\<rparr>)"
| request: "sessionLayer (n_rt n) = Some (is @ i # js) \<Longrightarrow> from_runtime i \<Longrightarrow>
    node_local env run n (n\<lparr>n_rt := (n_rt n)\<lparr>sessionLayer := Some (is @ js)\<rparr>,
      n_session := handle_input i (n_session n), n_requests := n_requests n @ [i]\<rparr>)"
| drops: "sessionLayer (n_rt n) = Some (is @ i # js) \<Longrightarrow> ctxDone (n_session n) \<Longrightarrow>
    node_local env run n (n\<lparr>n_rt := (n_rt n)\<lparr>sessionLayer := Some (is @ js)\<rparr>\<rparr>)"
| call: "transport (n_session n) = c # cs \<Longrightarrow>
    node_local env run n (n\<lparr>n_session := (n_session n)\<lparr>transport := cs\<rparr>,
      n_tcp := tcp_handler (tcp_request_of wr c) (n_tcp n), n_calls := n_calls n @ [c]\<rparr>)"
| call_drops: "transport (n_session n) = c # cs \<Longrightarrow> tcp_ctxDone (n_tcp n) \<Longrightarrow>
    node_local env run n (n\<lparr>n_session := (n_session n)\<lparr>transport := cs\<rparr>\<rparr>)"
| transport_event: "chan_buf (outEvents (n_tcp n)) = ev # evs \<Longrightarrow>
    node_local env run n (n\<lparr>n_tcp := (n_tcp n)\<lparr>outEvents := (outEvents (n_tcp n))\<lparr>chan_buf := evs\<rparr>\<rparr>,
      n_session := handle_input (TransportEvent ev) (n_session n)\<rparr>)"
| transport_message: "chan_buf (outChannel (n_tcp n)) = m # ms \<Longrightarrow>
    node_local env run n (n\<lparr>n_tcp := (n_tcp n)\<lparr>outChannel := (outChannel (n_tcp n))\<lparr>chan_buf := ms\<rparr>\<rparr>,
      n_session := handle_input (FromTransport m) (n_session n), n_taken := n_taken n @ [m]\<rparr>)"
| dispatcher: "rt_loops (n_rt n) \<Longrightarrow> rt_eventHandler n = Some (Return () n') \<Longrightarrow> node_local env run n n'"
| pump: "rt_loops (n_rt n) \<Longrightarrow> startSessionEvents rnd n = Some (Return () n') \<Longrightarrow> node_local env run n n'"
| idle_read: "\<not> data_round rr \<Longrightarrow> saw_done \<longrightarrow> tcp_ctxDone (n_tcp n) \<Longrightarrow>
    node_local env run n (n\<lparr>n_tcp := connectionHandler saw_done c rr (n_tcp n)\<rparr>)"
| accept_fails: "listening (n_tcp n) \<Longrightarrow> node_local env run n (n\<lparr>n_tcp := listenerHandler AcceptError (n_tcp n)\<rparr>)"
| tcp_cancel: "node_local env run n (n\<lparr>n_tcp := tcp_Cancel (n_tcp n)\<rparr>)"
| tcp_cleanup: "tcp_ctxDone (n_tcp n) \<Longrightarrow> node_local env run n (n\<lparr>n_tcp := closeOnCtxDone (n_tcp n)\<rparr>)"
| session_cancel: "node_local env run n (n\<lparr>n_session := session_Cancel (n_session n)\<rparr>)"
| session_schedule: "node_local env run n (n\<lparr>n_session := (n_session n)\<lparr>preferDone := b\<rparr>\<rparr>)"

text \<open>News from the network: a dial that succeeds, a connection accepted from a remote address, bytes read.
  Frames are logged with the connection they came from.\<close>

datatype net_label = Dial conn Host | Accept conn Host | Data conn "byte list"

definition pushed :: "TCPLayer \<Rightarrow> TCPLayer \<Rightarrow> byte list list" where
  "pushed t t' = map tm_Msg (drop (length (chan_buf (outChannel t))) (chan_buf (outChannel t')))"

fun node_net :: "net_label \<Rightarrow> ('h, 'v, 'u) Node \<Rightarrow> ('h, 'v, 'u) Node option" where
  "node_net (Dial c h) n =
     (case transport (n_session n) of
        TConnect h' # cs \<Rightarrow>
          if h' = h then Some (n\<lparr>n_session := (n_session n)\<lparr>transport := cs\<rparr>,
            n_tcp := tcp_handler (TcpConnect h (Some c)) (n_tcp n), n_calls := n_calls n @ [TConnect h]\<rparr>)
          else None
      | _ \<Rightarrow> None)"
| "node_net (Accept c host) n =
     (if listening (n_tcp n) then Some (n\<lparr>n_tcp := listenerHandler (Accepted c host) (n_tcp n)\<rparr>) else None)"
| "node_net (Data c bs) n =
     (let t = connectionHandler False c (ReadData bs) (n_tcp n)
      in Some (n\<lparr>n_tcp := t, n_log := n_log n @ map (Pair c) (pushed (n_tcp n) t)\<rparr>))"

text \<open>A connection the operating system returns is a new one.\<close>

definition active_on :: "TCPLayer \<Rightarrow> Host \<Rightarrow> conn \<Rightarrow> bool" where
  "active_on t h c \<longleftrightarrow> activeConnections t h = Some (Some c)"

definition unused_conn :: "TCPLayer \<Rightarrow> conn \<Rightarrow> bool" where
  "unused_conn t c \<longleftrightarrow> handlers t c = None \<and> (\<forall>h. \<not> active_on t h c) \<and> wire t c = []"

primrec fresh_in :: "TCPLayer \<Rightarrow> net_label \<Rightarrow> bool" where
  "fresh_in t (Dial c h) = unused_conn t c"
| "fresh_in t (Accept c h) = unused_conn t c"
| "fresh_in t (Data c bs) = True"

inductive node_step :: "'v go_values \<Rightarrow> ('h, 'v, 'u) user_code \<Rightarrow> ('h, 'v, 'u) Node \<Rightarrow> ('h, 'v, 'u) Node \<Rightarrow> bool"
  for env run where
  alone: "node_local env run n n' \<Longrightarrow> node_step env run n n'"
| net: "node_net l n = Some n' \<Longrightarrow> fresh_in (n_tcp n) l \<Longrightarrow> node_step env run n n'"

abbreviation node_steps :: "'v go_values \<Rightarrow> ('h, 'v, 'u) user_code \<Rightarrow> ('h, 'v, 'u) Node \<Rightarrow> ('h, 'v, 'u) Node \<Rightarrow> bool" where
  "node_steps env run \<equiv> (node_step env run)\<^sup>*\<^sup>*"

text \<open>\<^verbatim>\<open>Runtime.Cancel\<close> on the whole node: it cancels the runtime, then the session layer and the transport it has.
  Other goroutines may run in between, so it is three steps.\<close>

definition node_Cancel :: "('h, 'v, 'u) Node \<Rightarrow> ('h, 'v, 'u) Node" where
  "node_Cancel n =
     (let n1 = n\<lparr>n_rt := Cancel (n_rt n)\<rparr>;
          n2 = (if sessionLayer (n_rt n) = None then n1 else n1\<lparr>n_session := session_Cancel (n_session n1)\<rparr>)
      in if networkLayer (n_rt n) then n2\<lparr>n_tcp := tcp_Cancel (n_tcp n2)\<rparr> else n2)"

lemma node_Cancel_steps: "(node_local env run)\<^sup>*\<^sup>* n (node_Cancel n)"
proof -
  let ?n1 = "n\<lparr>n_rt := Cancel (n_rt n)\<rparr>"
  have 1: "node_local env run n ?n1" by (intro node_local.runtime rt_local.cancels)
  have 2: "(node_local env run)\<^sup>*\<^sup>* m (if b then m else m\<lparr>n_session := session_Cancel (n_session m)\<rparr>)" for b m
    using node_local.session_cancel [of env run m] by auto
  have 3: "(node_local env run)\<^sup>*\<^sup>* m (if b then m\<lparr>n_tcp := tcp_Cancel (n_tcp m)\<rparr> else m)" for b m
    using node_local.tcp_cancel [of env run m] by auto
  show ?thesis unfolding node_Cancel_def Let_def
    by (rule converse_rtranclp_into_rtranclp [of "node_local env run", OF 1], rule rtranclp_trans, rule 2, rule 3)
qed

section \<open>The invariants of the layers hold in the node\<close>

lemma rt_eventHandler_Return:
  "rt_eventHandler n = Some (Return () n') \<Longrightarrow> \<exists>m ms r. chan_buf (outMessages (n_session n)) = m # ms \<and>
     processMessage (sm_Msg m) (sm_host m) (n_rt n) = Return () r \<and>
     n' = n\<lparr>n_session := (n_session n)\<lparr>outMessages := (outMessages (n_session n))\<lparr>chan_buf := ms\<rparr>\<rparr>,
            n_dispatched := n_dispatched n @ [m], n_rt := r\<rparr>"
  by (auto simp: rt_eventHandler_def recv_def SessionMessage_Host_def Let_def split: list.splits outcome.splits)

lemma startSessionEvents_Return:
  "startSessionEvents rnd n = Some (Return () n') \<Longrightarrow> \<exists>ev evs ok r. chan_buf (outChannelEvents (n_session n)) = ev # evs \<and>
     dispatchSessionEvent rnd ev (n_rt n) = Return ok r \<and>
     n' = n\<lparr>n_session := (n_session n)\<lparr>outChannelEvents := (outChannelEvents (n_session n))\<lparr>chan_buf := evs\<rparr>\<rparr>,
            n_rt := r, n_pump := ok\<rparr>"
  by (auto simp: startSessionEvents_def recv_def Let_def split: list.splits outcome.splits if_splits)

lemma node_local_keeps:
  assumes hosted: "hosted_protocols env run" and "node_local env run n n'"
  shows "keeps (n_rt n) (n_rt n')"
  using assms(2)
proof (cases rule: node_local.cases)
  case (runtime r)
  then show ?thesis using rt_local_keeps [OF hosted] by simp
next
  case dispatcher
  then show ?thesis
    using rt_step_keeps [OF hosted rt_step.dispatch] by (fastforce dest!: rt_eventHandler_Return)
next
  case (pump rnd)
  then show ?thesis
    using rt_step_keeps [OF hosted rt_step.pump] by (fastforce dest!: startSessionEvents_Return)
qed (simp_all add: calm_keeps)

text \<open>What the network brings leaves the runtime, and the session layer but for its queue of calls.\<close>

lemma node_net_frame:
  assumes "node_net l n = Some n'"
  shows "n_rt n' = n_rt n \<and> (\<exists>cs. n_session n' = (n_session n)\<lparr>transport := cs\<rparr>) \<and> n_pump n' = n_pump n \<and>
    n_requests n' = n_requests n \<and> n_taken n' = n_taken n \<and> n_dispatched n' = n_dispatched n"
proof -
  have "n_session n = (n_session n)\<lparr>transport := transport (n_session n)\<rparr>" by simp
  then have "\<exists>cs. n_session n = (n_session n)\<lparr>transport := cs\<rparr>" by (rule exI)
  then show ?thesis using assms
    by (cases l) (auto simp: Let_def split: list.splits transport_call.splits if_splits)
qed

lemma node_step_keeps:
  assumes "hosted_protocols env run" and "node_step env run n n'"
  shows "keeps (n_rt n) (n_rt n')"
  using assms(2) by cases (auto dest: node_local_keeps [OF assms(1)] node_net_frame)

lemma session_inv_fields [simp]:
  "session_inv (s\<lparr>transport := cs\<rparr>) = session_inv s" "session_inv (s\<lparr>ctxDone := b\<rparr>) = session_inv s"
  "session_inv (s\<lparr>preferDone := b\<rparr>) = session_inv s"
  by (simp_all add: session_inv_def maps_agree_def)

lemma node_local_session_inv: "node_local env run n n' \<Longrightarrow> session_inv (n_session n) \<Longrightarrow> session_inv (n_session n')"
proof (induction rule: node_local.induct)
  case (dispatcher n n')
  then show ?case by (auto dest!: rt_eventHandler_Return simp: session_inv_def maps_agree_def)
next
  case (pump n rnd n')
  then show ?case by (auto dest!: startSessionEvents_Return simp: session_inv_def maps_agree_def)
qed (simp_all add: handle_input_inv session_inv_fields del: handle_input.simps)

lemma node_step_session_inv: "node_step env run n n' \<Longrightarrow> session_inv (n_session n) \<Longrightarrow> session_inv (n_session n')"
  by (erule node_step.cases) (auto dest: node_local_session_inv node_net_frame)

section \<open>Messages on their way up\<close>

text \<open>The application messages among those that came from the transport.\<close>

definition app_messages :: "TMessage list \<Rightarrow> SessionMessage list" where
  "app_messages ms = filter (\<lambda>m. sm_layer m = Application) (map deserializeMessage ms)"

lemma app_messages_append [simp]: "app_messages (xs @ ys) = app_messages xs @ app_messages ys"
  by (simp add: app_messages_def)

lemma session_output_sel [simp]:
  "outMessages (cleanupServerMapping h s) = outMessages s" "outMessages (setServerMapping t l s) = outMessages s"
  "outMessages (emitEvent ev s) = outMessages s" "outMessages (transport_Send m h s) = outMessages s"
  "outMessages (transport_Connect h s) = outMessages s" "outMessages (transport_Disconnect h s) = outMessages s"
  "ctxDone (cleanupServerMapping h s) = ctxDone s" "ctxDone (setServerMapping t l s) = ctxDone s"
  "ctxDone (emitEvent ev s) = ctxDone s" "ctxDone (transport_Send m h s) = ctxDone s"
  "ctxDone (transport_Connect h s) = ctxDone s" "ctxDone (transport_Disconnect h s) = ctxDone s"
  by (simp_all add: cleanupServerMapping_def setServerMapping_def emitEvent_def transport_Send_def transport_Connect_def
      transport_Disconnect_def split: option.split)

lemmas machine_defs = handleClientConnectRequested_def handleConnected_def handleHandshakeMessage_def
  handleServerHandshake_def handleClientHandshake_def handleDisconnected_def handleFailed_def

lemma machine_output [simp]:
  "outMessages (snd (handleClientConnectRequested sc s)) = outMessages s" "outMessages (snd (handleConnected sc s)) = outMessages s"
  "outMessages (snd (handleHandshakeMessage m sc s)) = outMessages s"
  "outMessages (snd (handleDisconnected sc s)) = outMessages s" "outMessages (snd (handleFailed sc s)) = outMessages s"
  "ctxDone (snd (handleClientConnectRequested sc s)) = ctxDone s" "ctxDone (snd (handleConnected sc s)) = ctxDone s"
  "ctxDone (snd (handleHandshakeMessage m sc s)) = ctxDone s"
  "ctxDone (snd (handleDisconnected sc s)) = ctxDone s" "ctxDone (snd (handleFailed sc s)) = ctxDone s"
  by (simp_all add: machine_defs Let_def split: SessionState.split sum.split HandshakeType.split)

lemma withSession_output [simp]:
  "outMessages (withSession t l f s) = outMessages (snd (f (lookup_session t l s) s))"
  "ctxDone (withSession t l f s) = ctxDone (snd (f (lookup_session t l s) s))"
  by (simp_all add: withSession_def split: prod.split)

lemma event_output [simp]:
  "outMessages (transportEventHandler ev s) = outMessages s" "ctxDone (transportEventHandler ev s) = ctxDone s"
  by (cases ev; simp add: dispatch_defs)+

lemma outMessages_input:
  "outMessages (handle_input i s) =
     (case i of FromTransport m \<Rightarrow>
        if sm_layer (deserializeMessage m) = Application \<and> live s
        then chan_put (deserializeMessage m) (outMessages s) else outMessages s
      | _ \<Rightarrow> outMessages s)"
  "ctxDone (handle_input i s) = ctxDone s"
  by (cases i; simp add: transportMessageHandler_def dispatch_defs session_disconnect_def session_send_def Let_def live_def
      split: LayerIdentifier.split)+

text \<open>What was dispatched and what waits for the dispatcher are the application messages taken from the
  transport, in order; after a cancellation some of them may be missing.\<close>

definition handed_up :: "('h, 'v, 'u) Node \<Rightarrow> bool" where
  "handed_up n \<longleftrightarrow>
     (let up = n_dispatched n @ chan_buf (outMessages (n_session n)) in
      subseq up (app_messages (n_taken n)) \<and>
      (\<not> ctxDone (n_session n) \<longrightarrow> up = app_messages (n_taken n)))"

lemma handed_up_cong:
  "n_dispatched n' = n_dispatched n \<Longrightarrow> n_taken n' = n_taken n \<Longrightarrow> outMessages (n_session n') = outMessages (n_session n) \<Longrightarrow>
   (ctxDone (n_session n) \<Longrightarrow> ctxDone (n_session n')) \<Longrightarrow> handed_up n \<Longrightarrow> handed_up n'"
  by (auto simp: handed_up_def Let_def)

lemma node_local_handed_up: "node_local env run n n' \<Longrightarrow> handed_up n \<Longrightarrow> handed_up n'"
proof (induction rule: node_local.induct)
  case (transport_message n m ms)
  then show ?case
    by (auto simp: handed_up_def Let_def outMessages_input app_messages_def live_def simp del: handle_input.simps
        simp flip: append_assoc intro: subseq_rev_drop_many)
next
  case (dispatcher n n')
  then show ?case by (auto dest!: rt_eventHandler_Return simp: handed_up_def Let_def)
next
  case (pump n rnd n')
  then show ?case by (auto dest!: startSessionEvents_Return simp: handed_up_def Let_def)
next
  case (request n "is" i js)
  then show ?case
    by (cases i) (auto simp: handed_up_def Let_def outMessages_input simp del: handle_input.simps)
qed (erule handed_up_cong [rotated 4]; simp add: outMessages_input del: handle_input.simps)+

lemma node_step_handed_up: "node_step env run n n' \<Longrightarrow> handed_up n \<Longrightarrow> handed_up n'"
  by (erule node_step.cases) (fastforce dest: node_local_handed_up node_net_frame simp: handed_up_def Let_def)+

section \<open>Frames on their way in\<close>

lemma tcp_frame [simp]:
  "handlers (push_event ev t) = handlers t" "wire (push_event ev t) = wire t" "outChannel (push_event ev t) = outChannel t"
  "active_on (push_event ev t) h c = active_on t h c"
  "handlers (tcp_disconnect h t) = handlers t" "wire (tcp_disconnect h t) = wire t" "outChannel (tcp_disconnect h t) = outChannel t"
  "active_on (tcp_disconnect h t) h' c \<longleftrightarrow> h' \<noteq> h \<and> active_on t h' c"
  "wire (push_frames host fs t) = wire t" "active_on (push_frames host fs t) h c = active_on t h c"
  "handlers (push_frames host fs t) = handlers t"
  by (auto simp: tcp_defs active_on_def push_frames_eq split: option.splits)

lemma active_on_update [simp]:
  "active_on (t\<lparr>handlers := hs\<rparr>) h c = active_on t h c" "active_on (t\<lparr>wire := w\<rparr>) h c = active_on t h c"
  "active_on (t\<lparr>TCPLayer.closed := cl\<rparr>) h c = active_on t h c" "active_on (t\<lparr>tcp_ctxDone := b\<rparr>) h c = active_on t h c"
  "active_on (t\<lparr>outEvents := es\<rparr>) h c = active_on t h c" "active_on (t\<lparr>outChannel := oc\<rparr>) h c = active_on t h c"
  "active_on (listenerHandler AcceptError t) h c = active_on t h c" "active_on (closeOnCtxDone t) h c = False" "wire (closeOnCtxDone t) = wire t" "handlers (closeOnCtxDone t) = handlers t"
  "active_on (t\<lparr>activeConnections := (activeConnections t)(k \<mapsto> Some d)\<rparr>) h c \<longleftrightarrow> (if h = k then c = d else active_on t h c)"
  by (auto simp: active_on_def closeOnCtxDone_def)

text \<open>A round of a connection handler: what it changes, and what it pushes.\<close>

lemma conn_round_frame:
  "wire (connectionHandler sd c rr t) = wire t"
  "active_on (connectionHandler sd c rr t) h d \<Longrightarrow> active_on t h d"
  "d \<noteq> c \<Longrightarrow> handlers (connectionHandler sd c rr t) d = handlers t d"
  by (auto simp: connectionHandler_def readFrames_def close_conn_def
      split: option.splits read_result.splits sum.splits prod.splits if_splits)

lemma idle_round:
  assumes "\<not> data_round rr"
  shows "outChannel (connectionHandler sd c rr t) = outChannel t"
    and "handlers (connectionHandler sd c rr t) d \<in> {handlers t d, None}"
  using assms
  by (auto simp: connectionHandler_def readFrames_def data_round_def close_conn_def
      split: option.splits read_result.splits if_splits)

lemma data_round_pushes:
  assumes "handlers t d = Some (host, buf)" and "t' = connectionHandler False d (ReadData bs) t"
  shows "\<exists>fs. pushed t t' = fs \<and>
     chan_buf (outChannel t') = chan_buf (outChannel t) @ map (\<lambda>f. \<lparr>tm_Host = host, tm_Msg = f\<rparr>) fs \<and>
     (case handlers t' d of
        None \<Rightarrow> fs = []
      | Some (h, buf') \<Rightarrow> h = host \<and> buf @ bs = concat (map frame fs) @ buf' \<and>
          (decodeFrames buf = (Inr [], buf) \<longrightarrow> decodeFrames buf' = (Inr [], buf'))) \<and>
     (\<forall>f \<in> set fs. length f \<le> 2 ^ 24)"
  using assms
  by (auto simp: connectionHandler_def readFrames_def pushed_def push_frames_eq comp_def
      split: sum.splits prod.splits dest: decodeFrames_sound decodeFrames_tidy)

lemma no_handler_round: "handlers t d = None \<Longrightarrow> connectionHandler False d rr t = t"
  by (simp add: connectionHandler_def)

lemma conn_round_pushes:
  "map tm_Msg (chan_buf (outChannel (connectionHandler False d (ReadData bs) t))) =
     map tm_Msg (chan_buf (outChannel t)) @ pushed t (connectionHandler False d (ReadData bs) t)"
proof (cases "handlers t d")
  case None
  then show ?thesis by (simp add: no_handler_round pushed_def)
next
  case (Some x)
  then show ?thesis using data_round_pushes [of t d "fst x" "snd x" _ bs, OF _ refl] by (cases x) (auto simp: comp_def)
qed

definition log_ok :: "('h, 'v, 'u) Node \<Rightarrow> bool" where
  "log_ok n \<longleftrightarrow> map snd (n_log n) = map tm_Msg (n_taken n @ chan_buf (outChannel (n_tcp n)))"

lemma tcp_handler_outChannel [simp]: "outChannel (tcp_handler req t) = outChannel t"
  by (cases req) (auto simp: tcp_send_def tcp_connect_def getActiveConn_def addActiveConn_def Let_def
      split: option.splits sum.splits write_result.splits)

lemma node_local_log_ok: "node_local env run n n' \<Longrightarrow> log_ok n \<Longrightarrow> log_ok n'"
proof (induction rule: node_local.induct)
  case (dispatcher n n')
  then show ?case by (auto dest!: rt_eventHandler_Return simp: log_ok_def)
next
  case (pump n rnd n')
  then show ?case by (auto dest!: startSessionEvents_Return simp: log_ok_def)
qed (simp_all add: log_ok_def idle_round closeOnCtxDone_def)

lemma node_net_log_ok: "node_net l n = Some n' \<Longrightarrow> log_ok n \<Longrightarrow> log_ok n'"
  by (cases l) (auto simp: log_ok_def conn_round_pushes listener_accept_def addActiveConn_def Let_def comp_def
      simp del: tcp_handler.simps split: list.splits transport_call.splits if_splits)

lemma node_step_log_ok: "node_step env run n n' \<Longrightarrow> log_ok n \<Longrightarrow> log_ok n'"
  by (erule node_step.cases) (auto dest: node_local_log_ok node_net_log_ok)

section \<open>Messages on their way out\<close>

text \<open>The application payload of a frame, the payloads the runtime asked to send and the frames the session
  layer handed to the transport.\<close>

definition app_payload :: "byte list \<Rightarrow> byte list option" where
  "app_payload f = (case f of [] \<Rightarrow> Some [] | b # p \<Rightarrow> if b = 0 then Some p else None)"

abbreviation app_payloads :: "byte list list \<Rightarrow> byte list list" where
  "app_payloads \<equiv> List.map_filter app_payload"

definition sent_payloads :: "session_input list \<Rightarrow> byte list list" where
  "sent_payloads = List.map_filter (\<lambda>i. case i of SendReq bs h \<Rightarrow> Some bs | _ \<Rightarrow> None)"

definition handed :: "transport_call list \<Rightarrow> byte list list" where
  "handed = List.map_filter (\<lambda>c. case c of TSend m h \<Rightarrow> Some (tm_Msg m) | _ \<Rightarrow> None)"

lemma map_filter_append [simp]: "List.map_filter f (xs @ ys) = List.map_filter f xs @ List.map_filter f ys"
  by (simp add: List.map_filter_def)

lemma subseq_map_filter: "subseq xs ys \<Longrightarrow> subseq (List.map_filter f xs) (List.map_filter f ys)"
  by (simp add: List.map_filter_def subseq_map)

lemma sent_handed_simps [simp]:
  "sent_payloads [] = []" "sent_payloads (xs @ ys) = sent_payloads xs @ sent_payloads ys" "sent_payloads [SendReq bs h] = [bs]"
  "sent_payloads [ConnectReq h] = []" "sent_payloads [DisconnectReq h] = []"
  "handed [] = []" "handed (cs @ ds) = handed cs @ handed ds"
  "handed (TConnect h # cs) = handed cs" "handed (TDisconnect h # cs) = handed cs" "handed (TSend m h # cs) = tm_Msg m # handed cs"
  by (simp_all add: sent_payloads_def handed_def List.map_filter_simps)

lemma app_payloads_messages: "map sm_Msg (app_messages ms) = app_payloads (map tm_Msg ms)"
  by (induction ms)
     (auto simp: app_messages_def app_payload_def deserializeMessage_def LayerIdentifier_of_byte_def List.map_filter_simps
       split: list.split)

text \<open>A turn of the session layer hands over at most the one application message it was asked to send; what
  the handshake sends is not an application message.\<close>

lemma session_transport_sel [simp]:
  "transport (transport_Send m h s) = transport s @ [TSend m h]" "transport (transport_Connect h s) = transport s @ [TConnect h]"
  "transport (transport_Disconnect h s) = transport s @ [TDisconnect h]"
  by (simp_all add: transport_Send_def transport_Connect_def transport_Disconnect_def)

lemma session_layer_frame [simp]:
  "app_payload (tm_Msg (serializeMessage \<lparr>sm_host = h, sm_layer = Session, sm_Msg = p\<rparr>)) = None"
  "app_payload (tm_Msg (serializeMessage \<lparr>sm_host = h, sm_layer = Application, sm_Msg = p\<rparr>)) = Some p"
  by (simp_all add: serializeMessage_def NewMessage_def app_payload_def)

lemma machine_transport:
  "app_payloads (handed (transport (snd (handleClientConnectRequested sc s)))) = app_payloads (handed (transport s))"
  "app_payloads (handed (transport (snd (handleConnected sc s)))) = app_payloads (handed (transport s))"
  "app_payloads (handed (transport (snd (handleHandshakeMessage m sc s)))) = app_payloads (handed (transport s))"
  "app_payloads (handed (transport (snd (handleDisconnected sc s)))) = app_payloads (handed (transport s))"
  "app_payloads (handed (transport (snd (handleFailed sc s)))) = app_payloads (handed (transport s))"
  by (simp_all add: machine_defs Let_def List.map_filter_simps split: SessionState.split sum.split HandshakeType.split)

lemma withSession_transport [simp]: "transport (withSession t l f s) = transport (snd (f (lookup_session t l s) s))"
  by (simp add: withSession_def split: prod.split)

lemma transport_input:
  "app_payloads (handed (transport (handle_input i s))) =
     app_payloads (handed (transport s)) @ (case i of SendReq bs h \<Rightarrow> [bs] | _ \<Rightarrow> [])"
proof (cases i)
  case (TransportEvent ev)
  then show ?thesis by (cases ev) (simp_all add: dispatch_defs machine_transport)
qed (simp_all add: dispatch_defs machine_transport transportMessageHandler_def session_disconnect_def session_send_def Let_def
      List.map_filter_simps split: LayerIdentifier.split)

text \<open>What was handed to the transport and what waits for it are the messages the runtime sent, in order; once
  the transport is cancelled some may be missing.\<close>

definition requests_ok :: "('h, 'v, 'u) Node \<Rightarrow> bool" where
  "requests_ok n \<longleftrightarrow>
     (let out = app_payloads (handed (n_calls n)) @ app_payloads (handed (transport (n_session n))) in
      subseq out (sent_payloads (n_requests n)) \<and>
      (\<not> tcp_ctxDone (n_tcp n) \<longrightarrow> out = sent_payloads (n_requests n)))"

lemma handed_Cons: "handed (c # cs) = handed [c] @ handed cs"
  by (simp flip: sent_handed_simps(7))

lemma requests_ok_drop:
  assumes "requests_ok n" and "transport (n_session n) = c # cs"
  shows "subseq (app_payloads (handed (n_calls n)) @ app_payloads (handed cs)) (sent_payloads (n_requests n))"
proof -
  have "subseq (app_payloads (handed (n_calls n)) @ app_payloads (handed cs))
      (app_payloads (handed (n_calls n)) @ app_payloads (handed (c # cs)))"
    by (simp add: handed_Cons [of c cs] subseq_append' list_emb_append2)
  then show ?thesis by (rule subseq_order.trans) (use assms in \<open>simp add: requests_ok_def Let_def\<close>)
qed

lemma tcp_done_base [simp]:
  "tcp_ctxDone (push_event ev t) = tcp_ctxDone t" "tcp_ctxDone (close_conn k t) = tcp_ctxDone t"
  "tcp_ctxDone (push_frames h fs t) = tcp_ctxDone t" "tcp_ctxDone (tcp_disconnect h t) = tcp_ctxDone t"
  by (auto simp: push_event_def close_conn_def push_frames_eq tcp_disconnect_def removeActiveConn_def split: option.split)

lemma tcp_done_frame [simp]:
  "tcp_ctxDone (tcp_handler req t) = tcp_ctxDone t" "tcp_ctxDone (connectionHandler sd c rr t) = tcp_ctxDone t"
  "tcp_ctxDone (closeOnCtxDone t) = tcp_ctxDone t" "tcp_ctxDone (listener_accept c h t) = tcp_ctxDone t"
proof -
  show "tcp_ctxDone (tcp_handler req t) = tcp_ctxDone t"
    by (cases req) (auto simp: tcp_send_def tcp_connect_def addActiveConn_def Let_def split: option.split sum.split write_result.split)
  show "tcp_ctxDone (connectionHandler sd c rr t) = tcp_ctxDone t"
    by (auto simp: connectionHandler_def readFrames_def split: option.split sum.splits prod.splits read_result.splits if_splits)
qed (simp_all add: closeOnCtxDone_def listener_accept_def addActiveConn_def Let_def)

lemma node_local_requests_ok: "node_local env run n n' \<Longrightarrow> requests_ok n \<Longrightarrow> requests_ok n'"
proof (induction rule: node_local.induct)
  case (request n "is" i js)
  then show ?case
    by (cases i) (auto simp: requests_ok_def Let_def transport_input simp del: handle_input.simps simp flip: append_assoc
        intro: subseq_rev_drop_many)
next
  case (call n c cs wr)
  then show ?case by (simp add: requests_ok_def Let_def handed_Cons [of c cs] del: tcp_handler.simps)
next
  case (call_drops n c cs)
  then show ?case using requests_ok_drop [OF call_drops(3,1)] by (simp add: requests_ok_def)
next
  case (dispatcher n n')
  then show ?case by (auto dest!: rt_eventHandler_Return simp: requests_ok_def)
next
  case (pump n rnd n')
  then show ?case by (auto dest!: startSessionEvents_Return simp: requests_ok_def)
qed (simp_all add: requests_ok_def Let_def transport_input del: handle_input.simps)

lemma node_net_requests_ok: "node_net l n = Some n' \<Longrightarrow> requests_ok n \<Longrightarrow> requests_ok n'"
  by (cases l) (auto simp: requests_ok_def Let_def simp del: tcp_handler.simps
      split: list.splits transport_call.splits if_splits)

lemma node_step_requests_ok: "node_step env run n n' \<Longrightarrow> requests_ok n \<Longrightarrow> requests_ok n'"
  by (erule node_step.cases) (auto dest: node_local_requests_ok node_net_requests_ok)

section \<open>Bytes on the wire\<close>

text \<open>What was written to a connection is the encoding of messages the session layer handed over, in order;
  a write that failed may leave the beginning of one more, and nothing follows it.\<close>

definition cut :: "byte list \<Rightarrow> bool" where
  "cut rest \<longleftrightarrow> (\<exists>q. length q < 2 ^ 32 \<and> strict_prefix rest (frame q))"

definition framed :: "byte list \<Rightarrow> byte list list \<Rightarrow> byte list \<Rightarrow> bool" where
  "framed w ps rest \<longleftrightarrow> w = concat (map frame ps) @ rest \<and> list_all (\<lambda>p. length p < 2 ^ 32) ps \<and> cut rest"

definition wire_ok :: "('h, 'v, 'u) Node \<Rightarrow> bool" where
  "wire_ok n \<longleftrightarrow>
     (\<forall>h h' c. active_on (n_tcp n) h c \<longrightarrow> active_on (n_tcp n) h' c \<longrightarrow> h' = h) \<and>
     (\<forall>c. \<exists>ps rest. framed (wire (n_tcp n) c) ps rest \<and> subseq ps (handed (n_calls n)) \<and>
        (rest \<noteq> [] \<longrightarrow> (\<forall>h. \<not> active_on (n_tcp n) h c)))"

lemma length_frame [simp]: "length (frame p) = 4 + length p"
  by (simp add: frame_def be_put_def)

lemma cut_Nil [simp]: "cut []"
  unfolding cut_def by (rule exI [of _ "[]"]) (auto simp: strict_prefix_def dest: arg_cong [where f = length])

lemma framed_Nil: "framed [] [] []"
  by (simp add: framed_def)

text \<open>Adding the first \<open>k\<close> bytes of a frame after whole frames.\<close>

lemma framed_write:
  assumes "framed w ps []" and "length p < 2 ^ 32"
  shows "framed (w @ frame p) (ps @ [p]) []" and "k < length (frame p) \<Longrightarrow> framed (w @ take k (frame p)) ps (take k (frame p))"
  using assms
  by (auto simp: framed_def cut_def strict_prefix_def take_is_prefix intro!: exI [of _ p] dest!: arg_cong [where f = length])

lemma wire_ok_quiet:
  assumes "wire_ok n" and "wire (n_tcp n') = wire (n_tcp n)" and "\<And>h c. active_on (n_tcp n') h c \<Longrightarrow> active_on (n_tcp n) h c"
    and "\<exists>cs. n_calls n' = n_calls n @ cs"
  shows "wire_ok n'"
proof -
  from assms(4) obtain cs where cs: "handed (n_calls n') = handed (n_calls n) @ handed cs" by auto
  then show ?thesis using assms(1-3) unfolding wire_ok_def cs by (metis subseq_rev_drop_many)
qed

lemma encodeFrame_eq:
  "encodeFrame p = (if length p < 2 ^ 32 then Inr (frame p) else Inl (Errorf ''payload too large: %d bytes'' []))"
  by (auto simp: encodeFrame_frame) (simp add: encodeFrame_def unsigned_minus_1_eq_mask mask_eq_exp_minus_1)

definition written :: "write_result \<Rightarrow> byte list \<Rightarrow> byte list" where
  "written wr p = (case wr of WriteOK \<Rightarrow> frame p | WriteError k \<Rightarrow> take k (frame p))"

lemma tcp_send_wire:
  "wire (tcp_send wr m h t) d =
     (if active_on t h d \<and> length (tm_Msg m) < 2 ^ 32 then wire t d @ written wr (tm_Msg m) else wire t d)"
  by (auto simp: tcp_send_def getActiveConn_def active_on_def encodeFrame_eq written_def split: option.split write_result.split)

lemma tcp_send_active:
  "active_on (tcp_send wr m h t) h' d \<longleftrightarrow>
     active_on t h' d \<and> (h' \<noteq> h \<or> wr = WriteOK \<and> length (tm_Msg m) < 2 ^ 32)"
  by (auto simp: tcp_send_def getActiveConn_def encodeFrame_eq split: option.split write_result.split)
     (auto simp: active_on_def)

lemma framed_written:
  assumes "framed w ps []" and "length p < 2 ^ 32"
  obtains ps' rest where "framed (w @ written wr p) ps' rest" and "ps' = ps \<or> ps' = ps @ [p]" and "wr = WriteOK \<Longrightarrow> rest = []"
proof (cases wr)
  case WriteOK
  then show ?thesis using that [of "ps @ [p]" "[]"] framed_write(1) [OF assms] by (simp add: written_def)
next
  case (WriteError k)
  show ?thesis
  proof (cases "k < length (frame p)")
    case True
    then show ?thesis using that [of ps "take k (frame p)"] framed_write(2) [OF assms True] WriteError by (simp add: written_def)
  next
    case False
    then show ?thesis using that [of "ps @ [p]" "[]"] framed_write(1) [OF assms] WriteError by (simp add: written_def)
  qed
qed

lemma wire_ok_send:
  assumes n: "wire_ok n" and n': "n_tcp n' = tcp_send wr m h (n_tcp n)" "n_calls n' = n_calls n @ [TSend m h]"
  shows "wire_ok n'"
proof -
  let ?t = "n_tcp n"
  have one: "h' = k" if "active_on ?t h' c" "active_on ?t k c" for h' k c
    using n that unfolding wire_ok_def by blast
  have "\<exists>ps rest. framed (wire (n_tcp n') c) ps rest \<and> subseq ps (handed (n_calls n')) \<and>
      (rest \<noteq> [] \<longrightarrow> (\<forall>k. \<not> active_on (n_tcp n') k c))" for c
  proof -
    from n obtain ps rest where ps: "framed (wire ?t c) ps rest" "subseq ps (handed (n_calls n))"
      "rest \<noteq> [] \<longrightarrow> (\<forall>k. \<not> active_on ?t k c)" unfolding wire_ok_def by blast
    show ?thesis
    proof (cases "active_on ?t h c \<and> length (tm_Msg m) < 2 ^ 32")
      case False
      then have "wire (n_tcp n') c = wire ?t c" by (simp only: n' tcp_send_wire if_False)
      then show ?thesis using ps by (intro exI [of _ ps] exI [of _ rest]) (auto simp: n' tcp_send_active intro: subseq_rev_drop_many)
    next
      case True
      then have "framed (wire ?t c) ps []" using ps by auto
      then obtain qs r where q: "framed (wire ?t c @ written wr (tm_Msg m)) qs r" "qs = ps \<or> qs = ps @ [tm_Msg m]" "wr = WriteOK \<Longrightarrow> r = []"
        using framed_written True by metis
      moreover have "wire (n_tcp n') c = wire ?t c @ written wr (tm_Msg m)" using True by (simp only: n' tcp_send_wire if_True simp_thms)
      moreover have "\<not> active_on (n_tcp n') k c" if "r \<noteq> []" for k
        using that q(3) one [of h c k] True by (auto simp: n' tcp_send_active)
      moreover have "subseq qs (handed (n_calls n'))" using q(2) ps(2) by (auto simp: n' intro: subseq_rev_drop_many)
      ultimately show ?thesis by metis
    qed
  qed
  moreover have "k = h'" if "active_on (n_tcp n') h' c" "active_on (n_tcp n') k c" for h' k c
    using one [of k c h'] that by (simp add: n' tcp_send_active)
  ultimately show ?thesis unfolding wire_ok_def by blast
qed

lemma node_local_wire_ok: "node_local env run n n' \<Longrightarrow> wire_ok n \<Longrightarrow> wire_ok n'"
proof (induction rule: node_local.induct)
  case (call n c cs wr)
  show ?case
  proof (cases c)
    case (TSend m h)
    then show ?thesis by (intro wire_ok_send [OF call(2)]) simp_all
  qed (rule wire_ok_quiet [OF call(2)]; simp add: tcp_connect_def)+
next
  case (dispatcher n n')
  then show ?case by (auto dest!: rt_eventHandler_Return simp: wire_ok_def)
next
  case (pump n rnd n')
  then show ?case by (auto dest!: startSessionEvents_Return simp: wire_ok_def)
qed (erule wire_ok_quiet; auto simp: conn_round_frame(1) dest: conn_round_frame(2))+

text \<open>A new connection has nothing on its wire yet.\<close>

lemma wire_ok_open:
  assumes "wire_ok n" and "unused_conn (n_tcp n) c" and "wire (n_tcp n') = wire (n_tcp n)"
    and "\<And>h d. active_on (n_tcp n') h d \<longleftrightarrow> (if h = k then d = c else active_on (n_tcp n) h d)"
    and "handed (n_calls n') = handed (n_calls n)"
  shows "wire_ok n'"
  using assms unfolding wire_ok_def unused_conn_def by (metis append_is_Nil_conv framed_def)

lemma node_net_DialE:
  assumes "node_net (Dial c h) n = Some n'"
  obtains cs where "transport (n_session n) = TConnect h # cs"
    and "n' = n\<lparr>n_session := (n_session n)\<lparr>transport := cs\<rparr>, n_tcp := tcp_connect (Some c) h (n_tcp n),
      n_calls := n_calls n @ [TConnect h]\<rparr>"
  using assms by (auto split: list.splits transport_call.splits if_splits)

lemma opened [simp]:
  "wire (tcp_connect (Some c) h t) = wire t" "wire (listener_accept c h t) = wire t"
  "handlers (tcp_connect (Some c) h t) = (handlers t)(c \<mapsto> (h, []))" "handlers (listener_accept c h t) = (handlers t)(c \<mapsto> (h, []))"
  "active_on (tcp_connect (Some c) h t) k d \<longleftrightarrow> (if k = h then d = c else active_on t k d)"
  "active_on (listener_accept c h t) k d \<longleftrightarrow> (if k = h then d = c else active_on t k d)"
  by (simp_all add: tcp_connect_def listener_accept_def addActiveConn_def Let_def)

lemma node_net_wire_ok:
  assumes "node_net l n = Some n'" and "fresh_in (n_tcp n) l" and "wire_ok n"
  shows "wire_ok n'"
proof (cases l)
  case (Dial c h)
  with assms(1) obtain cs where "n' = n\<lparr>n_session := (n_session n)\<lparr>transport := cs\<rparr>, n_tcp := tcp_connect (Some c) h (n_tcp n),
      n_calls := n_calls n @ [TConnect h]\<rparr>" by (metis node_net_DialE)
  then show ?thesis using assms(2) Dial by (intro wire_ok_open [OF assms(3), of c n' h]) simp_all
next
  case (Accept c h)
  with assms(1) have "n' = n\<lparr>n_tcp := listener_accept c h (n_tcp n)\<rparr>" by (simp split: if_splits)
  then show ?thesis using assms(2) Accept by (intro wire_ok_open [OF assms(3), of c n' h]) simp_all
next
  case (Data c bs)
  with assms(1) show ?thesis
    by (intro wire_ok_quiet [OF assms(3)]) (auto simp: Let_def conn_round_frame(1) dest: conn_round_frame(2))
qed

lemma node_step_wire_ok: "node_step env run n n' \<Longrightarrow> wire_ok n \<Longrightarrow> wire_ok n'"
  by (erule node_step.cases) (auto dest: node_local_wire_ok node_net_wire_ok)

section \<open>Reachable nodes\<close>

definition node_ok :: "('h, 'v, 'u) Node \<Rightarrow> bool" where
  "node_ok n \<longleftrightarrow> session_inv (n_session n) \<and> handed_up n \<and> log_ok n \<and> requests_ok n \<and> wire_ok n"

lemma node_step_ok: "node_step env run n n' \<Longrightarrow> node_ok n \<Longrightarrow> node_ok n'"
  unfolding node_ok_def
  using node_step_session_inv node_step_handed_up node_step_log_ok node_step_requests_ok node_step_wire_ok by metis

lemma NewNode_ok: "node_ok (NewNode r eb mb tb l)"
  by (auto simp: node_ok_def NewNode_def NewSessionLayer_def NewTCPLayer_def session_inv_def maps_agree_def handed_up_def
      log_ok_def requests_ok_def wire_ok_def app_messages_def active_on_def make_chan_def Let_def List.map_filter_simps
      intro!: exI [of _ "[]"] framed_Nil)

lemma node_steps_ok: "node_steps env run n n' \<Longrightarrow> node_ok n \<Longrightarrow> node_ok n'"
  by (induction rule: rtranclp_induct) (auto dest: node_step_ok)

lemma node_steps_keeps: "hosted_protocols env run \<Longrightarrow> node_steps env run n n' \<Longrightarrow> keeps (n_rt n) (n_rt n')"
  by (erule rtranclp_induct) (auto intro: keeps_trans node_step_keeps)

section \<open>Schedules\<close>

text \<open>Some steps as functions, to run a node step by step.\<close>

datatype node_act = NRequest | NCall write_result | NEvent | NMessage | NDispatch

fun run_node :: "node_act \<Rightarrow> ('h, 'v, 'u) Node \<Rightarrow> ('h, 'v, 'u) Node option" where
  "run_node NRequest n =
     (case sessionLayer (n_rt n) of
        Some (i # is) \<Rightarrow>
          if from_runtime i then Some (n\<lparr>n_rt := (n_rt n)\<lparr>sessionLayer := Some is\<rparr>,
            n_session := handle_input i (n_session n), n_requests := n_requests n @ [i]\<rparr>) else None
      | _ \<Rightarrow> None)"
| "run_node (NCall wr) n =
     (case transport (n_session n) of
        [] \<Rightarrow> None
      | c # cs \<Rightarrow> Some (n\<lparr>n_session := (n_session n)\<lparr>transport := cs\<rparr>,
          n_tcp := tcp_handler (tcp_request_of wr c) (n_tcp n), n_calls := n_calls n @ [c]\<rparr>))"
| "run_node NEvent n =
     (case chan_buf (outEvents (n_tcp n)) of
        [] \<Rightarrow> None
      | ev # evs \<Rightarrow> Some (n\<lparr>n_tcp := (n_tcp n)\<lparr>outEvents := (outEvents (n_tcp n))\<lparr>chan_buf := evs\<rparr>\<rparr>,
          n_session := handle_input (TransportEvent ev) (n_session n)\<rparr>))"
| "run_node NMessage n =
     (case chan_buf (outChannel (n_tcp n)) of
        [] \<Rightarrow> None
      | m # ms \<Rightarrow> Some (n\<lparr>n_tcp := (n_tcp n)\<lparr>outChannel := (outChannel (n_tcp n))\<lparr>chan_buf := ms\<rparr>\<rparr>,
          n_session := handle_input (FromTransport m) (n_session n), n_taken := n_taken n @ [m]\<rparr>))"
| "run_node NDispatch n = (if rt_loops (n_rt n) then Option.bind (rt_eventHandler n) returned else None)"

lemma run_node_local:
  assumes "run_node act n = Some n'"
  shows "node_local env run n n'"
proof (cases act)
  case NRequest
  with assms obtain i "is" where "sessionLayer (n_rt n) = Some ([] @ i # is)" "from_runtime i"
    "n' = n\<lparr>n_rt := (n_rt n)\<lparr>sessionLayer := Some ([] @ is)\<rparr>, n_session := handle_input i (n_session n), n_requests := n_requests n @ [i]\<rparr>"
    by (auto split: option.splits list.splits if_splits simp del: handle_input.simps)
  then show ?thesis using node_local.request by metis
next
  case NDispatch
  with assms show ?thesis by (auto simp: bind_eq_Some_conv returned_Some intro: node_local.dispatcher split: if_splits)
qed (use assms in \<open>auto intro: node_local.intros split: list.splits simp del: handle_input.simps\<close>)

section \<open>Properties\<close>


definition node_a :: "(nat, nat, unit) Node" where
  "node_a = NewNode ((New (NewHost 1 ''a'') [WithTCPTransport] () False)
     \<lparr>sessionLayer := Some [ConnectReq (NewHost 2 ''b''), SendReq [7, 8] (NewHost 2 ''b'')], rt_loops := True\<rparr>) 0 0 0 True"




end
