(* ===== verification/Cluster.thy ===== *)
theory Cluster
  imports Node
begin

text \<open>
  Nodes connected by a network. A connection has two ends, \<open>2 k\<close> at the node that dialled and \<open>2 k + 1\<close> at the
  node that listens; TCP is a reliable byte stream between them: a read returns some of the bytes written at
  the other end that have not been read yet, at most as many as the read buffer of the code holds. Connections may be lost, writes may fail half way, nodes may be
  cancelled, and all goroutines of all nodes are interleaved. The theorem at the end follows a message from
  the runtime that sent it to the dispatcher that processed it.
\<close>

record ('h, 'v, 'u) cluster =
  nodes :: "nat \<Rightarrow> ('h, 'v, 'u) Node"
  ends :: "conn \<rightharpoonup> nat"
  waiting :: "conn set"
  pos :: "conn \<Rightarrow> nat"
  next_conn :: nat

definition other_end :: "conn \<Rightarrow> conn" where
  "other_end c = (if even c then c + 1 else c - 1)"

abbreviation tcp_of :: "('h, 'v, 'u) cluster \<Rightarrow> nat \<Rightarrow> TCPLayer" where
  "tcp_of s x \<equiv> n_tcp (nodes s x)"

definition cluster_start :: "('h, 'v, 'u) cluster \<Rightarrow> bool" where
  "cluster_start s \<longleftrightarrow> (\<forall>x. \<exists>r eb mb tb l. nodes s x = NewNode r eb mb tb l) \<and>
     ends s = Map.empty \<and> waiting s = {} \<and> pos s = (\<lambda>_. 0) \<and> next_conn s = 0"

text \<open>The bytes a read on end \<open>d\<close> may return: at most \<open>k\<close> of those not read yet.\<close>

definition in_flight :: "('h, 'v, 'u) cluster \<Rightarrow> nat \<Rightarrow> conn \<Rightarrow> byte list" where
  "in_flight s a d = drop (pos s d) (wire (tcp_of s a) (other_end d))"

inductive cluster_step :: "(nat \<Rightarrow> 'v go_values) \<Rightarrow> (nat \<Rightarrow> ('h, 'v, 'u) user_code)
    \<Rightarrow> ('h, 'v, 'u) cluster \<Rightarrow> ('h, 'v, 'u) cluster \<Rightarrow> bool" for env run where
  alone: "node_local (env x) (run x) (nodes s x) n \<Longrightarrow>
    cluster_step env run s (s\<lparr>nodes := (nodes s)(x := n)\<rparr>)"
| dials: "c = 2 * next_conn s \<Longrightarrow> node_net (Dial c h) (nodes s x) = Some n \<Longrightarrow>
    cluster_step env run s (s\<lparr>nodes := (nodes s)(x := n), ends := (ends s)(c \<mapsto> x, c + 1 \<mapsto> y),
      waiting := insert (c + 1) (waiting s), next_conn := next_conn s + 1\<rparr>)"
| accepts: "c \<in> waiting s \<Longrightarrow> ends s c = Some x \<Longrightarrow> node_net (Accept c h) (nodes s x) = Some n \<Longrightarrow>
    cluster_step env run s (s\<lparr>nodes := (nodes s)(x := n), waiting := waiting s - {c}\<rparr>)"
| reads: "ends s d = Some x \<Longrightarrow> ends s (other_end d) = Some a \<Longrightarrow> handlers (tcp_of s x) d \<noteq> None \<Longrightarrow>
    k \<le> readBufSize \<Longrightarrow> bs = take k (in_flight s a d) \<Longrightarrow> node_net (Data d bs) (nodes s x) = Some n \<Longrightarrow>
    cluster_step env run s (s\<lparr>nodes := (nodes s)(x := n), pos := (pos s)(d := pos s d + length bs)\<rparr>)"

abbreviation cluster_steps :: "(nat \<Rightarrow> 'v go_values) \<Rightarrow> (nat \<Rightarrow> ('h, 'v, 'u) user_code)
    \<Rightarrow> ('h, 'v, 'u) cluster \<Rightarrow> ('h, 'v, 'u) cluster \<Rightarrow> bool" where
  "cluster_steps env run \<equiv> (cluster_step env run)\<^sup>*\<^sup>*"

section \<open>Connections\<close>

text \<open>What belongs to a connection is found at the node that holds its end.\<close>

definition concerns :: "('h, 'v, 'u) Node \<Rightarrow> conn \<Rightarrow> bool" where
  "concerns n c \<longleftrightarrow> handlers (n_tcp n) c \<noteq> None \<or> (\<exists>h. active_on (n_tcp n) h c) \<or> wire (n_tcp n) c \<noteq> [] \<or>
     c \<in> fst ` set (n_log n)"

definition conns_ok :: "('h, 'v, 'u) cluster \<Rightarrow> bool" where
  "conns_ok s \<longleftrightarrow> (\<forall>x c. concerns (nodes s x) c \<longrightarrow> ends s c = Some x \<and> c \<notin> waiting s) \<and>
     (\<forall>c. c \<ge> 2 * next_conn s \<longrightarrow> ends s c = None) \<and> (\<forall>c. ends s c = None \<or> c \<in> waiting s \<longrightarrow> pos s c = 0) \<and>
     (\<forall>c. ends s c = None \<longrightarrow> ends s (other_end c) = None \<and> c \<notin> waiting s)"

lemma conns_okD:
  assumes "conns_ok s" and "concerns (nodes s x) c"
  shows "ends s c = Some x" and "c \<notin> waiting s"
  using assms unfolding conns_ok_def by blast+

lemma unconcerned:
  assumes "\<not> concerns n c"
  shows "unused_conn (n_tcp n) c" and "wire (n_tcp n) c = []" and "handlers (n_tcp n) c = None" and "c \<notin> fst ` set (n_log n)"
  using assms unfolding concerns_def unused_conn_def by auto

text \<open>A step of a node without news from the network.\<close>

definition quiet :: "('h, 'v, 'u) Node \<Rightarrow> ('h, 'v, 'u) Node \<Rightarrow> bool" where
  "quiet n n' \<longleftrightarrow> n_log n' = n_log n \<and> (\<forall>c. handlers (n_tcp n') c \<in> {handlers (n_tcp n) c, None}) \<and>
     (\<forall>h c. active_on (n_tcp n') h c \<longrightarrow> active_on (n_tcp n) h c) \<and>
     (\<forall>c. \<exists>w. wire (n_tcp n') c = wire (n_tcp n) c @ w \<and> (w \<noteq> [] \<longrightarrow> (\<exists>h. active_on (n_tcp n) h c)))"

lemma quiet_same: "n_log n' = n_log n \<Longrightarrow> n_tcp n' = n_tcp n \<Longrightarrow> quiet n n'"
  by (simp add: quiet_def)

lemma tcp_handler_quiet:
  "handlers (tcp_handler (tcp_request_of wr c) t) = handlers t"
  "active_on (tcp_handler (tcp_request_of wr c) t) h d \<Longrightarrow> active_on t h d"
  "\<exists>w. wire (tcp_handler (tcp_request_of wr c) t) d = wire t d @ w \<and> (w \<noteq> [] \<longrightarrow> (\<exists>h. active_on t h d))"
  by (cases c; auto simp: tcp_connect_def tcp_send_active tcp_send_wire;
      auto simp: tcp_send_def split: option.split sum.split write_result.split)+

lemma node_local_quiet: "node_local env run n n' \<Longrightarrow> quiet n n'"
proof (induction rule: node_local.induct)
  case (dispatcher n n')
  then show ?case by (auto dest!: rt_eventHandler_Return intro: quiet_same)
next
  case (pump n rnd n')
  then show ?case by (auto dest!: startSessionEvents_Return intro: quiet_same)
next
  case (call n c cs wr)
  show ?case using tcp_handler_quiet [of wr c "n_tcp n"] by (auto simp: quiet_def)
next
  case (idle_read rr sd n c)
  then show ?case
    using idle_round(2) [OF idle_read(1), of sd c "n_tcp n"]
    by (auto simp: quiet_def conn_round_frame(1) dest: conn_round_frame(2))
qed (simp_all add: quiet_def)

lemma quiet_concerns: "quiet n n' \<Longrightarrow> concerns n' c \<Longrightarrow> concerns n c"
  unfolding quiet_def concerns_def by (metis append_self_conv2 insertE singletonD)

section \<open>Byte streams\<close>

definition tagged :: "conn \<Rightarrow> (conn \<times> byte list) list \<Rightarrow> byte list list" where
  "tagged d xs = map snd (filter (\<lambda>x. fst x = d) xs)"

lemma tagged_simps [simp]:
  "tagged d [] = []" "tagged d (xs @ ys) = tagged d xs @ tagged d ys"
  "tagged d (map (Pair c) fs) = (if c = d then fs else [])"
  by (simp_all add: tagged_def filter_map comp_def)

lemma tagged_none: "d \<notin> fst ` set xs \<Longrightarrow> tagged d xs = []"
  by (force simp: tagged_def filter_empty_conv)

text \<open>The frames received on an end, and the bytes waiting in its receive buffer, are the bytes read so far.\<close>

definition end_ok :: "TCPLayer \<Rightarrow> byte list list \<Rightarrow> nat \<Rightarrow> conn \<Rightarrow> byte list \<Rightarrow> bool" where
  "end_ok t got p d w \<longleftrightarrow> list_all (\<lambda>f. length f \<le> 2 ^ 24) got \<and>
     prefix (concat (map frame got)) w \<and>
     (\<forall>h buf. handlers t d = Some (h, buf) \<longrightarrow> p \<le> length w \<and> take p w = concat (map frame got) @ buf \<and>
        decodeFrames buf = (Inr [], buf))"

definition streams_ok :: "('h, 'v, 'u) cluster \<Rightarrow> bool" where
  "streams_ok s \<longleftrightarrow> (\<forall>d x a. ends s d = Some x \<longrightarrow> ends s (other_end d) = Some a \<longrightarrow>
     end_ok (tcp_of s x) (tagged d (n_log (nodes s x))) (pos s d) d (wire (tcp_of s a) (other_end d)))"

lemma end_ok_grows:
  assumes "end_ok t got p d w" and "handlers t' d \<in> {handlers t d, None}" and "w' = w @ v"
  shows "end_ok t' got p d w'"
  using assms unfolding end_ok_def by auto

lemma end_ok_new: "handlers t d = Some (h, []) \<or> handlers t d = None \<Longrightarrow> end_ok t [] 0 d w"
  by (auto simp: end_ok_def fr.dec_nil)

text \<open>A read takes the next bytes.\<close>

lemma end_ok_read:
  assumes ok: "end_ok t got p d w" and h: "handlers t d \<noteq> None" and bs: "bs = take k (drop p w)"
    and t': "t' = connectionHandler False d (ReadData bs) t"
  shows "end_ok t' (got @ pushed t t') (p + length bs) d w"
proof -
  from h obtain host buf where hd: "handlers t d = Some (host, buf)" by auto
  from data_round_pushes [OF hd t'] have small: "\<forall>f \<in> set (pushed t t'). length f \<le> 2 ^ 24"
    and rest: "case handlers t' d of None \<Rightarrow> pushed t t' = []
      | Some (h, buf') \<Rightarrow> h = host \<and> buf @ bs = concat (map frame (pushed t t')) @ buf' \<and>
          (decodeFrames buf = (Inr [], buf) \<longrightarrow> decodeFrames buf' = (Inr [], buf'))" by auto
  from ok hd have le: "p \<le> length w" and read: "take p w = concat (map frame got) @ buf"
    and tidy: "decodeFrames buf = (Inr [], buf)" by (auto simp: end_ok_def)
  have len: "p + length bs \<le> length w" using le by (simp add: bs)
  have "take (p + length bs) w = take p w @ bs" using le by (simp add: bs take_add min_def)
  then have more: "take (p + length bs) w = concat (map frame got) @ buf @ bs" by (simp add: read)
  show ?thesis
  proof (cases "handlers t' d")
    case None
    with rest have "pushed t t' = []" by simp
    with None ok show ?thesis by (simp add: end_ok_def)
  next
    case (Some y)
    then obtain buf' where y: "handlers t' d = Some (host, buf')" "buf @ bs = concat (map frame (pushed t t')) @ buf'"
      "decodeFrames buf' = (Inr [], buf')"
      using rest tidy by (cases y) auto
    with more have "take (p + length bs) w = concat (map frame (got @ pushed t t')) @ buf'" by simp
    moreover from this have "prefix (concat (map frame (got @ pushed t t'))) (take (p + length bs) w)" by (metis prefixI)
    then have "prefix (concat (map frame (got @ pushed t t'))) w" using prefix_order.trans take_is_prefix by blast
    ultimately show ?thesis using ok small y(1,3) len by (auto simp: end_ok_def list_all_iff)
  qed
qed

lemma other_end_simps [simp]: "other_end (other_end c) = c" "other_end c \<noteq> c" "other_end (2 * k) = 2 * k + 1" "other_end (2 * k + 1) = 2 * k"
  "other_end (Suc (2 * k)) = 2 * k"
  by (auto simp: other_end_def) presburger+

lemma conns_ok_fresh:
  assumes "conns_ok s" and "ends s c = None \<or> c \<in> waiting s"
  shows "\<not> concerns (nodes s x) c" and "pos s c = 0"
  using assms unfolding conns_ok_def by auto

lemma cluster_fresh:
  assumes "conns_ok s" and "node_net l (nodes s x) = Some n"
    and "case l of Dial c h \<Rightarrow> c = 2 * next_conn s | Accept c h \<Rightarrow> c \<in> waiting s | Data d bs \<Rightarrow> True"
  shows "fresh_in (tcp_of s x) l"
proof (cases l)
  case (Dial c h)
  with assms(1,3) have "ends s c = None" by (simp add: conns_ok_def)
  with Dial show ?thesis using unconcerned(1) [OF conns_ok_fresh(1) [OF assms(1)]] by simp
next
  case (Accept c h)
  with assms(3) show ?thesis using unconcerned(1) [OF conns_ok_fresh(1) [OF assms(1)]] by simp
qed simp

section \<open>The invariant of the network\<close>

lemma conns_ok_quiet:
  "conns_ok s \<Longrightarrow> quiet (nodes s x) n \<Longrightarrow> conns_ok (s\<lparr>nodes := (nodes s)(x := n)\<rparr>)"
  unfolding conns_ok_def by (auto dest: quiet_concerns)

lemma streams_ok_quiet:
  assumes "streams_ok s" and q: "quiet (nodes s x) n"
  shows "streams_ok (s\<lparr>nodes := (nodes s)(x := n)\<rparr>)"
  unfolding streams_ok_def
proof (intro allI impI, goal_cases)
  case (1 d y a)
  then have "end_ok (tcp_of s y) (tagged d (n_log (nodes s y))) (pos s d) d (wire (tcp_of s a) (other_end d))"
    using assms(1) by (simp add: streams_ok_def)
  moreover have "handlers (n_tcp (((nodes s)(x := n)) y)) d \<in> {handlers (tcp_of s y) d, None}"
    "n_log (((nodes s)(x := n)) y) = n_log (nodes s y)"
    using q by (auto simp: quiet_def)
  moreover obtain v where "wire (n_tcp (((nodes s)(x := n)) a)) (other_end d) = wire (tcp_of s a) (other_end d) @ v"
    using q unfolding quiet_def by (cases "a = x") (simp, metis, simp)
  ultimately show ?case by (simp del: fun_upd_apply insert_iff empty_iff) (erule (1) end_ok_grows, rule refl)
qed

lemma concerns_open:
  assumes "handlers (n_tcp n') = (handlers (n_tcp n))(c \<mapsto> (h, []))" and "wire (n_tcp n') = wire (n_tcp n)" and "n_log n' = n_log n"
    and "\<And>k d. active_on (n_tcp n') k d \<longleftrightarrow> (if k = h then d = c else active_on (n_tcp n) k d)" and "concerns n' d"
  shows "d = c \<or> concerns n d"
  using assms unfolding concerns_def by (auto split: if_splits)

text \<open>An end is opened at node \<open>x\<close> on a connection nothing was done with yet.\<close>

lemma open_ok:
  assumes inv: "conns_ok s" "streams_ok s" and unused_conn: "ends s c = None \<or> c \<in> waiting s" and c: "E c = Some x" "c \<notin> W" "c < 2 * k"
    and E: "\<And>d. ends s d \<noteq> None \<Longrightarrow> E d = ends s d" "\<And>d. ends s d = None \<Longrightarrow> E d \<noteq> None \<Longrightarrow> d < 2 * k \<and> (d = c \<or> d \<in> W)"
    and pair: "\<And>d. E d = None \<Longrightarrow> E (other_end d) = None" and W: "\<And>d. d \<in> W \<Longrightarrow> E d \<noteq> None \<and> (d \<in> waiting s \<or> ends s d = None)" and k: "next_conn s \<le> k"
    and n: "handlers (n_tcp n) = (handlers (tcp_of s x))(c \<mapsto> (h, []))" "wire (n_tcp n) = wire (tcp_of s x)" "n_log n = n_log (nodes s x)"
      "\<And>k d. active_on (n_tcp n) k d \<longleftrightarrow> (if k = h then d = c else active_on (tcp_of s x) k d)"
    and s': "s' = s\<lparr>nodes := (nodes s)(x := n), ends := E, waiting := W, next_conn := k\<rparr>"
  shows "conns_ok s' \<and> streams_ok s'"
proof
  have con: "d = c \<and> y = x \<or> concerns (nodes s y) d" if "concerns (nodes s' y) d" for y d
    using that concerns_open [OF n, of d] by (auto simp: s' split: if_splits)
  have owned: "E d = Some y \<and> d \<notin> W" if "concerns (nodes s y) d" for y d
    using conns_okD [OF inv(1) that] E(1) [of d] W [of d] by auto
  show "conns_ok s'"
    unfolding conns_ok_def
  proof (intro conjI allI impI)
    show "ends s' d = Some y" "d \<notin> waiting s'" if "concerns (nodes s' y) d" for y d
      using con [OF that] owned c by (auto simp: s')
    show "ends s' d = None" if "2 * next_conn s' \<le> d" for d
      using that inv(1) k E(2) [of d] unfolding conns_ok_def s' by force
    show "pos s' d = 0" if "ends s' d = None \<or> d \<in> waiting s'" for d
      using that inv(1) W [of d] E(1) [of d] unfolding conns_ok_def s' by (cases "ends s d") auto
    show "ends s' (other_end d) = None" "d \<notin> waiting s'" if "ends s' d = None" for d
      using that pair W [of d] by (auto simp: s')
  qed
  show "streams_ok s'"
    unfolding streams_ok_def
  proof (intro allI impI, goal_cases)
    case (1 d y a)
    have w: "wire (tcp_of s' a) (other_end d) = wire (tcp_of s a) (other_end d)" and l: "n_log (nodes s' y) = n_log (nodes s y)"
      using n by (simp_all add: s')
    show ?case
    proof (cases "ends s d = None \<or> d = c")
      case True
      then have "d = c \<or> d \<in> W" using E(2) 1(1) by (auto simp: s')
      then have free: "ends s d = None \<or> d \<in> waiting s" using unused_conn True by auto
      have "tagged d (n_log (nodes s y)) = []" "handlers (tcp_of s y) d = None" "pos s' d = 0"
        using unconcerned(3,4) [OF conns_ok_fresh(1) [OF inv(1) free]] conns_ok_fresh(2) [OF inv(1) free] tagged_none
        by (auto simp: s')
      then show ?thesis using l n(1) by (auto simp: s' intro!: end_ok_new [of _ d h] split: if_splits)
    next
      case False
      then have own: "ends s d = Some y" using E(1) [of d] 1(1) by (auto simp: s')
      have hd: "handlers (tcp_of s' y) d = handlers (tcp_of s y) d" using False n(1) by (simp add: s')
      show ?thesis
      proof (cases "ends s (other_end d)")
        case None
        with own inv(1) show ?thesis unfolding conns_ok_def by (metis option.discI other_end_simps(1))
      next
        case (Some a')
        then have "a' = a" using E(1) [of "other_end d"] 1(2) by (auto simp: s')
        then show ?thesis using inv(2) own Some hd l w unfolding streams_ok_def end_ok_def by (simp add: s')
      qed
    qed
  qed
qed

lemma reads_ok:
  assumes inv: "conns_ok s" "streams_ok s" and own: "ends s d = Some x" "ends s (other_end d) = Some a"
    and h: "handlers (tcp_of s x) d \<noteq> None" and bs: "bs = take k (in_flight s a d)"
    and n: "node_net (Data d bs) (nodes s x) = Some n"
    and s': "s' = s\<lparr>nodes := (nodes s)(x := n), pos := (pos s)(d := pos s d + length bs)\<rparr>"
  shows "conns_ok s' \<and> streams_ok s'"
proof
  let ?t = "tcp_of s x" and ?t' = "connectionHandler False d (ReadData bs) (tcp_of s x)"
  have n': "n = (nodes s x)\<lparr>n_tcp := ?t', n_log := n_log (nodes s x) @ map (Pair d) (pushed ?t ?t')\<rparr>"
    using n by (simp add: Let_def)
  have busy: "concerns (nodes s x) d" using h by (simp add: concerns_def)
  have "concerns (nodes s x) e" if "concerns n e" for e
  proof (cases "e = d")
    case False
    with that show ?thesis
      by (auto simp: concerns_def n' conn_round_frame(1,3) dest: conn_round_frame(2))
  qed (use busy in simp)
  then show "conns_ok s'"
    using inv(1) conns_okD(2) [OF inv(1) busy] own(1) unfolding conns_ok_def s' by auto
  show "streams_ok s'"
    unfolding streams_ok_def
  proof (intro allI impI, goal_cases)
    case (1 e y b)
    then have ends: "ends s e = Some y" "ends s (other_end e) = Some b" by (simp_all add: s')
    have ok: "end_ok (tcp_of s y) (tagged e (n_log (nodes s y))) (pos s e) e (wire (tcp_of s b) (other_end e))"
      using inv(2) ends by (simp add: streams_ok_def)
    have w: "wire (tcp_of s' z) = wire (tcp_of s z)" for z by (simp add: s' n' conn_round_frame(1))
    show ?case
    proof (cases "e = d")
      case True
      then have "y = x" "b = a" using ends own by simp_all
      then show ?thesis
        using end_ok_read [OF ok _ _ refl, of bs k] h True bs by (simp only: w) (simp add: s' n' in_flight_def)
    next
      case False
      then have "handlers (tcp_of s' y) e = handlers (tcp_of s y) e" "tagged e (n_log (nodes s' y)) = tagged e (n_log (nodes s y))"
        "pos s' e = pos s e"
        by (simp_all add: s' n' conn_round_frame(3))
      then show ?thesis using ok unfolding end_ok_def w by simp
    qed
  qed
qed

definition network_ok :: "('h, 'v, 'u) cluster \<Rightarrow> bool" where
  "network_ok s \<longleftrightarrow> conns_ok s \<and> streams_ok s"

lemma cluster_step_network_ok: "cluster_step env run s s' \<Longrightarrow> network_ok s \<Longrightarrow> network_ok s'"
proof (induction rule: cluster_step.induct)
  case (alone x s n)
  then show ?case using node_local_quiet conns_ok_quiet streams_ok_quiet by (metis network_ok_def)
next
  case (dials c s h x n y)
  then have inv: "conns_ok s" "streams_ok s" by (simp_all add: network_ok_def)
  have none: "ends s c = None" "ends s (c + 1) = None" using inv(1) dials(1) by (simp_all add: conns_ok_def)
  obtain cs where n: "n = (nodes s x)\<lparr>n_session := (n_session (nodes s x))\<lparr>transport := cs\<rparr>,
      n_tcp := tcp_connect (Some c) h (tcp_of s x), n_calls := n_calls (nodes s x) @ [TConnect h]\<rparr>"
    using dials(2) by (rule node_net_DialE)
  have wait: "ends s d \<noteq> None" if "d \<in> waiting s" for d using that inv(1) unfolding conns_ok_def by blast
  then have free: "c \<notin> waiting s" using none(1) by blast
  show ?case
    unfolding network_ok_def
  proof (rule open_ok [OF inv, where c = c and x = x and h = h and n = n and k = "next_conn s + 1"
        and E = "(ends s)(c \<mapsto> x, c + 1 \<mapsto> y)" and W = "insert (c + 1) (waiting s)"])
    show "((ends s)(c \<mapsto> x, c + 1 \<mapsto> y)) (other_end d) = None" if "((ends s)(c \<mapsto> x, c + 1 \<mapsto> y)) d = None" for d
    proof -
      have "d \<noteq> c" "d \<noteq> c + 1" "ends s (other_end d) = None"
        using that inv(1) unfolding conns_ok_def by (auto split: if_splits)
      then show ?thesis by (auto simp: dials(1) other_end_def split: if_splits) presburger+
    qed
  qed (use none dials(1) n wait free in \<open>auto split: if_splits\<close>)
next
  case (accepts c s x h n)
  then have inv: "conns_ok s" "streams_ok s" by (simp_all add: network_ok_def)
  have n: "n = (nodes s x)\<lparr>n_tcp := listener_accept c h (tcp_of s x)\<rparr>" using accepts(3) by (simp split: if_splits)
  show ?case
    unfolding network_ok_def
  proof (rule open_ok [OF inv, where c = c and x = x and h = h and n = n and k = "next_conn s" and E = "ends s"])
    show "c < 2 * next_conn s" using inv(1) accepts(2) unfolding conns_ok_def by (metis not_le option.discI)
    show "ends s (other_end d) = None" if "ends s d = None" for d using inv(1) that by (simp add: conns_ok_def)
    show "ends s d \<noteq> None \<and> (d \<in> waiting s \<or> ends s d = None)" if "d \<in> waiting s - {c}" for d
      using that inv(1) unfolding conns_ok_def by blast
  qed (use accepts(1,2) n in auto)
next
  case (reads s d x a k bs n)
  then show ?case using reads_ok [OF _ _ reads(1-3,5,6) refl] by (simp add: network_ok_def)
qed

section \<open>Every node keeps its invariants\<close>

text \<open>A step of the network is a step of one of its nodes.\<close>

lemma cluster_step_node:
  assumes "cluster_step env run s s'" and "network_ok s"
  shows "nodes s' y = nodes s y \<or> node_step (env y) (run y) (nodes s y) (nodes s' y)"
  using assms
proof (induction rule: cluster_step.induct)
  case (alone x s n)
  then show ?case by (auto intro: node_step.alone)
next
  case (dials c s h x n z)
  then have "fresh_in (tcp_of s x) (Dial c h)" by (intro cluster_fresh) (auto simp: network_ok_def)
  then show ?case using node_step.net [OF dials(2)] by simp
next
  case (accepts c s x h n)
  then have "fresh_in (tcp_of s x) (Accept c h)" by (intro cluster_fresh) (auto simp: network_ok_def)
  then show ?case using node_step.net [OF accepts(3)] by simp
next
  case (reads s d x a k bs n)
  then show ?case using node_step.net [OF reads(6)] by simp
qed

definition cluster_ok :: "('h, 'v, 'u) cluster \<Rightarrow> bool" where
  "cluster_ok s \<longleftrightarrow> network_ok s \<and> (\<forall>x. node_ok (nodes s x))"

lemma cluster_step_ok: "cluster_step env run s s' \<Longrightarrow> cluster_ok s \<Longrightarrow> cluster_ok s'"
  unfolding cluster_ok_def using cluster_step_network_ok cluster_step_node node_step_ok by metis

lemma cluster_start_ok: "cluster_start s \<Longrightarrow> cluster_ok s"
proof -
  assume start: "cluster_start s"
  have none: "\<not> concerns (nodes s x) c" for x c
  proof -
    obtain r eb mb tb l where "nodes s x = NewNode r eb mb tb l" using start unfolding cluster_start_def by blast
    then show ?thesis by (simp add: concerns_def NewNode_def NewTCPLayer_def active_on_def Let_def)
  qed
  have "conns_ok s" "streams_ok s" using start by (simp_all add: cluster_start_def conns_ok_def streams_ok_def none)
  moreover have "node_ok (nodes s x)" for x using start NewNode_ok unfolding cluster_start_def by metis
  ultimately show ?thesis by (simp add: cluster_ok_def network_ok_def)
qed

lemma cluster_steps_ok: "cluster_steps env run s s' \<Longrightarrow> cluster_ok s \<Longrightarrow> cluster_ok s'"
  by (induction rule: rtranclp_induct) (auto dest: cluster_step_ok)

section \<open>From one runtime to another\<close>

text \<open>Frames can be told apart: whole frames at the beginning of a stream are the first that were written.\<close>

lemma frame_prefix_length:
  assumes "length p < 2 ^ 32" and "length q < 2 ^ 32" and "take 4 (frame p) = take 4 (frame q)"
  shows "length p = length q"
proof -
  have "be_put 4 (word_of_nat (length p) :: 32 word) = be_put 4 (word_of_nat (length q) :: 32 word)"
    using assms(3) by (simp add: frame_def be_put_def)
  then have "be_get (be_put 4 (word_of_nat (length p) :: 32 word)) = (be_get (be_put 4 (word_of_nat (length q) :: 32 word)) :: 32 word)"
    by simp
  then have "unat (word_of_nat (length p) :: 32 word) = unat (word_of_nat (length q) :: 32 word)" by (simp add: codec_simps)
  then show ?thesis using assms(1,2) by (simp add: unat_of_nat take_bit_nat_eq_self)
qed

lemma frames_prefix:
  assumes "framed w ps rest" and "prefix (concat (map frame gs)) w" and "list_all (\<lambda>g. length g \<le> 2 ^ 24) gs"
  shows "prefix gs ps"
  using assms
proof (induction gs arbitrary: ps w)
  case (Cons g gs)
  from Cons.prems(2) obtain z where z: "w = frame g @ concat (map frame gs) @ z" by (auto simp: prefix_def)
  have g: "length g < 2 ^ 32" using Cons.prems(3) by simp
  show ?case
  proof (cases ps)
    case Nil
    with Cons.prems(1) obtain q y where q: "length q < 2 ^ 32" "frame q = w @ y" "y \<noteq> []"
      by (auto simp: framed_def cut_def strict_prefix_def prefix_def)
    then have "take 4 (frame g) = take 4 (frame q)" by (simp add: z)
    from frame_prefix_length [OF g q(1) this] arg_cong [OF q(2), of length] q(3) show ?thesis by (simp add: z)
  next
    case (Cons p ps')
    with Cons.prems(1) have w: "w = frame p @ concat (map frame ps') @ rest" and p: "length p < 2 ^ 32"
      and rest: "framed (concat (map frame ps') @ rest) ps' rest" by (auto simp: framed_def)
    have eq: "frame g @ concat (map frame gs) @ z = frame p @ concat (map frame ps') @ rest" using z w by simp
    from arg_cong [OF this, of "take 4"] have "take 4 (frame g) = take 4 (frame p)" by simp
    then have "length g = length p" by (rule frame_prefix_length [OF g p])
    with eq have same: "frame g = frame p" "concat (map frame ps') @ rest = concat (map frame gs) @ z" by simp_all
    then have "g = p" using \<open>length g = length p\<close> by (simp add: frame_def)
    moreover have "prefix gs ps'" using Cons.IH [OF rest prefixI [OF same(2)]] Cons.prems(3) by simp
    ultimately show ?thesis using \<open>ps = p # ps'\<close> by simp
  qed
qed simp

text \<open>On one connection: the application messages received are among those the runtime at the other end sent,
  in the same order.\<close>

lemma connection_in_order:
  assumes "cluster_ok s" and "ends s d = Some x" and "ends s (other_end d) = Some a"
  shows "subseq (app_payloads (tagged d (n_log (nodes s x)))) (sent_payloads (n_requests (nodes s a)))"
proof -
  let ?got = "tagged d (n_log (nodes s x))" and ?w = "wire (tcp_of s a) (other_end d)"
  from assms have "prefix (concat (map frame ?got)) ?w" "list_all (\<lambda>f. length f \<le> 2 ^ 24) ?got"
    unfolding cluster_ok_def network_ok_def streams_ok_def end_ok_def by blast+
  moreover from assms(1) obtain ps rest where "framed ?w ps rest" and sub: "subseq ps (handed (n_calls (nodes s a)))"
    unfolding cluster_ok_def node_ok_def wire_ok_def by blast
  ultimately have "prefix ?got ps" using frames_prefix by blast
  then have "subseq (app_payloads ?got) (app_payloads (handed (n_calls (nodes s a))))"
    using sub by (metis prefix_imp_subseq subseq_map_filter subseq_order.trans)
  moreover have "subseq (app_payloads (handed (n_calls (nodes s a)))) (sent_payloads (n_requests (nodes s a)))"
    using assms(1) unfolding cluster_ok_def node_ok_def requests_ok_def Let_def by (metis subseq_order.trans subseq_rev_drop_many subseq_order.refl)
  ultimately show ?thesis by (rule subseq_order.trans)
qed

text \<open>The payloads of the application messages, each with its connection.\<close>

definition tag_payloads :: "(conn \<times> byte list) list \<Rightarrow> (conn \<times> byte list) list" where
  "tag_payloads = List.map_filter (\<lambda>(d, f). map_option (Pair d) (app_payload f))"

lemma tag_payloads_sel:
  "map snd (tag_payloads xs) = app_payloads (map snd xs)" "tagged d (tag_payloads xs) = app_payloads (tagged d xs)"
  "fst ` set (tag_payloads xs) \<subseteq> fst ` set xs"
  by (induction xs) (auto simp: tag_payloads_def tagged_def List.map_filter_simps split: option.splits)

lemma subseq_map_obtain:
  assumes "subseq xs (map f ys)"
  obtains zs where "subseq zs ys" and "xs = map f zs"
  using assms by (metis nths_map subseq_conv_nths)

lemma subseq_tagged: "subseq xs ys \<Longrightarrow> subseq (tagged d xs) (tagged d ys)"
  by (simp add: tagged_def subseq_map)

lemma subseq_subset: "subseq xs ys \<Longrightarrow> set xs \<subseteq> set ys"
  by (induction rule: list_emb.induct) auto

lemma dispatched_tagged:
  assumes "node_ok n"
  obtains tags where "map snd tags = map sm_Msg (n_dispatched n)" and "subseq tags (tag_payloads (n_log n))"
proof -
  have "subseq (n_dispatched n) (n_dispatched n @ chan_buf (outMessages (n_session n)))" by (simp add: subseq_rev_drop_many)
  also have "subseq (n_dispatched n @ chan_buf (outMessages (n_session n))) (app_messages (n_taken n))"
    using assms by (simp add: node_ok_def handed_up_def Let_def)
  finally have "subseq (n_dispatched n) (app_messages (n_taken n))" .
  then have "subseq (map sm_Msg (n_dispatched n)) (map sm_Msg (app_messages (n_taken n)))" by (rule subseq_map)
  moreover have "map snd (tag_payloads (n_log n)) = map sm_Msg (app_messages (n_taken n)) @ app_payloads (map tm_Msg (chan_buf (outChannel (n_tcp n))))"
    using assms by (simp add: tag_payloads_sel node_ok_def log_ok_def app_payloads_messages)
  ultimately have "subseq (map sm_Msg (n_dispatched n)) (map snd (tag_payloads (n_log n)))" by (simp add: subseq_rev_drop_many)
  then show ?thesis using that by (rule subseq_map_obtain) simp
qed

section \<open>Draining a connection\<close>

text \<open>The session layer can take everything that waits in the transport's output channel.\<close>

lemma node_takes_all:
  "\<exists>n'. (node_local env run)\<^sup>*\<^sup>* n n' \<and> chan_buf (outChannel (n_tcp n')) = [] \<and> n_log n' = n_log n \<and>
     ctxDone (n_session n') = ctxDone (n_session n)"
proof (induction "chan_buf (outChannel (n_tcp n))" arbitrary: n)
  case Nil
  then show ?case by (intro exI [of _ n]) simp
next
  case (Cons m ms)
  let ?n = "n\<lparr>n_tcp := (n_tcp n)\<lparr>outChannel := (outChannel (n_tcp n))\<lparr>chan_buf := ms\<rparr>\<rparr>,
      n_session := handle_input (FromTransport m) (n_session n), n_taken := n_taken n @ [m]\<rparr>"
  have step: "node_local env run n ?n" using Cons.hyps(2) by (intro node_local.transport_message) simp
  have "ms = chan_buf (outChannel (n_tcp ?n))" by simp
  from Cons.hyps(1) [OF this] obtain n' where "(node_local env run)\<^sup>*\<^sup>* ?n n'" "chan_buf (outChannel (n_tcp n')) = []"
    "n_log n' = n_log n" "ctxDone (n_session n') = ctxDone (n_session n)"
    by (auto simp: outMessages_input(2) simp del: handle_input.simps)
  moreover have "(node_local env run)\<^sup>*\<^sup>* n n'" if "(node_local env run)\<^sup>*\<^sup>* ?n n'" for n'
    using step that by (rule converse_rtranclp_into_rtranclp)
  ultimately show ?case by blast
qed

lemma cluster_local_steps:
  assumes "(node_local (env x) (run x))\<^sup>*\<^sup>* (nodes s x) n"
  shows "cluster_steps env run s (s\<lparr>nodes := (nodes s)(x := n)\<rparr>)"
  using assms
proof (induction rule: rtranclp_induct)
  case (step m n)
  have "cluster_step env run (s\<lparr>nodes := (nodes s)(x := m)\<rparr>) (s\<lparr>nodes := (nodes s)(x := n)\<rparr>)"
    using cluster_step.alone [of env x run "s\<lparr>nodes := (nodes s)(x := m)\<rparr>" n] step(2) by simp
  then show ?case using step.IH by (rule rtranclp.rtrancl_into_rtrancl [rotated])
qed simp

text \<open>What was not read yet, behind what waits in the receive buffer, are the frames not received yet.\<close>

lemma end_ok_rest:
  assumes ok: "end_ok t got p d (concat (map frame ps))" and hd: "handlers t d = Some (host, buf)" and small: "list_all (\<lambda>q. length q \<le> 2 ^ 24) ps"
  obtains qs where "ps = got @ qs" and "decodeFrames (buf @ drop p (concat (map frame ps))) = (Inr qs, [])"
proof -
  let ?w = "concat (map frame ps)"
  have read: "take p ?w = concat (map frame got) @ buf"
    and pre: "prefix (concat (map frame got)) ?w" "list_all (\<lambda>f. length f \<le> 2 ^ 24) got"
    using ok hd by (auto simp: end_ok_def)
  have "framed ?w ps []" using small by (auto simp: framed_def list_all_iff)
  then obtain qs where qs: "ps = got @ qs" using frames_prefix pre by (metis prefix_def)
  have "?w = concat (map frame got) @ buf @ drop p ?w" using append_take_drop_id [of p ?w] by (simp add: read)
  then have rest: "buf @ drop p ?w = concat (map frame qs)" by (simp add: qs)
  have "list_all2 (\<lambda>p e. length p \<le> 2 ^ 24 \<and> encodeFrame p = Inr e) qs (map frame qs)"
    using small unfolding qs by (induction qs) (auto simp: encodeFrame_frame)
  from fr.dec_stream [OF this, of "[]"] have "decodeFrames (buf @ drop p ?w) = (Inr qs, [])" by (simp add: rest fr.dec_nil)
  with qs show ?thesis by (rule that)
qed

lemma end_ok_complete:
  assumes "end_ok t got (length (concat (map frame ps))) d (concat (map frame ps))" and "handlers t d \<noteq> None" and "list_all (\<lambda>q. length q \<le> 2 ^ 24) ps"
  shows "got = ps"
proof -
  obtain host buf where hd: "handlers t d = Some (host, buf)" using assms(2) by auto
  then have "decodeFrames buf = (Inr [], buf)" using assms(1) by (auto simp: end_ok_def)
  then show ?thesis using end_ok_rest [OF assms(1) hd assms(3)] by fastforce
qed

text \<open>No read of a well-formed stream ends the handler.\<close>

lemma read_stays_alive:
  assumes ok: "end_ok t got p d (concat (map frame ps))" and h: "handlers t d \<noteq> None" and small: "list_all (\<lambda>q. length q \<le> 2 ^ 24) ps"
  shows "handlers (connectionHandler False d (ReadData (take k (drop p (concat (map frame ps))))) t) d \<noteq> None"
proof -
  let ?r = "drop p (concat (map frame ps))"
  obtain host buf where hd: "handlers t d = Some (host, buf)" using h by auto
  obtain qs where dec: "decodeFrames (buf @ ?r) = (Inr qs, [])" using end_ok_rest [OF ok hd small] .
  have "decodeFrames (buf @ take k ?r) \<noteq> (Inl e, b)" for e b
  proof
    assume "decodeFrames (buf @ take k ?r) = (Inl e, b)"
    from decodeFrames_append_error [OF this, of "drop k ?r"] show False using dec by (simp only: append_assoc append_take_drop_id) simp
  qed
  then show ?thesis using hd by (auto simp: connectionHandler_def readFrames_def split: prod.split sum.split)
qed

text \<open>Reading on, a buffer at a time, reaches the end of what was written.\<close>

lemma read_all:
  assumes "cluster_ok s" and "ends s d = Some x" and "ends s (other_end d) = Some a" and "handlers (tcp_of s x) d \<noteq> None"
    and "wire (tcp_of s a) (other_end d) = concat (map frame ps)" and small: "list_all (\<lambda>q. length q \<le> 2 ^ 24) ps"
  shows "\<exists>s'. cluster_steps env run s s' \<and> pos s' d = length (concat (map frame ps)) \<and> ends s' = ends s \<and>
    handlers (tcp_of s' x) d \<noteq> None \<and> wire (tcp_of s' a) (other_end d) = concat (map frame ps) \<and>
    n_session (nodes s' x) = n_session (nodes s x)"
  using assms(1-5)
proof (induction "length (concat (map frame ps)) - pos s d" arbitrary: s rule: less_induct)
  case less
  let ?w = "concat (map frame ps)" and ?t = "tcp_of s x"
  have ok: "end_ok ?t (tagged d (n_log (nodes s x))) (pos s d) d ?w"
    using less.prems unfolding cluster_ok_def network_ok_def streams_ok_def by metis
  then have le: "pos s d \<le> length ?w" using less.prems(4) by (auto simp: end_ok_def)
  show ?case
  proof (cases "pos s d = length ?w")
    case True
    then show ?thesis using less.prems by (intro exI [of _ s]) simp
  next
    case False
    let ?bs = "take readBufSize (in_flight s a d)"
    let ?t' = "connectionHandler False d (ReadData ?bs) ?t"
    let ?n = "(nodes s x)\<lparr>n_tcp := ?t', n_log := n_log (nodes s x) @ map (Pair d) (pushed ?t ?t')\<rparr>"
    let ?s = "s\<lparr>nodes := (nodes s)(x := ?n), pos := (pos s)(d := pos s d + length ?bs)\<rparr>"
    have step: "cluster_step env run s ?s"
      by (rule cluster_step.reads [OF less.prems(2-4) order.refl refl]) (simp add: Let_def)
    have alive: "handlers ?t' d \<noteq> None"
      using read_stays_alive [OF ok less.prems(4) small, of readBufSize] less.prems(5) by (simp add: in_flight_def)
    have "length ?w - pos ?s d < length ?w - pos s d"
      using False le less.prems(5) by (simp add: in_flight_def readBufSize_def)
    moreover have "cluster_ok ?s" using cluster_step_ok [OF step less.prems(1)] .
    moreover have "wire (tcp_of ?s a) (other_end d) = ?w" using less.prems(5) by (auto simp: conn_round_frame(1))
    ultimately obtain s' where s': "cluster_steps env run ?s s'" "pos s' d = length ?w" "ends s' = ends ?s"
      "handlers (tcp_of s' x) d \<noteq> None" "wire (tcp_of s' a) (other_end d) = ?w" "n_session (nodes s' x) = n_session (nodes ?s x)"
      using less.hyps [of ?s] less.prems(2,3) alive by auto
    have "cluster_steps env run s s'" using step s'(1) by (rule converse_rtranclp_into_rtranclp)
    with s'(2-6) show ?thesis by (intro exI [of _ s']) simp
  qed
qed

section \<open>Properties\<close>

text \<open>C2. Whatever the interleaving of the goroutines of all nodes, whatever connections are lost, writes cut
  short and nodes cancelled: the messages a node's dispatcher has processed can be attributed to connections
  of that node such that those of each connection are, in order, messages the runtime at the other end handed
  to its session layer with \<^verbatim>\<open>Send\<close>. Nothing is invented, altered, duplicated or reordered on the way through
  session layer, framing and transport.\<close>

theorem dispatched_was_sent:
  assumes "cluster_start s0" and "cluster_steps env run s0 s"
  shows "\<exists>tags. map snd tags = map sm_Msg (n_dispatched (nodes s x)) \<and>
    (\<forall>d. d \<notin> fst ` set tags \<or> (\<exists>a. ends s d = Some x \<and> ends s (other_end d) = Some a \<and>
       subseq (tagged d tags) (sent_payloads (n_requests (nodes s a)))))"
proof -
  have ok: "cluster_ok s" using cluster_steps_ok [OF assms(2) cluster_start_ok [OF assms(1)]] .
  then obtain tags where tags: "map snd tags = map sm_Msg (n_dispatched (nodes s x))" "subseq tags (tag_payloads (n_log (nodes s x)))"
    using dispatched_tagged unfolding cluster_ok_def by blast
  have "\<exists>a. ends s d = Some x \<and> ends s (other_end d) = Some a \<and> subseq (tagged d tags) (sent_payloads (n_requests (nodes s a)))"
    if "d \<in> fst ` set tags" for d
  proof -
    have "d \<in> fst ` set (n_log (nodes s x))"
      using that subseq_subset [OF tags(2)] tag_payloads_sel(3) [of "n_log (nodes s x)"] by blast
    then have "concerns (nodes s x) d" by (simp add: concerns_def)
    then have d: "ends s d = Some x" using ok unfolding cluster_ok_def network_ok_def by (blast dest: conns_okD)
    then obtain a where a: "ends s (other_end d) = Some a"
      using ok unfolding cluster_ok_def network_ok_def conns_ok_def by (metis not_None_eq other_end_simps(1))
    have "subseq (tagged d tags) (app_payloads (tagged d (n_log (nodes s x))))"
      using subseq_tagged [OF tags(2), of d] by (simp add: tag_payloads_sel)
    then show ?thesis using connection_in_order [OF ok d a] d a by (metis subseq_order.trans)
  qed
  with tags(1) show ?thesis by blast
qed

section \<open>Schedules\<close>

text \<open>Steps as functions, to run a network of nodes step by step.\<close>

datatype cluster_act = At nat node_act | DialFrom nat Host nat | AcceptAt conn Host | ReadOn conn nat

fun run_cluster_act :: "cluster_act \<Rightarrow> ('h, 'v, 'u) cluster \<Rightarrow> ('h, 'v, 'u) cluster option" where
  "run_cluster_act (At x act) s = map_option (\<lambda>n. s\<lparr>nodes := (nodes s)(x := n)\<rparr>) (run_node act (nodes s x))"
| "run_cluster_act (DialFrom x h y) s =
     (let c = 2 * next_conn s in
      map_option (\<lambda>n. s\<lparr>nodes := (nodes s)(x := n), ends := (ends s)(c \<mapsto> x, c + 1 \<mapsto> y),
        waiting := insert (c + 1) (waiting s), next_conn := next_conn s + 1\<rparr>) (node_net (Dial c h) (nodes s x)))"
| "run_cluster_act (AcceptAt c h) s =
     (case ends s c of
        Some x \<Rightarrow> if c \<in> waiting s
          then map_option (\<lambda>n. s\<lparr>nodes := (nodes s)(x := n), waiting := waiting s - {c}\<rparr>) (node_net (Accept c h) (nodes s x))
          else None
      | None \<Rightarrow> None)"
| "run_cluster_act (ReadOn d k) s =
     (case (ends s d, ends s (other_end d)) of
        (Some x, Some a) \<Rightarrow>
          if handlers (tcp_of s x) d \<noteq> None
          then let bs = take (min k readBufSize) (in_flight s a d) in
               map_option (\<lambda>n. s\<lparr>nodes := (nodes s)(x := n), pos := (pos s)(d := pos s d + length bs)\<rparr>)
                 (node_net (Data d bs) (nodes s x))
          else None
      | _ \<Rightarrow> None)"

lemma run_cluster_act_step:
  assumes "run_cluster_act act s = Some s'"
  shows "cluster_step env run s s'"
proof (cases act)
  case (At x a)
  then show ?thesis using assms by (auto intro: cluster_step.alone run_node_local)
next
  case (DialFrom x h y)
  then show ?thesis using assms cluster_step.dials [OF refl, of s h x] by (auto simp: Let_def simp del: node_net.simps)
next
  case (AcceptAt c h)
  then show ?thesis
    using assms by (auto intro: cluster_step.accepts split: option.splits if_splits simp del: node_net.simps)
next
  case (ReadOn d k)
  then show ?thesis
    using assms cluster_step.reads [OF _ _ _ _ refl, of s d _ _ "min k readBufSize"]
    by (auto simp: Let_def simp del: node_net.simps split: option.splits if_splits)
qed

fun run_cluster :: "cluster_act list \<Rightarrow> ('h, 'v, 'u) cluster \<Rightarrow> ('h, 'v, 'u) cluster option" where
  "run_cluster [] s = Some s"
| "run_cluster (act # acts) s = Option.bind (run_cluster_act act s) (run_cluster acts)"

lemma run_cluster_steps: "run_cluster acts s = Some s' \<Longrightarrow> cluster_steps env run s s'"
proof (induction acts arbitrary: s)
  case (Cons act acts)
  then obtain t where "run_cluster_act act s = Some t" "run_cluster acts t = Some s'" by (auto simp: bind_eq_Some_conv)
  then show ?case using run_cluster_act_step Cons.IH by (metis converse_rtranclp_into_rtranclp)
qed simp

text \<open>Two nodes; the runtime of the first asks for a session with the second and sends it one message.\<close>

definition node_pair :: "(nat, nat, unit) cluster" where
  "node_pair =
     (let a = NewHost 1 ''a''; b = NewHost 2 ''b'';
          ra = (New a [WithTCPTransport] () False)\<lparr>sessionLayer := Some [ConnectReq b, SendReq [7, 8] b], rt_loops := True\<rparr>;
          rb = (New b [WithTCPTransport] () False)\<lparr>rt_loops := True\<rparr>
      in \<lparr>nodes = (\<lambda>x. if x = 0 then NewNode ra 0 0 0 True else NewNode rb 0 0 0 True), ends = Map.empty,
          waiting = {}, pos = (\<lambda>_. 0), next_conn = 0\<rparr>)"

lemma node_pair_start: "cluster_start node_pair"
  by (simp add: cluster_start_def node_pair_def Let_def) metis

definition node_pair_run :: "cluster_act list" where
  "node_pair_run = [At 0 NRequest, DialFrom 0 (NewHost 2 ''b'') 1, At 0 NEvent, At 0 (NCall WriteOK), At 0 NRequest,
     At 0 (NCall WriteOK), AcceptAt 1 (NewHost 4000 ''a''), ReadOn 1 100, At 1 NEvent, At 1 NMessage, At 1 NMessage,
     At 1 NDispatch]"

lemma hello_bytes: "encodeHello (NewHost 1 ''a'') = Inr [1, 1, 1, 0, 97, 1, 0]"
  by (simp add: encodeHello_def WriteHost_buffer NewHost_def bytes_of_string_def le_put_numeral ProtocolVersion_def)

lemma hello_parsed: "parseHandshakePayload [1, 1, 1, 0, 97, 1, 0] = Inr (HandshakeHello, NewHost 1 ''a'')"
  by (simp add: encodeHello_parse [OF hello_bytes])

lemma decodeFrames_one: "length p \<le> 2 ^ 24 \<Longrightarrow> decodeFrames (frame p) = (Inr [p], [])"
  using decodeFrames_frame [of p "[]"] by (simp add: fr.dec_nil)

lemma frame_not_Nil [simp]: "frame p \<noteq> []"
  by (simp flip: length_0_conv)

lemmas node_pair_simps = node_pair_run_def node_pair_def NewNode_def NewSessionLayer_def NewTCPLayer_def New_def WithTCPTransport_def
      connectClient_def withSession_def lookup_session_def handleClientConnectRequested_def transport_Connect_def
      dispatchConnected_def mark_server_def handleConnected_def transport_Send_def setServerMapping_def emitEvent_def
      tcp_connect_def addActiveConn_def push_event_def make_chan_def session_send_def resolveUnderlyingHost_def
      serializeMessage_def NewMessage_def Let_def hello_bytes tcp_send_def getActiveConn_def encodeFrame_eq
      listener_accept_def in_flight_def other_end_def connectionHandler_def readFrames_def decodeFrames_frame decodeFrames_one
      pushed_def transportMessageHandler_def deserializeMessage_def LayerIdentifier_of_byte_def dispatchHandshakeMessage_def
      handleHandshakeMessage_def hello_parsed handleServerHandshake_def rt_eventHandler_def recv_def processMessage_def
      SessionMessage_Host_def Buffer_ReadFull_def chan_put_def readBufSize_def

lemma node_pair_dispatches:
  "\<exists>s. run_cluster node_pair_run node_pair = Some s \<and>
     n_dispatched (nodes s 1) = [\<lparr>sm_host = NewHost 4000 ''a'', sm_layer = Application, sm_Msg = [7, 8]\<rparr>]"
  by (simp add: node_pair_simps)

theorem dispatched_was_sent_witness:
  "\<exists>s tags. run_cluster node_pair_run node_pair = Some s \<and> map snd tags = [[7, 8]] \<and>
     (\<forall>d. d \<notin> fst ` set tags \<or> (\<exists>a. ends s d = Some 1 \<and> ends s (other_end d) = Some a \<and>
        subseq (tagged d tags) (sent_payloads (n_requests (nodes s a)))))"
proof -
  obtain s where s: "run_cluster node_pair_run node_pair = Some s"
    "n_dispatched (nodes s 1) = [\<lparr>sm_host = NewHost 4000 ''a'', sm_layer = Application, sm_Msg = [7, 8]\<rparr>]"
    using node_pair_dispatches by blast
  from dispatched_was_sent [OF node_pair_start run_cluster_steps [OF s(1)], of 1] s show ?thesis by simp
qed


lemma node_pair_sent:
  "\<exists>s. run_cluster (take 7 node_pair_run) node_pair = Some s \<and> ends s 1 = Some 1 \<and> ends s (other_end 1) = Some 0 \<and>
     handlers (tcp_of s 1) 1 \<noteq> None \<and>
     wire (tcp_of s 0) (other_end 1) = concat (map frame [[1, 1, 1, 1, 0, 97, 1, 0], [0, 7, 8]]) \<and>
     \<not> ctxDone (n_session (nodes s 1))"
  by (simp add: node_pair_simps)


end
