(* ===== verification/Identity.thy ===== *)
theory Identity
  imports Cluster
begin

text \<open>
  The identities behind sessions. A session is known under a logical host: the one the runtime asked to connect
  to, or the one a Hello announced. The contract \<open>naming_operation\<close> follows the names through the handlers of
  the session layer; over a network of nodes it shows that a name that was announced belongs to the node at the
  other end of the connection the Hello came over.
\<close>

section \<open>Where a session's name may come from\<close>

text \<open>\<open>A\<close> are the hosts the runtime asked to connect to, \<open>H\<close> the pairs of a transport host and the host a Hello
  received from it announced. A connect request for a host without a port leaves a nameless session nameless.\<close>

definition name_ok :: "Host set \<Rightarrow> (Host \<times> Host) set \<Rightarrow> Host \<Rightarrow> Host \<Rightarrow> bool" where
  "name_ok A H t l \<longleftrightarrow> t \<in> A \<and> (l = t \<or> Port t = 0 \<and> l = zeroHost) \<or> (t, l) \<in> H"

definition conn_named :: "Host set \<Rightarrow> (Host \<times> Host) set \<Rightarrow> sessionConn \<Rightarrow> bool" where
  "conn_named A H sc \<longleftrightarrow> (logicalHost sc = zeroHost \<or> name_ok A H (transportHost sc) (logicalHost sc)) \<and>
     (state sc = SessionStateHandshakingClient \<longrightarrow> transportHost sc \<in> A \<and> name_ok A H (transportHost sc) (logicalHost sc))"

definition layer_named :: "Host set \<Rightarrow> (Host \<times> Host) set \<Rightarrow> SessionLayer \<Rightarrow> bool" where
  "layer_named A H s \<longleftrightarrow> (\<forall>t l. transportToLogical s t = Some l \<longrightarrow> name_ok A H t l) \<and>
     (\<forall>l. SessionConnected l \<in> set (chan_buf (outChannelEvents s)) \<longrightarrow> (\<exists>t. name_ok A H t l))"

definition names_ok :: "Host set \<Rightarrow> (Host \<times> Host) set \<Rightarrow> SessionLayer \<Rightarrow> bool" where
  "names_ok A H s \<longleftrightarrow> layer_named A H s \<and>
     (\<forall>t sc. sessions s t = Some sc \<longrightarrow> transportHost sc = t \<and> conn_named A H sc)"

lemma name_ok_mono: "name_ok A H t l \<Longrightarrow> A \<subseteq> A' \<Longrightarrow> H \<subseteq> H' \<Longrightarrow> name_ok A' H' t l"
  by (auto simp: name_ok_def)

lemma names_ok_mono: "names_ok A H s \<Longrightarrow> A \<subseteq> A' \<Longrightarrow> H \<subseteq> H' \<Longrightarrow> names_ok A' H' s"
  unfolding names_ok_def layer_named_def conn_named_def using name_ok_mono by (meson subsetD)

lemma names_ok_frame [simp]:
  "names_ok A H (s\<lparr>transport := cs\<rparr>) = names_ok A H s" "names_ok A H (s\<lparr>outMessages := c\<rparr>) = names_ok A H s"
  "names_ok A H (s\<lparr>ctxDone := b\<rparr>) = names_ok A H s" "names_ok A H (s\<lparr>preferDone := b\<rparr>) = names_ok A H s"
  by (simp_all add: names_ok_def layer_named_def)

lemma layer_named_frame [simp]:
  "layer_named A H (transport_Send m h s) = layer_named A H s" "layer_named A H (transport_Connect h s) = layer_named A H s"
  "layer_named A H (transport_Disconnect h s) = layer_named A H s"
  by (simp_all add: layer_named_def transport_Send_def transport_Connect_def transport_Disconnect_def)

lemma layer_named_cleanup [simp]: "layer_named A H s \<Longrightarrow> layer_named A H (cleanupServerMapping h s)"
  by (auto simp: layer_named_def map_delete_def)

lemma layer_named_set: "layer_named A H s \<Longrightarrow> name_ok A H t l \<Longrightarrow> layer_named A H (setServerMapping t l s)"
  by (auto simp: layer_named_def)

lemma layer_named_emit:
  assumes "layer_named A H s" and "\<And>l. ev = SessionConnected l \<Longrightarrow> \<exists>t. name_ok A H t l"
  shows "layer_named A H (emitEvent ev s)"
  using assms by (auto simp: layer_named_def emitEvent_def chan_put_def)

text \<open>A handler of the session at transport host \<open>t\<close>, called through \<^verbatim>\<open>withSession\<close> with logical host \<open>l\<close>.\<close>

locale naming_operation = session_operation fn for fn +
  fixes A :: "Host set" and H :: "(Host \<times> Host) set" and t l :: Host
  assumes entry_name: "l = zeroHost \<or> l = t \<and> t \<in> A"
    and keeps_names: "fn sc s = (sc', s') \<Longrightarrow> transportHost sc = t \<Longrightarrow> Port l \<noteq> 0 \<longrightarrow> logicalHost sc = l \<Longrightarrow>
      conn_named A H sc \<Longrightarrow> layer_named A H s \<Longrightarrow> conn_named A H sc' \<and> layer_named A H s'"
begin

lemma withSession_names:
  assumes ok: "names_ok A H s"
  shows "names_ok A H (withSession t l fn s)"
proof -
  let ?sc = "lookup_session t l s"
  obtain sc' s' where fn: "fn ?sc s = (sc', s')" by (cases "fn ?sc s")
  have t: "transportHost ?sc = t" and l: "Port l \<noteq> 0 \<longrightarrow> logicalHost ?sc = l"
    using ok by (auto simp: names_ok_def lookup_session_def split: option.splits)
  have "conn_named A H ?sc"
    using ok entry_name by (auto simp: names_ok_def lookup_session_def conn_named_def name_ok_def split: option.splits)
  from keeps_names [OF fn t l this] ok have "conn_named A H sc'" "layer_named A H s'" by (simp_all add: names_ok_def)
  then show ?thesis
    using ok keeps_host [OF fn] keeps_sessions [OF fn] t by (auto simp: withSession_def fn names_ok_def layer_named_def)
qed


end

lemma conn_named_mark [simp]: "conn_named A H (mark_server sc) \<longleftrightarrow> conn_named A H sc"
  by (auto simp: conn_named_def mark_server_def)

interpretation connect_names: naming_operation handleClientConnectRequested "insert t A" H t t for A H t
proof (unfold_locales, goal_cases)
  case (2 sc s sc' s')
  then have "name_ok (insert t A) H t (logicalHost sc)"
    by (cases "Port t = 0") (auto simp: conn_named_def name_ok_def)
  then show ?case
    using 2 by (simp add: handleClientConnectRequested_def split: if_splits) (auto simp: conn_named_def)
qed simp

interpretation connected_names: naming_operation "\<lambda>sc. handleConnected (mark_server sc)" A H t zeroHost for A H t
proof (unfold_locales, goal_cases)
  case (2 sc s sc' s')
  then have "conn_named A H (mark_server sc)" by simp
  with 2 show ?case
    by (auto simp: handleConnected_def Let_def split: SessionState.splits sum.splits)
       (auto simp: conn_named_def mark_server_def intro!: layer_named_emit layer_named_set split: if_splits)
qed simp

interpretation disconnected_names: naming_operation handleDisconnected A H t zeroHost for A H t
  by unfold_locales (auto simp: handleDisconnected_def Let_def conn_named_def intro!: layer_named_emit split: if_splits)

interpretation failed_names: naming_operation handleFailed A H t zeroHost for A H t
  by unfold_locales (auto simp: handleFailed_def Let_def conn_named_def intro!: layer_named_emit)

text \<open>What a Hello announces, read off the payload of a handshake message.\<close>

definition heard :: "Host \<Rightarrow> SessionMessage \<Rightarrow> (Host \<times> Host) set" where
  "heard t sm = {(u, l). u = t \<and> parseHandshakePayload (sm_Msg sm) = Inr (HandshakeHello, l)}"

interpretation handshake_names: naming_operation "\<lambda>sc. handleHandshakeMessage sm (mark_server sc)" A "H \<union> heard t sm" t zeroHost
  for A H t sm
proof (unfold_locales, goal_cases)
  case (2 sc s sc' s')
  then have named: "conn_named A (H \<union> heard t sm) (mark_server sc)" by simp
  show ?case
  proof (cases "parseHandshakePayload (sm_Msg sm)")
    case (Inl err)
    with 2 named show ?thesis
      by (auto simp: handleHandshakeMessage_def Let_def conn_named_def layer_named_def chan_put_def transport_Disconnect_def split: if_splits)
  next
    case (Inr p)
    then obtain ht l where p: "parseHandshakePayload (sm_Msg sm) = Inr (ht, l)" by (cases p) auto
    have "name_ok A (H \<union> heard t sm) t l" if "ht = HandshakeHello" using that p by (simp add: name_ok_def heard_def)
    with 2 named p show ?thesis
      by (auto simp: handleHandshakeMessage_def handleServerHandshake_def handleClientHandshake_def Let_def conn_named_def mark_server_def
          intro!: layer_named_emit layer_named_set split: SessionState.splits HandshakeType.splits if_splits)
  qed
qed simp

section \<open>Names and Hellos in a node\<close>

text \<open>The host a payload announces when it is a Hello of the session layer.\<close>

definition hello_of :: "byte list \<Rightarrow> Host option" where
  "hello_of p =
     (case p of
        [] \<Rightarrow> None
      | b # q \<Rightarrow> if b = 1 then (case parseHandshakePayload q of Inr (HandshakeHello, l) \<Rightarrow> Some l | _ \<Rightarrow> None) else None)"

lemma heard_hello:
  assumes "sm_layer (deserializeMessage m) = Session"
  shows "heard t (deserializeMessage m) = {(u, l). u = t \<and> hello_of (tm_Msg m) = Some l}"
  using assms
  by (cases "tm_Msg m")
     (auto simp: heard_def hello_of_def deserializeMessage_def LayerIdentifier_of_byte_def
       split: sum.splits prod.splits HandshakeType.splits if_splits)

definition heard_from :: "TMessage list \<Rightarrow> (Host \<times> Host) set" where
  "heard_from ms = {(t, l). \<exists>m \<in> set ms. tm_Host m = t \<and> hello_of (tm_Msg m) = Some l}"

definition asked_for :: "session_input list \<Rightarrow> Host set" where
  "asked_for is = {h. ConnectReq h \<in> set is}"

lemma heard_from_snoc: "heard_from (ms @ [m]) = heard_from ms \<union> {(t, l). t = tm_Host m \<and> hello_of (tm_Msg m) = Some l}"
  by (auto simp: heard_from_def)

lemma asked_for_snoc: "asked_for (is @ [i]) = asked_for is \<union> (case i of ConnectReq h \<Rightarrow> {h} | _ \<Rightarrow> {})"
  by (auto simp: asked_for_def split: session_input.split)

lemma message_names:
  assumes "names_ok A (heard_from ms) s"
  shows "names_ok A (heard_from (ms @ [m])) (handle_input (FromTransport m) s)"
proof (cases "sm_layer (deserializeMessage m) = Session")
  case True
  then have eq: "heard_from (ms @ [m]) = heard_from ms \<union> heard (tm_Host m) (deserializeMessage m)"
    by (simp add: heard_from_snoc heard_hello)
  have "names_ok A (heard_from ms \<union> heard (tm_Host m) (deserializeMessage m)) s"
    using assms names_ok_mono by blast
  from handshake_names.withSession_names [OF this] True show ?thesis
    by (simp add: eq transportMessageHandler_def dispatchHandshakeMessage_def)
next
  case False
  have "names_ok A (heard_from (ms @ [m])) s" using assms names_ok_mono heard_from_snoc by blast
  with False show ?thesis by (auto simp: transportMessageHandler_def Let_def split: LayerIdentifier.split)
qed

lemma event_names: "names_ok A H s \<Longrightarrow> names_ok A H (handle_input (TransportEvent ev) s)"
  by (cases ev) (simp_all add: dispatchConnected_def dispatchDisconnected_def dispatchFailed_def
      connected_names.withSession_names disconnected_names.withSession_names failed_names.withSession_names)

lemma request_names:
  assumes "names_ok (asked_for is) H s" and "from_runtime i"
  shows "names_ok (asked_for (is @ [i])) H (handle_input i s)"
proof (cases i)
  case (ConnectReq h)
  have "names_ok (insert h (asked_for is)) H s" using assms(1) names_ok_mono by blast
  from connect_names.withSession_names [OF this] ConnectReq show ?thesis
    by (simp add: asked_for_snoc connectClient_def)
next
  case (DisconnectReq h)
  have "layer_named (asked_for is) H (session_disconnect h s)" "sessions (session_disconnect h s) = sessions s"
    using assms(1) by (simp_all add: session_disconnect_def names_ok_def transport_Disconnect_def layer_named_def)
  with DisconnectReq assms(1) show ?thesis by (simp add: asked_for_snoc names_ok_def)
next
  case (SendReq bs h)
  with assms(1) show ?thesis by (simp add: asked_for_snoc names_ok_def layer_named_def)
qed (use assms(2) in simp_all)

definition node_named :: "('h, 'v, 'u) Node \<Rightarrow> bool" where
  "node_named n \<longleftrightarrow> names_ok (asked_for (n_requests n)) (heard_from (n_taken n)) (n_session n)"

lemma names_ok_drop_event:
  "names_ok A H s \<Longrightarrow> chan_buf (outChannelEvents s) = ev # evs \<Longrightarrow>
   names_ok A H (s\<lparr>outChannelEvents := (outChannelEvents s)\<lparr>chan_buf := evs\<rparr>\<rparr>)"
  by (simp add: names_ok_def layer_named_def)

lemma node_local_named: "node_local env run n n' \<Longrightarrow> node_named n \<Longrightarrow> node_named n'"
proof (induction rule: node_local.induct)
  case (dispatcher n n')
  then show ?case by (auto dest!: rt_eventHandler_Return simp: node_named_def)
next
  case (pump n rnd n')
  then show ?case by (auto dest!: startSessionEvents_Return simp: node_named_def names_ok_drop_event)
qed (simp_all add: node_named_def message_names event_names request_names del: handle_input.simps)

lemma node_step_named: "node_step env run n n' \<Longrightarrow> node_named n \<Longrightarrow> node_named n'"
  by (erule node_step.cases) (auto dest: node_local_named dest!: node_net_frame simp: node_named_def)

text \<open>A node announces itself and nobody else, and only to hosts its runtime asked for.\<close>

definition hello_call_ok :: "Host set \<Rightarrow> Host \<Rightarrow> transport_call \<Rightarrow> bool" where
  "hello_call_ok A me c \<longleftrightarrow> (\<forall>m h l. c = TSend m h \<longrightarrow> hello_of (tm_Msg m) = Some l \<longrightarrow> l = announced me \<and> h \<in> A)"

lemma hello_call_ok_simps [simp]:
  "hello_call_ok A me (TConnect h)" "hello_call_ok A me (TDisconnect h)"
  "hello_call_ok A me (TSend m h) \<longleftrightarrow> (\<forall>l. hello_of (tm_Msg m) = Some l \<longrightarrow> l = announced me \<and> h \<in> A)"
  by (auto simp: hello_call_ok_def)

lemma hello_call_ok_mono: "list_all (hello_call_ok A me) cs \<Longrightarrow> A \<subseteq> B \<Longrightarrow> list_all (hello_call_ok B me) cs"
  by (auto simp: hello_call_ok_def list_all_iff)

definition says_own_name :: "('h, 'v, 'u) Node \<Rightarrow> bool" where
  "says_own_name n \<longleftrightarrow>
     list_all (hello_call_ok (asked_for (n_requests n)) (self (n_session n))) (n_calls n @ transport (n_session n))"

lemma hello_of_serialized:
  "hello_of (tm_Msg (serializeMessage \<lparr>sm_host = h, sm_layer = Application, sm_Msg = p\<rparr>)) = None"
  "hello_of (tm_Msg (serializeMessage \<lparr>sm_host = h, sm_layer = Session, sm_Msg = encodeAck\<rparr>)) = None"
  "encodeHello me = Inr p \<Longrightarrow> hello_of (tm_Msg (serializeMessage \<lparr>sm_host = h, sm_layer = Session, sm_Msg = p\<rparr>)) = Some (announced me)"
  by (simp_all add: hello_of_def serializeMessage_def NewMessage_def encodeHello_parse)

text \<open>A turn of the session layer appends to its queue of calls.\<close>

definition new_hellos_ok :: "Host set \<Rightarrow> SessionLayer \<Rightarrow> SessionLayer \<Rightarrow> bool" where
  "new_hellos_ok A s s' \<longleftrightarrow> self s' = self s \<and>
     (\<exists>cs. transport s' = transport s @ cs \<and> list_all (hello_call_ok A (self s)) cs)"

lemma new_hellos_refl [simp]: "transport s' = transport s \<Longrightarrow> self s' = self s \<Longrightarrow> new_hellos_ok A s s'"
  by (simp add: new_hellos_ok_def)

lemma session_self_sel [simp]:
  "self (transport_Send m h s) = self s" "self (transport_Connect h s) = self s" "self (transport_Disconnect h s) = self s"
  by (simp_all add: transport_Send_def transport_Connect_def transport_Disconnect_def)

lemma machine_hellos:
  "new_hellos_ok A s (snd (handleClientConnectRequested sc s))"
  "new_hellos_ok A s (snd (handleHandshakeMessage m sc s))" "new_hellos_ok A s (snd (handleDisconnected sc s))"
  "new_hellos_ok A s (snd (handleFailed sc s))" "conn_named A H sc \<Longrightarrow> new_hellos_ok A s (snd (handleConnected sc s))"
  by (auto simp: new_hellos_ok_def machine_defs Let_def hello_of_serialized conn_named_def
      split: SessionState.split sum.split HandshakeType.split)

lemma withSession_hellos: "new_hellos_ok A s (snd (f (lookup_session t l s) s)) \<Longrightarrow> new_hellos_ok A s (withSession t l f s)"
  by (cases "f (lookup_session t l s) s") (simp add: new_hellos_ok_def withSession_def)

lemma lookup_named: "names_ok A H s \<Longrightarrow> conn_named A H (lookup_session t zeroHost s)"
  by (auto simp: names_ok_def lookup_session_def conn_named_def split: option.split)

lemma input_hellos:
  assumes "names_ok A H s"
  shows "new_hellos_ok A s (handle_input i s)"
proof (cases i)
  case (TransportEvent ev)
  have "conn_named A H (mark_server (lookup_session t zeroHost s))" for t using lookup_named [OF assms] by simp
  from machine_hellos(5) [OF this] TransportEvent show ?thesis
    by (cases ev) (simp_all add: dispatch_defs withSession_hellos machine_hellos(1-4))
next
  case (FromTransport m)
  then show ?thesis
    by (simp add: transportMessageHandler_def Let_def dispatch_defs withSession_hellos machine_hellos(2) split: LayerIdentifier.split)
next
  case (ConnectReq h)
  then show ?thesis by (simp add: dispatch_defs withSession_hellos machine_hellos(1))
qed (simp_all add: new_hellos_ok_def session_disconnect_def session_send_def Let_def hello_of_serialized)

lemma says_own_name_input:
  assumes "says_own_name n" and "node_named n" and "n_calls n' = n_calls n" and "n_session n' = handle_input i (n_session n)"
    and "set (n_requests n) \<subseteq> set (n_requests n')"
  shows "says_own_name n'"
proof -
  have sub: "asked_for (n_requests n) \<subseteq> asked_for (n_requests n')" using assms(5) by (auto simp: asked_for_def)
  have "new_hellos_ok (asked_for (n_requests n)) (n_session n) (handle_input i (n_session n))"
    using assms(2) by (auto simp: node_named_def intro: input_hellos)
  then show ?thesis
    using assms(1) hello_call_ok_mono [OF _ sub] by (auto simp: says_own_name_def new_hellos_ok_def assms(3,4))
qed

lemma node_local_says: "node_local env run n n' \<Longrightarrow> node_named n \<Longrightarrow> says_own_name n \<Longrightarrow> says_own_name n'"
proof (induction rule: node_local.induct)
  case (dispatcher n n')
  then show ?case by (auto dest!: rt_eventHandler_Return simp: says_own_name_def)
next
  case (pump n rnd n')
  then show ?case by (auto dest!: startSessionEvents_Return simp: says_own_name_def)
next
  case (request n "is" i js)
  show ?case by (rule says_own_name_input [OF request(4,3), of _ i]) (auto simp del: handle_input.simps)
next
  case (transport_event n ev evs)
  show ?case by (rule says_own_name_input [OF transport_event(3,2), of _ "TransportEvent ev"]) (simp_all del: handle_input.simps)
next
  case (transport_message n m ms)
  show ?case by (rule says_own_name_input [OF transport_message(3,2), of _ "FromTransport m"]) (simp_all del: handle_input.simps)
qed (simp_all add: says_own_name_def)

lemma node_step_says: "node_step env run n n' \<Longrightarrow> node_named n \<Longrightarrow> says_own_name n \<Longrightarrow> says_own_name n'"
proof (induction rule: node_step.induct)
  case (net l n n')
  then show ?case
    by (cases l) (auto simp: says_own_name_def Let_def elim!: node_net_DialE simp del: node_net.simps(1) split: if_splits)
qed (rule node_local_says)

lemma machine_self [simp]:
  "self (snd (handleClientConnectRequested sc s)) = self s" "self (snd (handleConnected sc s)) = self s"
  "self (snd (handleHandshakeMessage m sc s)) = self s" "self (snd (handleDisconnected sc s)) = self s"
  "self (snd (handleFailed sc s)) = self s"
  by (simp_all add: machine_defs Let_def split: SessionState.split sum.split HandshakeType.split)

lemma withSession_self [simp]: "self (withSession t l f s) = self (snd (f (lookup_session t l s) s))"
  by (simp add: withSession_def split: prod.split)

lemma input_self: "self (handle_input i s) = self s"
proof (cases i)
  case (TransportEvent ev)
  then show ?thesis by (cases ev) (simp_all add: dispatch_defs)
qed (simp_all add: dispatch_defs transportMessageHandler_def session_disconnect_def session_send_def Let_def split: LayerIdentifier.split)

lemma node_step_self: "node_step env run n n' \<Longrightarrow> self (n_session n') = self (n_session n)"
proof (induction rule: node_step.induct)
  case (alone n n')
  then show ?case
  proof (induction rule: node_local.induct)
    case (dispatcher n n')
    then show ?case by (auto dest!: rt_eventHandler_Return)
  next
    case (pump n rnd n')
    then show ?case by (auto dest!: startSessionEvents_Return)
  qed (simp_all add: input_self del: handle_input.simps)
qed (auto dest: node_net_frame)

section \<open>Over the network\<close>

lemma cluster_steps_node:
  assumes "cluster_steps env run s0 s" and "cluster_ok s0"
  shows "node_steps (env x) (run x) (nodes s0 x) (nodes s x)"
  using assms
proof (induction rule: rtranclp_induct)
  case (step s s')
  then have "cluster_ok s" using cluster_steps_ok by blast
  then have "nodes s' x = nodes s x \<or> node_step (env x) (run x) (nodes s x) (nodes s' x)"
    using cluster_step_node [OF step(2)] by (simp add: cluster_ok_def)
  with step show ?case by (auto intro: rtranclp.rtrancl_into_rtrancl)
qed simp

lemma node_steps_names:
  assumes "node_steps env run n n'"
  shows "node_named n \<Longrightarrow> node_named n'" and "node_named n \<Longrightarrow> says_own_name n \<Longrightarrow> says_own_name n'"
    and "self (n_session n') = self (n_session n)"
  using assms by (induction rule: rtranclp_induct) (auto dest: node_step_named node_step_says simp: node_step_self)

lemma NewNode_names: "node_named (NewNode r eb mb tb l)" "says_own_name (NewNode r eb mb tb l)"
  "self (n_session (NewNode r eb mb tb l)) = rt_self r" "n_rt (NewNode r eb mb tb l) = r"
  by (simp_all add: node_named_def says_own_name_def NewNode_def NewSessionLayer_def names_ok_def layer_named_def make_chan_def Let_def)

lemma cluster_names:
  assumes "cluster_start s0" and "cluster_steps env run s0 s"
  shows "node_named (nodes s x)" and "says_own_name (nodes s x)" and "self (n_session (nodes s x)) = rt_self (n_rt (nodes s0 x))"
proof -
  obtain r eb mb tb l where x: "nodes s0 x = NewNode r eb mb tb l" using assms(1) unfolding cluster_start_def by blast
  have "node_steps (env x) (run x) (NewNode r eb mb tb l) (nodes s x)"
    using cluster_steps_node [OF assms(2) cluster_start_ok [OF assms(1)], of x] x by simp
  note steps = node_steps_names [OF this]
  show "node_named (nodes s x)" "says_own_name (nodes s x)" "self (n_session (nodes s x)) = rt_self (n_rt (nodes s0 x))"
    using steps by (simp_all add: x NewNode_names)
qed

text \<open>A frame received on a connection was handed to the transport by the session layer at its other end.\<close>

lemma received_was_handed:
  assumes "cluster_ok s" and "ends s d = Some x" and "ends s (other_end d) = Some a" and "(d, f) \<in> set (n_log (nodes s x))"
  shows "f \<in> set (handed (n_calls (nodes s a)))"
proof -
  let ?got = "tagged d (n_log (nodes s x))" and ?w = "wire (tcp_of s a) (other_end d)"
  from assms(1-3) have "prefix (concat (map frame ?got)) ?w" "list_all (\<lambda>f. length f \<le> 2 ^ 24) ?got"
    unfolding cluster_ok_def network_ok_def streams_ok_def end_ok_def by blast+
  moreover from assms(1) obtain ps rest where "framed ?w ps rest" and sub: "subseq ps (handed (n_calls (nodes s a)))"
    unfolding cluster_ok_def node_ok_def wire_ok_def by blast
  ultimately have "set ?got \<subseteq> set ps" using frames_prefix by (meson set_mono_prefix)
  moreover have "f \<in> set ?got" using assms(4) by (force simp: tagged_def)
  ultimately show ?thesis using subseq_subset [OF sub] by blast
qed

text \<open>The messages the session layer has taken from the transport, each with the connection its frame was read from.\<close>

definition taken_on :: "('h, 'v, 'u) Node \<Rightarrow> (conn \<times> TMessage) list" where
  "taken_on n = zip (map fst (n_log n)) (n_taken n)"

lemma taken_on_log:
  assumes "log_ok n"
  shows "m \<in> set (n_taken n) \<Longrightarrow> \<exists>d. (d, m) \<in> set (taken_on n)" and "(d, m) \<in> set (taken_on n) \<Longrightarrow> (d, tm_Msg m) \<in> set (n_log n)"
proof -
  from assms have eq: "map snd (n_log n) = map tm_Msg (n_taken n @ chan_buf (outChannel (n_tcp n)))" by (simp add: log_ok_def)
  from arg_cong [OF eq, of length] have len: "length (n_taken n) \<le> length (n_log n)" by simp
  then show "\<exists>d. (d, m) \<in> set (taken_on n)" if "m \<in> set (n_taken n)"
    using that by (auto simp: taken_on_def set_zip in_set_conv_nth)
  show "(d, tm_Msg m) \<in> set (n_log n)" if dm: "(d, m) \<in> set (taken_on n)"
  proof -
    from dm obtain i where i: "i < length (n_taken n)" "i < length (n_log n)" "d = fst (n_log n ! i)" "m = n_taken n ! i"
      by (auto simp: taken_on_def set_zip)
    from arg_cong [OF eq, of "\<lambda>xs. xs ! i"] i have "snd (n_log n ! i) = tm_Msg m" by (simp add: nth_append)
    with i show ?thesis by (metis nth_mem prod.collapse)
  qed
qed

text \<open>Who stands behind the name \<open>l\<close> of the session at transport host \<open>t\<close> of node \<open>x\<close>: the node's own runtime, which
  asked to connect to \<open>t\<close>, or the node at the other end of the connection over which a Hello was taken from \<open>t\<close>.\<close>

definition stands_behind :: "('h, 'v, 'u) cluster \<Rightarrow> ('h, 'v, 'u) cluster \<Rightarrow> nat \<Rightarrow> Host \<Rightarrow> Host \<Rightarrow> bool" where
  "stands_behind s0 s x t l \<longleftrightarrow>
     ConnectReq t \<in> set (n_requests (nodes s x)) \<and> (l = t \<or> Port t = 0 \<and> l = zeroHost) \<or>
     (\<exists>d m a h. (d, m) \<in> set (taken_on (nodes s x)) \<and> tm_Host m = t \<and> hello_of (tm_Msg m) = Some l \<and>
        ends s d = Some x \<and> ends s (other_end d) = Some a \<and> l = announced (rt_self (n_rt (nodes s0 a))) \<and>
        ConnectReq h \<in> set (n_requests (nodes s a)))"

lemma handedE:
  assumes "p \<in> set (handed cs)"
  obtains m h where "TSend m h \<in> set cs" and "tm_Msg m = p"
  using assms by (auto simp: handed_def List.map_filter_def split: transport_call.splits)

lemma name_ok_stands_behind:
  assumes "cluster_start s0" and "cluster_steps env run s0 s"
    and "name_ok (asked_for (n_requests (nodes s x))) (heard_from (n_taken (nodes s x))) t l"
  shows "stands_behind s0 s x t l"
proof (cases "(t, l) \<in> heard_from (n_taken (nodes s x))")
  case False
  with assms(3) show ?thesis by (auto simp: name_ok_def asked_for_def stands_behind_def)
next
  case True
  have ok: "cluster_ok s" using cluster_steps_ok [OF assms(2) cluster_start_ok [OF assms(1)]] .
  then have log: "log_ok (nodes s x)" by (simp add: cluster_ok_def node_ok_def)
  from True obtain m where m: "m \<in> set (n_taken (nodes s x))" "tm_Host m = t" "hello_of (tm_Msg m) = Some l"
    by (auto simp: heard_from_def)
  then obtain d where d: "(d, m) \<in> set (taken_on (nodes s x))" using taken_on_log(1) [OF log] by blast
  have f: "(d, tm_Msg m) \<in> set (n_log (nodes s x))" using taken_on_log(2) [OF log d] .
  then have "concerns (nodes s x) d" by (force simp: concerns_def)
  then have x: "ends s d = Some x" using ok unfolding cluster_ok_def network_ok_def by (blast dest: conns_okD)
  then obtain a where a: "ends s (other_end d) = Some a"
    using ok unfolding cluster_ok_def network_ok_def conns_ok_def by (metis not_None_eq other_end_simps(1))
  have "tm_Msg m \<in> set (handed (n_calls (nodes s a)))" using received_was_handed [OF ok x a f] .
  then obtain m' h where "TSend m' h \<in> set (n_calls (nodes s a))" "tm_Msg m' = tm_Msg m" by (rule handedE)
  moreover from this(1) have "hello_call_ok (asked_for (n_requests (nodes s a))) (self (n_session (nodes s a))) (TSend m' h)"
    using cluster_names(2) [OF assms(1,2), of a] unfolding says_own_name_def list_all_iff set_append by blast
  ultimately have "l = announced (self (n_session (nodes s a)))" "ConnectReq h \<in> set (n_requests (nodes s a))"
    using m(3) by (simp_all add: asked_for_def)
  then show ?thesis using d m(2,3) x a cluster_names(3) [OF assms(1,2)] unfolding stands_behind_def by metis
qed

section \<open>Property\<close>

text \<open>C4. Names of sessions are authentic. In every state a network of nodes reaches: when the session layer of a
  node routes a connection under a logical host, or is announcing a session with that host, then either its own
  runtime asked for a session with exactly that host, or the Hello that named it was read off a connection
  whose other end is held by the node configured with that host (its port in the sixteen bits a Hello carries),
  and the runtime of that node asked for a session itself.
  The exception is a request for a host without a port, which leaves a session that had no name without one.\<close>

theorem session_names_authentic:
  assumes "cluster_start s0" and "cluster_steps env run s0 s"
  shows "(\<forall>t l. transportToLogical (n_session (nodes s x)) t = Some l \<longrightarrow> stands_behind s0 s x t l) \<and>
    (\<forall>l. SessionConnected l \<in> set (chan_buf (outChannelEvents (n_session (nodes s x)))) \<longrightarrow> (\<exists>t. stands_behind s0 s x t l))"
  using cluster_names(1) [OF assms, of x] name_ok_stands_behind [OF assms, of x]
  unfolding node_named_def names_ok_def layer_named_def by blast

lemma node_pair_bound:
  "\<exists>s. run_cluster node_pair_run node_pair = Some s \<and>
     transportToLogical (n_session (nodes s 1)) (NewHost 4000 ''a'') = Some (NewHost 1 ''a'')"
  by (simp add: node_pair_simps)

theorem session_names_authentic_witness:
  "\<exists>s. run_cluster node_pair_run node_pair = Some s \<and> stands_behind node_pair s 1 (NewHost 4000 ''a'') (NewHost 1 ''a'')"
proof -
  obtain s where s: "run_cluster node_pair_run node_pair = Some s"
    "transportToLogical (n_session (nodes s 1)) (NewHost 4000 ''a'') = Some (NewHost 1 ''a'')"
    using node_pair_bound by blast
  from session_names_authentic [OF node_pair_start run_cluster_steps [OF s(1)], of 1] s show ?thesis by blast
qed

end
