(* ===== verification/Contact.thy ===== *)
theory Contact
  imports Identity
begin

text \<open>
  First contact: two freshly started nodes, of which one asks for a session with the other and sends at once,
  without waiting for the handshake.
\<close>

definition pair_of :: "('h, 'v, 'u) Runtime \<Rightarrow> ('h, 'v, 'u) Runtime \<Rightarrow> ('h, 'v, 'u) cluster" where
  "pair_of ra rb = \<lparr>nodes = (\<lambda>x. if x = 0 then NewNode ra 0 0 0 True else NewNode rb 0 0 0 True), ends = Map.empty,
     waiting = {}, pos = (\<lambda>_. 0), next_conn = 0\<rparr>"

definition contact_run :: "Host \<Rightarrow> Host \<Rightarrow> cluster_act list" where
  "contact_run b e =
     [At 0 NRequest, DialFrom 0 b 1, At 0 NEvent, At 0 (NCall WriteOK), At 0 NRequest, At 0 (NCall WriteOK),
      AcceptAt 1 e, ReadOn 1 readBufSize, At 1 NEvent, At 1 NMessage, At 1 NMessage,
      At 1 (NCall WriteOK), At 1 NRequest, At 1 (NCall WriteOK), ReadOn 0 readBufSize, At 0 NMessage, At 0 NMessage]"

lemma hello_length:
  assumes "length (IP h) \<le> 0xFFFF"
  obtains hello where "encodeHello h = Inr hello" and "length hello = length (IP h) + 6" and "parseHandshakePayload hello = Inr (HandshakeHello, announced h)"
proof -
  have "\<exists>hello. encodeHello h = Inr hello \<and> length hello = length (IP h) + 6"
    using assms by (simp add: encodeHello_def WriteHost_buffer bytes_of_string_def)
  then show ?thesis using that encodeHello_parse by blast
qed

lemma ack_small: "length encodeAck = 1"
  by (simp add: encodeAck_def)

text \<open>C5. First contact works: when a node's runtime asks for a session with a host and sends to it at once, and
  what each side writes fits into one read, there is a run of the two nodes, with nothing lost, in which each
  session layer has announced exactly one session, the dialler under the host it asked for and the other under
  the host the dialler is configured with (port in sixteen bits), both route that host, the message sent before
  the handshake was answered waits for the other node's dispatcher, and a message the other runtime sends back
  to the announced host arrives over the same connection. Both messages carry the address of the connection
  they came over.\<close>

theorem first_contact_delivers:
  assumes ra: "sessionLayer ra = Some (ConnectReq b # SendReq out b # is)"
    and rb: "sessionLayer rb = Some (SendReq back (announced (rt_self ra)) # js)"
    and small: "length (IP (rt_self ra)) + length out < readBufSize - 15" "length back < readBufSize - 10"
  shows "\<exists>s. run_cluster (contact_run b e) (pair_of ra rb) = Some s \<and>
     chan_buf (outMessages (n_session (nodes s 1))) = [\<lparr>sm_host = e, sm_layer = Application, sm_Msg = out\<rparr>] \<and>
     chan_buf (outMessages (n_session (nodes s 0))) = [\<lparr>sm_host = b, sm_layer = Application, sm_Msg = back\<rparr>] \<and>
     chan_buf (outChannelEvents (n_session (nodes s 0))) = [SessionConnected b] \<and>
     chan_buf (outChannelEvents (n_session (nodes s 1))) = [SessionConnected (announced (rt_self ra))] \<and>
     logicalToTransport (n_session (nodes s 0)) b = Some b \<and>
     logicalToTransport (n_session (nodes s 1)) (announced (rt_self ra)) = Some e"
proof -
  have ip: "length (IP (rt_self ra)) \<le> 0xFFFF" using small(1) by (simp add: readBufSize_def)
  obtain hello where hello: "encodeHello (rt_self ra) = Inr hello" "length hello = length (IP (rt_self ra)) + 6"
    "parseHandshakePayload hello = Inr (HandshakeHello, announced (rt_self ra))"
    using hello_length [OF ip] .
  show ?thesis using ra rb small hello by (simp add: contact_run_def pair_of_def node_pair_simps ack_small)
qed

theorem first_contact_delivers_witness:
  "\<exists>s. run_cluster (contact_run (NewHost 2 ''b'') (NewHost 4000 ''a''))
       (pair_of ((New (NewHost 1 ''a'') [WithTCPTransport] () False :: (nat, nat, unit) Runtime)
            \<lparr>sessionLayer := Some [ConnectReq (NewHost 2 ''b''), SendReq [7, 8] (NewHost 2 ''b'')]\<rparr>)
          ((New (NewHost 2 ''b'') [WithTCPTransport] () False)\<lparr>sessionLayer := Some [SendReq [9] (NewHost 1 ''a'')]\<rparr>)) = Some s \<and>
     chan_buf (outMessages (n_session (nodes s 0))) = [\<lparr>sm_host = NewHost 2 ''b'', sm_layer = Application, sm_Msg = [9]\<rparr>]"
proof -
  let ?ra = "(New (NewHost 1 ''a'') [WithTCPTransport] () False :: (nat, nat, unit) Runtime)
      \<lparr>sessionLayer := Some [ConnectReq (NewHost 2 ''b''), SendReq [7, 8] (NewHost 2 ''b'')]\<rparr>"
    and ?rb = "(New (NewHost 2 ''b'') [WithTCPTransport] () False)\<lparr>sessionLayer := Some [SendReq [9] (NewHost 1 ''a'')]\<rparr>"
  have "rt_self ?ra = NewHost 1 ''a''" by (simp add: New_def WithTCPTransport_def)
  then show ?thesis
    using first_contact_delivers [of ?ra "NewHost 2 ''b''" "[7, 8]" "[]" ?rb "[9]" "[]" "NewHost 4000 ''a''"] by (auto simp: readBufSize_def)
qed

end
