(* ===== verification/Spec2Isabelle.thy ===== *)
theory Spec2Isabelle
  imports Startup Contact
begin

text \<open>
  \<^bold>\<open>A verification library for protorun, a runtime for message-passing protocols in Go.\<close>

  \<^bold>\<open>The program.\<close> A node runs a \<^verbatim>\<open>Runtime\<close> (\<^verbatim>\<open>src/pkg/protorun\<close>) that hosts protocols. Each protocol has an
  event loop over six channels: messages, timers, session events, requests, replies and notifications. Below
  the runtime a session layer (\<^verbatim>\<open>src/pkg/transport/session.go\<close>) turns connections into sessions between
  logical hosts by a Hello/Ack handshake, and below that the TCP layer (\<^verbatim>\<open>src/pkg/transport/tcp.go\<close>) carries
  length-prefixed frames. \<^verbatim>\<open>src/pkg/wire\<close> has the byte-level readers and writers. Two example programs,
  \<^verbatim>\<open>src/cmd/pingpong\<close> and \<^verbatim>\<open>src/cmd/gossip\<close>, are protocols written against the API.

  \<^bold>\<open>Conventions.\<close> A struct is a \<open>record\<close>, an enumeration or sum of interfaces a \<open>datatype\<close>, a Go map a
  partial function or, where its order can be observed, a list of its entries with the order of iteration as
  an argument. Fixed-width integers are words; Go's \<^verbatim>\<open>int\<close> and \<^verbatim>\<open>time.Duration\<close> (nanoseconds) are \<open>int\<close>. Errors
  are values of \<open>go_error\<close>, with \<open>errors_Is\<close> for the wrapping of \<^verbatim>\<open>%w\<close>. A piece of code that can wait or panic
  has an \<open>outcome\<close>: it returns a value and a state, it waits in the state it has reached (\<open>Block\<close>), or it
  panics there. A channel is a bounded queue; \<open>select_send\<close> is a send in a \<^verbatim>\<open>select\<close> with \<^verbatim>\<open>ctx.Done()\<close>: it waits
  while the channel is full, and once the context is done either ready branch may be taken, which one being
  an argument (\<open>preferDone\<close>, \<open>rt_preferDone\<close>). The channels out of the session and transport layers are queues
  without a bound: what the code does there is append, and a full channel only delays it. A turn of a
  goroutine (one case of its \<^verbatim>\<open>select\<close>, one timer function, one API call of a goroutine of the user) is atomic;
  the code's locks protect exactly such turns. Turns that end in \<open>Block\<close> are not taken, they are retried when
  another goroutine has made room.

  \<^bold>\<open>Theories.\<close>

  \<^item> \<open>Go_Prelude\<close>: bytes, byte orders, errors, channels, outcomes, maps; the collections \<open>go_defs\<close>,
    \<open>codec_simps\<close> and \<open>chan_simps\<close>.
  \<^item> \<open>Wire\<close> (\<^verbatim>\<open>pkg/wire/wire.go\<close>): the readers and writers over the locales \<open>byte_sink\<close>, \<open>byte_source\<close> and
    \<open>byte_pipe\<close>, interpreted by \<^verbatim>\<open>bytes.Buffer\<close>; round trips and truncation.
  \<^item> \<open>Address\<close> (\<^verbatim>\<open>host.go\<close>, \<^verbatim>\<open>address.go\<close>, \<^verbatim>\<open>layer.go\<close>): hosts, their text and wire forms.
  \<^item> \<open>Framing\<close> (\<^verbatim>\<open>tcp.go\<close>): \<open>encodeFrame\<close> and the incremental decoder, which terminates because every round
    consumes a header; the locale \<open>framing\<close> gives delivery of a stream cut anywhere.
  \<^item> \<open>Handshake\<close> and \<open>Session\<close> (\<^verbatim>\<open>session.go\<close>): payloads, the per-peer state machine and every case of the
    handler loop. \<open>session_inv\<close> is the invariant of the host mappings; \<open>lifecycle\<close> is the abstract session
    (down, opening, up) each operation refines, by interpretations of \<open>session_operation\<close>.
  \<^item> \<open>TCP_Layer\<close> (\<^verbatim>\<open>tcp.go\<close>): the handler, listener and connection goroutines; what sockets do (dial, read,
    write) is an argument.
  \<^item> \<open>Codec\<close> (\<^verbatim>\<open>codec.go\<close>, \<^verbatim>\<open>codec_registry.go\<close>): identifiers by FNV-1a, the identifier cache, adapters,
    \<^verbatim>\<open>BinaryCodec\<close>; the locales \<open>message_codec\<close> and \<open>route_table\<close>. \<open>Ipc_Router\<close> (\<^verbatim>\<open>ipc_router.go\<close>): routes and
    fan-out, interpreting \<open>route_table\<close> and \<open>fan_out\<close>. \<open>Strict\<close> (\<^verbatim>\<open>strict.go\<close>): phases and guards.
    \<open>Retry_Policy\<close> (\<^verbatim>\<open>retry.go\<close>): backoff, over the reals.
  \<^item> \<open>Runtime_State\<close> (\<^verbatim>\<open>runtime.go\<close>, \<^verbatim>\<open>protocol.go\<close>): the records \<open>Runtime\<close> and \<open>protoProtocol\<close>, constructors
    and options, \<^verbatim>\<open>time.AfterFunc\<close>. \<open>Timers\<close> (\<^verbatim>\<open>timer.go\<close>), \<open>Reconnect\<close> (\<^verbatim>\<open>retry.go\<close>), \<open>Messaging\<close>
    (\<^verbatim>\<open>message.go\<close> and the context's API), \<open>Ipc_Calls\<close> (\<^verbatim>\<open>ipc.go\<close>), \<open>Event_Loop\<close> (the six cases of the loop
    and the session-event pump), \<open>Lifecycle\<close> (start, cancel, shutdown, and the interleaving: \<open>api_step\<close> for one
    API call, \<open>rt_step\<close> for one turn of any goroutine, \<open>run_acts\<close> to run a given schedule).
  \<^item> \<open>Runtime_Invariants\<close>: \<open>rt_inv\<close>, which ties pending requests to queued replies and armed timeouts and
    armed timers to the tables that own them, and its preservation by every step; the contract of user code is
    the locale \<open>hosted_protocols\<close>, whose one law is that it acts through the API.
  \<^item> \<open>Mailboxes\<close>: the locale \<open>envelope_relation\<close>, what any interleaving may do to a protocol's envelope, with the
    laws of the three ways the code touches one; interpreted with the shape of the mailboxes. \<open>Startup\<close>: the two
    passes of \<^verbatim>\<open>Runtime.start\<close> as instances of the locale \<open>startup_pass\<close>.
  \<^item> \<open>Ping_Pong\<close>, \<open>Membership\<close>, \<open>Gossip\<close>: the examples as user code, interpreting \<open>hosted_protocols\<close> and
    \<open>message_codec\<close>. \<open>Gossip_Network\<close>: nodes exchanging envelopes in any order. \<open>Logging\<close> (\<^verbatim>\<open>logging.go\<close> and
    the example's configuration file).
  \<^item> \<open>Runtime_Properties\<close>, \<open>Gossip_Properties\<close>, \<open>End_To_End\<close>: the properties of the whole runtime, of the
    gossip node, and across the layers.
  \<^item> \<open>Node\<close>: the runtime, its session layer and its transport as one transition system (\<open>node_local\<close> for steps
    without news from the network, \<open>node_net\<close> for dials, accepts and reads), with the dispatcher
    (\<^verbatim>\<open>Runtime.eventHandler\<close>) and the pump (\<^verbatim>\<open>Runtime.startSessionEvents\<close>) between them and traces of what passed
    each boundary. \<open>Cluster\<close>: any number of such nodes over a network of reliable byte streams.
    \<open>Identity\<close>: the names of sessions, followed through the handlers by the locale \<open>naming_operation\<close> and over
    the network to the node they belong to. \<open>Contact\<close>: two fresh nodes making contact.

  \<^bold>\<open>What is shown.\<close> Data survives: integers, strings, hosts, frames, Hello messages, codecs and whole messages
  from \<^verbatim>\<open>Send\<close> to the handler, however the stream is cut. In a network of nodes, whatever is interleaved, lost
  or cancelled, a dispatcher only processes what the runtime at the other end of a connection sent, in order
  and once, and what was written whole can still be received while the connection's handler runs; a node passes
  everything on while its layers are live. The name a session goes by is the one the own runtime asked for or
  the configured host of the node at the other end; two fresh nodes can make contact and talk both ways. The
  session layer routes a logical host only to an established session that is known under it, reports each
  session as a lifecycle without surprises, and the handshake binds both identities in either order of arrival.
  Every request is answered: a pending request has a reply queued or a timeout to come, no request completes
  twice, a panicking handler fails its request, and a reply reaches its own callback. A start calls every
  \<^verbatim>\<open>Start\<close> before any \<^verbatim>\<open>Init\<close>. Notifications and session events reach each protocol they are for once. The
  table of protocols stays as registration made it and no mailbox exceeds its capacity. Panics of user code
  never leave the loop. Reconnects follow the backoff schedule, delays are bounded, an explicit disconnect ends
  them, and cancellation disarms the tables and leaves no send waiting. Gossip reaches every node reachable
  along the views exactly once and comes to rest, and the handlers on the runtime do what that model says.
  Where the code departs from its documentation or loses something, a theorem states exactly how: frames lost
  before an oversized one, application messages labelled with the connection's address, disconnects that miss
  inbound sessions, sessions that never come back up, routes and timers lost to stale callbacks, timer
  identifiers shared between protocols, answered requests counted as late, refused connects that block later
  ones, failed writes no protocol is told of, a view change overwritten by the initial view, and a strict-mode
  panic that comes after the route was replaced.

  \<^bold>\<open>Bounds.\<close> Request identifiers are 64-bit counters; the request invariant is stated for executions in which no
  protocol has sent \<open>2^64\<close> requests (\<open>few_sent\<close>). Payload lengths are bounded by the 32-bit prefix and the
  16 MiB frame limit where the code bounds them. No definition uses fuel: every loop is over a list or a
  buffer that shrinks.

  \<^bold>\<open>Not modelled.\<close> The text of log lines, the wait for goroutines inside \<^verbatim>\<open>Cancel\<close> and \<^verbatim>\<open>Shutdown\<close> (how long it
  takes is an argument of \<open>Shutdown\<close>), signals beyond whether one arrived, command-line flag parsing, the YAML
  decoder (an argument of \<open>LoadConfig\<close>), the layout of \<^verbatim>\<open>log/slog\<close> lines, floating-point rounding of the
  backoff (reals), panics inside a user's codec (which the dispatcher does not recover), struct layouts of
  \<^verbatim>\<open>BinaryCodec\<close> other than unsigned fixed-size fields, and \<^verbatim>\<open>doc.go\<close>, a comment.
\<close>

end
